(* ===== verification/Auth_Prelude.thy ===== *)
theory Auth_Prelude
  imports Complex_Main "HOL-Library.AList"
begin

text \<open>
  Shared material of the development: Python strings (a \<open>string\<close> is a list of code points
  below 256, on which \<open>str.strip\<close>, \<open>str.lower\<close>, \<open>str.partition\<close>, \<open>str.split\<close> and
  \<open>isdecimal\<close> are modelled exactly), the dynamic values a decoded JSON document can hold,
  dictionaries in insertion order (association lists of the library's theory AList), the
  result of a call that may raise in a state, the expiring-map interface, and a small
  matcher for the regular expressions of the source.
\<close>

named_theorems py_str \<open>definitions of the Python string operations\<close>
named_theorems outcome_simps \<open>simplification of calls that may raise\<close>
named_theorems clock_simps \<open>truncation of clock readings\<close>

section \<open>Characters and strings\<close>

abbreviation ord :: "char \<Rightarrow> nat" where
  "ord c \<equiv> of_char c"

definition is_upper :: "char \<Rightarrow> bool" where
  "is_upper c \<longleftrightarrow> (65 \<le> ord c \<and> ord c \<le> 90) \<or> (192 \<le> ord c \<and> ord c \<le> 222 \<and> ord c \<noteq> 215)"

definition lower_char :: "char \<Rightarrow> char" where
  "lower_char c = (if is_upper c then char_of (ord c + 32) else c)"

definition py_lower :: "string \<Rightarrow> string" where
  [py_str]: "py_lower s = map lower_char s"

definition is_space :: "char \<Rightarrow> bool" where
  "is_space c \<longleftrightarrow> (9 \<le> ord c \<and> ord c \<le> 13) \<or> (28 \<le> ord c \<and> ord c \<le> 32) \<or> ord c = 133 \<or> ord c = 160"

definition drop_end :: "(char \<Rightarrow> bool) \<Rightarrow> string \<Rightarrow> string" where
  "drop_end p s = rev (dropWhile p (rev s))"

definition py_strip :: "string \<Rightarrow> string" where
  [py_str]: "py_strip s = drop_end is_space (dropWhile is_space s)"

definition py_rstrip_char :: "char \<Rightarrow> string \<Rightarrow> string" where
  [py_str]: "py_rstrip_char c s = drop_end (\<lambda>x. x = c) s"

definition is_digit :: "char \<Rightarrow> bool" where
  "is_digit c \<longleftrightarrow> 48 \<le> ord c \<and> ord c \<le> 57"

definition is_ascii :: "string \<Rightarrow> bool" where
  "is_ascii s \<longleftrightarrow> list_all (\<lambda>c. ord c < 128) s"

definition py_isdecimal :: "string \<Rightarrow> bool" where
  "py_isdecimal s \<longleftrightarrow> s \<noteq> [] \<and> list_all is_digit s"

text \<open>\<open>s.partition(c)\<close> for a separator of one character.\<close>

definition py_partition :: "char \<Rightarrow> string \<Rightarrow> string \<times> string \<times> string" where
  [py_str]: "py_partition c s =
     (takeWhile (\<lambda>x. x \<noteq> c) s, (if c \<in> set s then [c] else []), tl (dropWhile (\<lambda>x. x \<noteq> c) s))"

fun py_split :: "char \<Rightarrow> string \<Rightarrow> string list" where
  "py_split c [] = [[]]"
| "py_split c (x # xs) =
     (if x = c then [] # py_split c xs
      else (case py_split c xs of [] \<Rightarrow> [[x]] | w # ws \<Rightarrow> (x # w) # ws))"

fun starts_with :: "string \<Rightarrow> string \<Rightarrow> bool" where
  "starts_with [] s = True"
| "starts_with (c # cs) [] = False"
| "starts_with (c # cs) (x # xs) = (c = x \<and> starts_with cs xs)"

fun digits_value :: "nat \<Rightarrow> string \<Rightarrow> nat" where
  "digits_value acc [] = acc"
| "digits_value acc (c # cs) = digits_value (10 * acc + (ord c - 48)) cs"

text \<open>\<open>int(s)\<close> for a string of ASCII digits.\<close>

definition py_int_of_digits :: "string \<Rightarrow> nat" where
  "py_int_of_digits s = digits_value 0 s"

definition digit_char :: "nat \<Rightarrow> char" where
  "digit_char d = char_of (48 + d mod 10)"

fun decimal :: "nat \<Rightarrow> string" where
  "decimal n = (if n < 10 then [digit_char n] else decimal (n div 10) @ [digit_char n])"

declare decimal.simps [simp del]

text \<open>\<open>f"{n:06d}"\<close>.\<close>

definition zero_pad :: "nat \<Rightarrow> string \<Rightarrow> string" where
  "zero_pad w s = replicate (w - length s) (CHR ''0'') @ s"

section \<open>Lemmas on strings\<close>

lemma set_drop_end: "set (drop_end p s) \<subseteq> set s"
  by (auto simp: drop_end_def dest: set_dropWhileD)

lemma set_dropWhile_subset: "set (dropWhile p s) \<subseteq> set s"
  by (auto dest: set_dropWhileD)

lemma set_py_strip: "set (py_strip s) \<subseteq> set s"
  unfolding py_strip_def using set_drop_end set_dropWhile_subset by (rule order_trans)

lemma dropWhile_id: "s = [] \<or> \<not> p (hd s) \<Longrightarrow> dropWhile p s = s"
  by (cases s) auto

lemma drop_end_id: "s = [] \<or> \<not> p (last s) \<Longrightarrow> drop_end p s = s"
  by (auto simp: drop_end_def dropWhile_id hd_rev)

lemma drop_end_last: "drop_end p s = [] \<or> \<not> p (last (drop_end p s))"
  using hd_dropWhile [of p "rev s"] by (auto simp: drop_end_def last_rev)

lemma drop_end_prefix: "\<exists>r. s = drop_end p s @ r"
proof -
  have "rev s = takeWhile p (rev s) @ dropWhile p (rev s)" by simp
  then have "s = rev (dropWhile p (rev s)) @ rev (takeWhile p (rev s))"
    by (metis rev_append rev_rev_ident)
  then show ?thesis by (auto simp: drop_end_def)
qed

lemma drop_end_hd: "drop_end p s \<noteq> [] \<Longrightarrow> hd (drop_end p s) = hd s"
  by (metis drop_end_prefix hd_append2)

lemma py_strip_ends:
  "py_strip s = [] \<or> (\<not> is_space (hd (py_strip s)) \<and> \<not> is_space (last (py_strip s)))"
proof (cases "py_strip s = []")
  case False
  let ?d = "dropWhile is_space s"
  from False have "?d \<noteq> []" by (metis drop_end_id py_strip_def)
  then have "\<not> is_space (hd ?d)" by (rule hd_dropWhile)
  with False show ?thesis
    using drop_end_hd [of is_space ?d] drop_end_last [of is_space ?d]
    unfolding py_strip_def by metis
qed simp

lemma py_strip_id: "s = [] \<or> (\<not> is_space (hd s) \<and> \<not> is_space (last s)) \<Longrightarrow> py_strip s = s"
  by (auto simp: py_strip_def dropWhile_id drop_end_id)

lemma py_strip_idem [simp]: "py_strip (py_strip s) = py_strip s"
  by (rule py_strip_id) (rule py_strip_ends)

lemma char_eq_ord: "c = d \<longleftrightarrow> ord c = ord d"
  by (metis char_of_char)

lemma ord_lower_char: "ord (lower_char c) = (if is_upper c then ord c + 32 else ord c)"
proof -
  have "is_upper c \<Longrightarrow> (ord c + 32) mod 256 = ord c + 32" by (auto simp: is_upper_def)
  then show ?thesis by (simp add: lower_char_def of_char_of)
qed

lemma lower_char_not_upper: "\<not> is_upper (lower_char c)"
  using ord_lower_char [of c] by (auto simp: is_upper_def split: if_splits)

lemma lower_char_idem [simp]: "lower_char (lower_char c) = lower_char c"
  using lower_char_not_upper [of c] by (simp add: lower_char_def)

lemma py_lower_idem [simp]: "py_lower (py_lower s) = py_lower s"
  by (simp add: py_lower_def)

lemma is_space_lower_char [simp]: "is_space (lower_char c) = is_space c"
  using ord_lower_char [of c] by (auto simp: is_space_def is_upper_def split: if_splits)

lemma py_strip_lower: "py_strip (py_lower s) = py_lower (py_strip s)"
  by (simp add: py_strip_def py_lower_def drop_end_def dropWhile_map rev_map comp_def)

lemma lower_strip_idem [simp]:
  "py_lower (py_strip (py_lower (py_strip s))) = py_lower (py_strip s)"
  by (simp add: py_strip_lower)

lemma length_py_lower [simp]: "length (py_lower s) = length s"
  by (simp add: py_lower_def)

lemma lower_char_at: "lower_char c = CHR ''@'' \<longleftrightarrow> c = CHR ''@''"
proof -
  have "ord (lower_char c) = 64 \<longleftrightarrow> ord c = 64"
    by (auto simp: ord_lower_char is_upper_def)
  moreover have "d = CHR ''@'' \<longleftrightarrow> ord d = 64" for d
    by (simp add: char_eq_ord)
  ultimately show ?thesis by blast
qed

lemma starts_with_append [simp]: "starts_with p (p @ s)"
  by (induction p) auto

lemma starts_withD: "starts_with p s \<Longrightarrow> \<exists>r. s = p @ r"
  by (induction p s rule: starts_with.induct) auto

lemma partition_append:
  "c \<notin> set l \<Longrightarrow> py_partition c (l @ c # d) = (l, [c], d)"
  by (induction l) (auto simp: py_partition_def)

section \<open>Decimal numerals\<close>

lemma ord_digit_char: "ord (digit_char d) = 48 + d mod 10"
  by (simp add: digit_char_def of_char_of)

lemma is_digit_digit_char [simp]: "is_digit (digit_char d)"
  using ord_digit_char [of d] by (simp add: is_digit_def)

lemma decimal_digits: "list_all is_digit (decimal n)"
  by (induction n rule: decimal.induct) (subst decimal.simps, simp)

lemma decimal_nonempty: "decimal n \<noteq> []"
  by (subst decimal.simps) simp

lemma digits_value_append:
  "digits_value acc (s @ [c]) = 10 * digits_value acc s + (ord c - 48)"
  by (induction s arbitrary: acc) auto

lemma digits_value_decimal: "digits_value 0 (decimal n) = n"
proof (induction n rule: decimal.induct)
  case (1 n)
  show ?case
  proof (cases "n < 10")
    case True
    then show ?thesis by (subst decimal.simps) (simp add: ord_digit_char)
  next
    case False
    with 1 show ?thesis
      by (subst decimal.simps) (simp add: digits_value_append ord_digit_char)
  qed
qed

lemma digits_value_zeros: "digits_value 0 (replicate k (CHR ''0'') @ s) = digits_value 0 s"
  by (induction k) auto

lemma length_decimal: "n < 10 ^ Suc k \<Longrightarrow> length (decimal n) \<le> Suc k"
proof (induction k arbitrary: n)
  case 0
  then show ?case by (subst decimal.simps) simp
next
  case (Suc k)
  then have "n div 10 < 10 ^ Suc k" by (simp add: less_mult_imp_div_less)
  with Suc.IH show ?case by (subst decimal.simps) auto
qed

section \<open>Dynamic values and dictionaries\<close>

text \<open>The values a decoded JSON document or a dictionary of objects can hold.\<close>

datatype pyval =
    PNone
  | PBool bool
  | PInt int
  | PFloat rat
  | PStr string
  | PList "pyval list"
  | PDict "(string \<times> pyval) list"

type_synonym pydict = "(string \<times> pyval) list"

text \<open>
  \<open>d.get(k)\<close>: a missing key reads as \<open>None\<close>. A dictionary keeps the order in which its
  keys were first stored; \<open>AList.update\<close> and \<open>AList.delete\<close> are \<open>d[k] = v\<close> and
  \<open>d.pop(k, None)\<close>.
\<close>

definition dget :: "pydict \<Rightarrow> string \<Rightarrow> pyval" where
  "dget d k = (case map_of d k of None \<Rightarrow> PNone | Some v \<Rightarrow> v)"

text \<open>\<open>isinstance(v, str)\<close>, and \<open>isinstance(v, int)\<close>, which a \<open>bool\<close> satisfies too.\<close>

fun as_str :: "pyval \<Rightarrow> string option" where
  "as_str (PStr s) = Some s"
| "as_str _ = None"

fun as_int :: "pyval \<Rightarrow> int option" where
  "as_int (PInt i) = Some i"
| "as_int (PBool b) = Some (if b then 1 else 0)"
| "as_int _ = None"

lemma as_str_Some [simp]: "as_str v = Some s \<longleftrightarrow> v = PStr s"
  by (cases v) auto

lemma dget_update [simp]: "dget (AList.update k v d) k' = (if k' = k then v else dget d k')"
  by (simp add: dget_def update_conv')

section \<open>Clock readings\<close>

text \<open>
  Clock readings are rational numbers of seconds; \<open>int(x)\<close> truncates towards zero.
\<close>

type_synonym seconds = rat

definition py_int :: "seconds \<Rightarrow> int" where
  "py_int x = (if 0 \<le> x then \<lfloor>x\<rfloor> else \<lceil>x\<rceil>)"

lemma py_int_of_int [simp]: "py_int (of_int n) = n"
  by (simp add: py_int_def)

lemma py_int_numeral [simp]: "py_int (numeral n) = numeral n"
  by (simp add: py_int_def)

lemma py_int_0 [simp]: "py_int 0 = 0"
  by (simp add: py_int_def)

lemma py_int_1 [simp]: "py_int 1 = 1"
  by (simp add: py_int_def)

lemma py_int_le: "0 \<le> x \<Longrightarrow> of_int (py_int x) \<le> x"
  by (simp add: py_int_def)

lemma py_int_mono: "x \<le> y \<Longrightarrow> py_int x \<le> py_int y"
proof (cases "0 \<le> x \<or> y < 0")
  case True
  then show "x \<le> y \<Longrightarrow> py_int x \<le> py_int y"
    by (auto simp: py_int_def floor_mono ceiling_mono)
next
  case False
  then have "\<lceil>x\<rceil> \<le> 0" and "0 \<le> \<lfloor>y\<rfloor>" by (auto simp: ceiling_le_iff le_floor_iff)
  then have "\<lceil>x\<rceil> \<le> \<lfloor>y\<rfloor>" by (rule order_trans)
  with False show "x \<le> y \<Longrightarrow> py_int x \<le> py_int y" by (simp add: py_int_def)
qed

section \<open>Calls that may raise, in a state\<close>

type_synonym ('e, 's, 'a) outcome = "('e + 'a) \<times> 's"

text \<open>Sequencing: an exception of the first call leaves with the state it was raised in.\<close>

definition and_then ::
  "('e, 's, 'a) outcome \<Rightarrow> ('a \<Rightarrow> 's \<Rightarrow> ('e, 's, 'b) outcome) \<Rightarrow> ('e, 's, 'b) outcome" where
  "and_then m f = (case m of (Inl e, s) \<Rightarrow> (Inl e, s) | (Inr a, s) \<Rightarrow> f a s)"

lemma and_then_simps [simp, outcome_simps]:
  "and_then (Inl e, s) f = (Inl e, s)"
  "and_then (Inr a, s) f = f a s"
  by (simp_all add: and_then_def)

lemma and_then_split:
  "P (and_then m f) \<longleftrightarrow>
     (\<forall>e s. m = (Inl e, s) \<longrightarrow> P (Inl e, s)) \<and> (\<forall>a s. m = (Inr a, s) \<longrightarrow> P (f a s))"
  by (cases m; cases "fst m") (auto simp: and_then_def)

lemma and_then_InrE:
  assumes "and_then m f = (Inr b, s')"
  obtains a s where "m = (Inr a, s)" and "f a s = (Inr b, s')"
  using assms by (cases m; cases "fst m") (auto simp: and_then_def)

text \<open>The state component alone.\<close>

lemma snd_and_then:
  assumes "\<And>a s. m = (Inr a, s) \<Longrightarrow> P (snd (f a s))" and "\<And>e s. m = (Inl e, s) \<Longrightarrow> P s"
  shows "P (snd (and_then m f))"
  using assms by (cases m; cases "fst m") (auto simp: and_then_def)

text \<open>
  Two postconditions of a call: \<open>I\<close> holds of the state it leaves, and \<open>E\<close> of the exception if
  it raises one. The rules apply backwards through a handler.
\<close>

definition yields :: "('s \<Rightarrow> bool) \<Rightarrow> ('e \<Rightarrow> bool) \<Rightarrow> ('e, 's, 'a) outcome \<Rightarrow> bool" where
  "yields I E m \<longleftrightarrow> I (snd m) \<and> (\<forall>e. fst m = Inl e \<longrightarrow> E e)"

lemma yields_simps [simp]:
  "yields I E (Inl e, s) \<longleftrightarrow> I s \<and> E e"
  "yields I E (Inr a, s) \<longleftrightarrow> I s"
  by (simp_all add: yields_def)

lemma yields_and_then:
  assumes "yields I E m" and "\<And>a s. I s \<Longrightarrow> yields I E (f a s)"
  shows "yields I E (and_then m f)"
  using assms by (cases m; cases "fst m") (auto simp: and_then_def)

lemma yieldsD: "yields I E m \<Longrightarrow> m = (res, s) \<Longrightarrow> I s \<and> (\<forall>e. res = Inl e \<longrightarrow> E e)"
  by (simp add: yields_def)

section \<open>Lists used as dictionaries\<close>

lemma map_of_filter_snd:
  "distinct (map fst xs) \<Longrightarrow>
     map_of (filter (\<lambda>(k, v). P v) xs) k =
       (case map_of xs k of None \<Rightarrow> None | Some v \<Rightarrow> if P v then Some v else None)"
proof (induction xs)
  case (Cons x xs)
  then show ?case
    by (cases x) (auto split: option.splits simp: map_of_eq_None_iff rev_image_eqI)
qed simp

lemma distinct_map_filter': "distinct (map fst xs) \<Longrightarrow> distinct (map fst (filter P xs))"
  by (rule distinct_map_filter)

lemma length_AList_update:
  "length (AList.update k v xs) = (if k \<in> fst ` set xs then length xs else Suc (length xs))"
  by (induction xs) auto

lemma length_AList_delete:
  "distinct (map fst xs) \<Longrightarrow> k \<in> fst ` set xs \<Longrightarrow> Suc (length (AList.delete k xs)) = length xs"
proof (induction xs)
  case (Cons x xs)
  then show ?case by (cases "fst x = k") (auto simp: delete_id)
qed simp

end
