(* ===== verification/Errors.thy ===== *)
theory Errors
  imports Auth_Prelude
begin

text \<open>
  The exceptions of \<open>app/core/errors.py\<close> and of the services, and the Python built-in
  exceptions the modelled code can let escape. An exception is a value of \<open>exn\<close>; the
  message is kept where a handler shows it to the client.
\<close>

text \<open>
  What PyJWT and its JWKS client raise, by the classes the except clauses name:
  \<open>PyJWKClientConnectionError\<close> is a subclass of \<open>PyJWKClientError\<close>, and \<open>JwtValueError\<close> is any
  \<open>ValueError\<close>, such as the \<open>JSONDecodeError\<close> of a JWKS body that is not JSON. No clause names
  \<open>PyJWKSetError\<close> (a JWKS without a usable key), nor any other class, kept by its name.
\<close>

datatype jwt_error =
    InvalidTokenError
  | PyJWKClientError
  | PyJWKClientConnectionError
  | JwtValueError
  | PyJWKSetError
  | JwtOtherError string

text \<open>\<open>JwtError\<close>: such an exception, not caught; \<open>LibraryError\<close>: another exception of httpx, by its class.\<close>

datatype exn =
    InvalidCredentialsError
  | AmbiguousIdentityError
  | RateLimitExceeded int
  | EmailOtpInvalidError
  | EmailOtpUnavailable string
  | PasswordResetOtpInvalidError
  | PasswordResetOtpAttemptsExceededError
  | PasswordResetTokenInvalidError string
  | PasswordResetSpringError string int
  | PasswordResetUnavailable string
  | KeycloakTokenBrokerUnavailable string
  | ServiceAuthenticationError string
  | DatabaseNotConfiguredError
  | HTTPException int string "(string \<times> string) list"
  | SmtpError
  | DatabaseError
  | RuntimeError string
  | ValidationError
  | TypeError
  | ValueError string
  | KeyError string
  | JwtError jwt_error
  | LibraryError string

text \<open>The constructor of \<open>RateLimitExceeded\<close> raises the hint to at least one second.\<close>

definition rate_limit_exceeded :: "int \<Rightarrow> exn" where
  "rate_limit_exceeded retry_after = RateLimitExceeded (max retry_after 1)"

definition fail_detail_default :: string where
  "fail_detail_default = ''Falha na comunica'' @ [CHR 0xE7, CHR 0xE3] @ ''o com o servi''
     @ [CHR 0xE7] @ ''o de atualiza'' @ [CHR 0xE7, CHR 0xE3] @ ''o de senha.''"

text \<open>\<open>PasswordResetSpringError(detail = ..., status_code = 502)\<close>, each argument optional.\<close>

definition password_reset_spring_error :: "string option \<Rightarrow> int option \<Rightarrow> exn" where
  "password_reset_spring_error detail status_code =
     PasswordResetSpringError
       (case detail of None \<Rightarrow> fail_detail_default | Some d \<Rightarrow> d)
       (case status_code of None \<Rightarrow> 502 | Some c \<Rightarrow> c)"

end
