(* ===== verification/Config.thy ===== *)
theory Config
  imports Errors
begin

text \<open>
  \<open>app/core/config.py\<close>: the settings, their defaults, the numeric constraints of the
  fields, the validator that runs after them, and the allowed web origins. A secret is its
  value, a number of seconds that may be fractional is a rational number, and reading the
  environment (pydantic-settings) is outside the model.
\<close>

record settings =
  app_name :: string
  app_version :: string
  environment :: string
  app_port :: int
  database_url :: "string option"
  database_min_pool_size :: int
  database_max_pool_size :: int
  database_command_timeout_seconds :: seconds
  redis_url :: "string option"
  auth_rate_limit_ip_burst :: int
  auth_rate_limit_ip_burst_window_seconds :: int
  auth_rate_limit_ip_per_minute :: int
  auth_rate_limit_ip_per_15_minutes :: int
  auth_rate_limit_email_per_15_minutes :: int
  keycloak_issuer_url :: string
  keycloak_internal_audience :: string
  keycloak_internal_client_id :: string
  keycloak_metrics_audience :: string
  metrics_keycloak_authorized_party :: string
  keycloak_password_broker_enabled :: bool
  keycloak_token_broker_client_id :: string
  keycloak_token_broker_client_secret :: "string option"
  keycloak_token_broker_scope :: string
  keycloak_token_broker_timeout_seconds :: seconds
  keycloak_token_broker_jwks_url :: "string option"
  ouros_web_allowed_origins :: string
  ouros_email_otp_enabled :: bool
  ouros_email_otp_hmac_secret :: "string option"
  ouros_email_otp_ttl_seconds :: int
  ouros_email_otp_max_attempts :: int
  ouros_smtp_host :: "string option"
  ouros_smtp_port :: int
  ouros_smtp_from :: string
  ouros_smtp_from_display_name :: string
  ouros_smtp_auth :: bool
  ouros_smtp_starttls :: bool
  ouros_smtp_ssl :: bool
  ouros_smtp_user :: "string option"
  ouros_smtp_password :: "string option"
  ouros_smtp_timeout_seconds :: seconds
  ms_spring_api_url :: string
  ms_spring_api_timeout_seconds :: seconds
  internal_service_secret :: "string option"
  internal_service_key :: "string option"
  spring_jwt_secret :: "string option"
  password_reset_jwt_secret :: "string option"
  password_reset_token_ttl_seconds :: int

definition default_settings :: settings where
  "default_settings = \<lparr>
     app_name = ''ouros-auth-service'',
     app_version = ''0.1.0'',
     environment = ''development'',
     app_port = 8000,
     database_url = None,
     database_min_pool_size = 1,
     database_max_pool_size = 10,
     database_command_timeout_seconds = 5,
     redis_url = None,
     auth_rate_limit_ip_burst = 3,
     auth_rate_limit_ip_burst_window_seconds = 10,
     auth_rate_limit_ip_per_minute = 5,
     auth_rate_limit_ip_per_15_minutes = 20,
     auth_rate_limit_email_per_15_minutes = 5,
     keycloak_issuer_url = ''https://ouros-keycloak.discloud.app/realms/ouros'',
     keycloak_internal_audience = ''ms-auth-service-internal'',
     keycloak_internal_client_id = ''keycloak-user-storage'',
     keycloak_metrics_audience = ''ms-auth-service'',
     metrics_keycloak_authorized_party = ''ouros-prometheus'',
     keycloak_password_broker_enabled = True,
     keycloak_token_broker_client_id = ''ms-auth-service-broker'',
     keycloak_token_broker_client_secret = None,
     keycloak_token_broker_scope = ''openid ouros-identity offline_access'',
     keycloak_token_broker_timeout_seconds = 5,
     keycloak_token_broker_jwks_url = None,
     ouros_web_allowed_origins = '''',
     ouros_email_otp_enabled = False,
     ouros_email_otp_hmac_secret = None,
     ouros_email_otp_ttl_seconds = 300,
     ouros_email_otp_max_attempts = 5,
     ouros_smtp_host = None,
     ouros_smtp_port = 587,
     ouros_smtp_from = ''no-reply@ouros.local'',
     ouros_smtp_from_display_name = ''Ouros'',
     ouros_smtp_auth = False,
     ouros_smtp_starttls = True,
     ouros_smtp_ssl = False,
     ouros_smtp_user = None,
     ouros_smtp_password = None,
     ouros_smtp_timeout_seconds = 10,
     ms_spring_api_url = ''https://ms-spring-api.discloud.app'',
     ms_spring_api_timeout_seconds = 10,
     internal_service_secret = None,
     internal_service_key = None,
     spring_jwt_secret = None,
     password_reset_jwt_secret = None,
     password_reset_token_ttl_seconds = 600\<rparr>"

text \<open>The \<open>ge\<close>, \<open>le\<close> and \<open>gt\<close> constraints of the fields.\<close>

definition field_constraints :: "settings \<Rightarrow> bool" where
  "field_constraints s \<longleftrightarrow>
     1 \<le> app_port s \<and> app_port s \<le> 65535 \<and>
     1 \<le> database_min_pool_size s \<and> 1 \<le> database_max_pool_size s \<and>
     0 < database_command_timeout_seconds s \<and>
     1 \<le> auth_rate_limit_ip_burst s \<and> 1 \<le> auth_rate_limit_ip_burst_window_seconds s \<and>
     1 \<le> auth_rate_limit_ip_per_minute s \<and> 1 \<le> auth_rate_limit_ip_per_15_minutes s \<and>
     1 \<le> auth_rate_limit_email_per_15_minutes s \<and>
     0 < keycloak_token_broker_timeout_seconds s \<and>
     60 \<le> ouros_email_otp_ttl_seconds s \<and> ouros_email_otp_ttl_seconds s \<le> 900 \<and>
     1 \<le> ouros_email_otp_max_attempts s \<and> ouros_email_otp_max_attempts s \<le> 10 \<and>
     1 \<le> ouros_smtp_port s \<and> ouros_smtp_port s \<le> 65535 \<and>
     0 < ouros_smtp_timeout_seconds s \<and> ouros_smtp_timeout_seconds s \<le> 30 \<and>
     0 < ms_spring_api_timeout_seconds s \<and>
     60 \<le> password_reset_token_ttl_seconds s \<and> password_reset_token_ttl_seconds s \<le> 3600"

text \<open>\<open>not value\<close> for an optional string: missing or empty.\<close>

fun str_falsy :: "string option \<Rightarrow> bool" where
  "str_falsy None = True"
| "str_falsy (Some s) = (s = [])"

definition validate_pool_sizes :: "settings \<Rightarrow> exn + settings" where
  "validate_pool_sizes s =
    (if database_max_pool_size s < database_min_pool_size s then
       Inl (ValueError ''DATABASE_MAX_POOL_SIZE must be >= DATABASE_MIN_POOL_SIZE'')
     else if py_strip (keycloak_metrics_audience s) = [] then
       Inl (ValueError ''KEYCLOAK_METRICS_AUDIENCE must not be blank'')
     else if py_strip (metrics_keycloak_authorized_party s) = [] then
       Inl (ValueError ''METRICS_KEYCLOAK_AUTHORIZED_PARTY must not be blank'')
     else if ouros_smtp_starttls s \<and> ouros_smtp_ssl s then
       Inl (ValueError ''OUROS_SMTP_STARTTLS and OUROS_SMTP_SSL cannot both be true'')
     else if ouros_email_otp_enabled s then
       (case ouros_email_otp_hmac_secret s of
          None \<Rightarrow> Inl (ValueError ''OUROS_EMAIL_OTP_HMAC_SECRET is required when email OTP is enabled'')
        | Some secret \<Rightarrow>
            if length secret < 32 then
              Inl (ValueError ''OUROS_EMAIL_OTP_HMAC_SECRET must contain at least 32 characters'')
            else if str_falsy (ouros_smtp_host s) then
              Inl (ValueError ''OUROS_SMTP_HOST is required when email OTP is enabled'')
            else if ouros_smtp_auth s \<and>
                (str_falsy (ouros_smtp_user s) \<or> ouros_smtp_password s = None) then
              Inl (ValueError ''OUROS_SMTP_USER and OUROS_SMTP_PASSWORD are required when SMTP auth is enabled'')
            else Inr s)
     else Inr s)"

text \<open>The settings object exists only when the constraints and the validator accept it.\<close>

definition valid_settings :: "settings \<Rightarrow> bool" where
  "valid_settings s \<longleftrightarrow> field_constraints s \<and> validate_pool_sizes s = Inr s"

definition is_development :: "settings \<Rightarrow> bool" where
  "is_development s \<longleftrightarrow> py_lower (environment s) \<in> {''development'', ''dev'', ''local''}"

definition web_allowed_origins :: "settings \<Rightarrow> string list" where
  "web_allowed_origins s =
    (let configured =
       map (\<lambda>origin. py_rstrip_char (CHR ''/'') (py_strip origin))
         (filter (\<lambda>origin. py_strip origin \<noteq> [])
            (py_split (CHR '','') (ouros_web_allowed_origins s)))
     in if configured \<noteq> [] then configured
        else if is_development s then [''http://localhost:5173'']
        else [])"

section \<open>Lemmas\<close>

lemma str_falsy_iff: "\<not> str_falsy v \<longleftrightarrow> (\<exists>s. v = Some s \<and> s \<noteq> [])"
  by (cases v) auto

lemma valid_settings_otp:
  assumes "valid_settings s" and "ouros_email_otp_enabled s"
  shows "\<exists>secret. ouros_email_otp_hmac_secret s = Some secret \<and> 32 \<le> length secret"
    and "\<not> str_falsy (ouros_smtp_host s)"
    and "ouros_smtp_auth s \<Longrightarrow> \<not> str_falsy (ouros_smtp_user s) \<and> ouros_smtp_password s \<noteq> None"
  using assms
  by (auto simp: valid_settings_def validate_pool_sizes_def split: if_splits option.splits)

lemma valid_settings_tls: "valid_settings s \<Longrightarrow> \<not> (ouros_smtp_starttls s \<and> ouros_smtp_ssl s)"
  by (auto simp: valid_settings_def validate_pool_sizes_def split: if_splits)

lemma valid_settings_bounds:
  assumes "valid_settings s"
  shows "60 \<le> ouros_email_otp_ttl_seconds s" "ouros_email_otp_ttl_seconds s \<le> 900"
    "1 \<le> ouros_email_otp_max_attempts s" "ouros_email_otp_max_attempts s \<le> 10"
    "60 \<le> password_reset_token_ttl_seconds s" "password_reset_token_ttl_seconds s \<le> 3600"
  using assms by (simp_all add: valid_settings_def field_constraints_def)

lemma web_origin_no_slash: "o' \<in> set (web_allowed_origins s) \<Longrightarrow> o' = [] \<or> last o' \<noteq> CHR ''/''"
  using drop_end_last [of "\<lambda>x. x = CHR ''/''"]
  by (auto simp: web_allowed_origins_def py_rstrip_char_def Let_def split: if_splits)

lemma default_settings_valid: "valid_settings default_settings"
  by (simp add: valid_settings_def field_constraints_def validate_pool_sizes_def
      default_settings_def py_strip_def drop_end_def is_space_def)

end
