(* ===== verification/Redis.thy ===== *)
theory Redis
  imports Auth_Prelude
begin

text \<open>
  The Redis server is not part of the repository: it is a parameter of the model, a record
  of the commands the code uses as functions on an unknown server state, together with the
  fate of the next round trip of the client. What a theorem needs to know about the commands
  is a named hypothesis of that theorem. The values a key can hold are a type parameter.
\<close>

text \<open>
  A round trip reaches the server and its reply comes back, or it fails before the server
  ran the command, or the command ran and the reply was lost (a timeout). The last two raise
  \<open>RedisError\<close> or \<open>OSError\<close> in the client, which cannot tell them apart.
\<close>

datatype net = Delivered | Refused | ReplyLost

record ('r, 'v) redis =
  r_net :: "'r \<Rightarrow> net \<times> 'r"
  r_get :: "string \<Rightarrow> 'r \<Rightarrow> 'v option"
  r_set_ex :: "string \<Rightarrow> 'v \<Rightarrow> int \<Rightarrow> 'r \<Rightarrow> 'r"
  r_set_keepttl :: "string \<Rightarrow> 'v \<Rightarrow> 'r \<Rightarrow> 'r"
  r_set_nx_ex :: "string \<Rightarrow> 'v \<Rightarrow> int \<Rightarrow> 'r \<Rightarrow> bool \<times> 'r"
  r_del :: "string \<Rightarrow> 'r \<Rightarrow> 'r"
  r_incr :: "string \<Rightarrow> 'r \<Rightarrow> int \<times> 'r"
  r_expire :: "string \<Rightarrow> int \<Rightarrow> 'r \<Rightarrow> 'r"
  r_ttl :: "string \<Rightarrow> 'r \<Rightarrow> int"

text \<open>
  One awaited client call running a command (or a whole script, which the server runs
  without interruption). \<open>None\<close> is the raised exception.
\<close>

definition redis_call :: "('r, 'v) redis \<Rightarrow> ('r \<Rightarrow> 'a \<times> 'r) \<Rightarrow> 'r \<Rightarrow> 'a option \<times> 'r" where
  "redis_call R cmd r =
    (case r_net R r of
       (Delivered, r1) \<Rightarrow> (case cmd r1 of (a, r2) \<Rightarrow> (Some a, r2))
     | (Refused, r1) \<Rightarrow> (None, r1)
     | (ReplyLost, r1) \<Rightarrow> (None, snd (cmd r1)))"

definition redis_ping :: "'r \<Rightarrow> unit \<times> 'r" where
  "redis_ping r = ((), r)"

text \<open>A server no round trip to which succeeds.\<close>

definition unreachable :: "('r, 'v) redis \<Rightarrow> bool" where
  "unreachable R \<longleftrightarrow> (\<forall>r. fst (r_net R r) \<noteq> Delivered)"

text \<open>A server to which every round trip succeeds.\<close>

definition reachable :: "('r, 'v) redis \<Rightarrow> bool" where
  "reachable R \<longleftrightarrow> (\<forall>r. r_net R r = (Delivered, r))"

lemma redis_call_unreachable: "unreachable R \<Longrightarrow> fst (redis_call R cmd r) = None"
  by (cases "r_net R r"; cases "fst (r_net R r)")
    (auto simp: unreachable_def redis_call_def split: prod.splits net.splits, metis fst_conv)

lemma redis_call_reachable [simp]:
  "reachable R \<Longrightarrow> redis_call R cmd r = (Some (fst (cmd r)), snd (cmd r))"
  by (simp add: reachable_def redis_call_def split: prod.splits)

section \<open>A server for the witnesses\<close>

text \<open>
  A server that always answers and never expires a key, on an association list. It shows
  that the hypotheses about \<open>R\<close> can hold; no definition of the program uses it.
\<close>

definition example_redis :: "((string \<times> 'v) list, 'v) redis" where
  "example_redis = \<lparr>
     r_net = (\<lambda>r. (Delivered, r)),
     r_get = (\<lambda>k r. map_of r k),
     r_set_ex = (\<lambda>k v _ r. AList.update k v r),
     r_set_keepttl = (\<lambda>k v r. AList.update k v r),
     r_set_nx_ex = (\<lambda>k v _ r. if k \<in> fst ` set r then (False, r) else (True, AList.update k v r)),
     r_del = (\<lambda>k r. AList.delete k r),
     r_incr = (\<lambda>_ r. (1, r)),
     r_expire = (\<lambda>_ _ r. r),
     r_ttl = (\<lambda>_ _. 60)\<rparr>"

lemma example_redis_reachable [simp]: "reachable example_redis"
  by (simp add: reachable_def example_redis_def)

lemma example_redis_simps [simp]:
  "r_get example_redis k r = map_of r k"
  "r_set_ex example_redis k v ttl r = AList.update k v r"
  "r_set_keepttl example_redis k v r = AList.update k v r"
  "r_set_nx_ex example_redis k v ttl r =
     (if k \<in> fst ` set r then (False, r) else (True, AList.update k v r))"
  "r_del example_redis k r = AList.delete k r"
  by (simp_all add: example_redis_def)

end
