(* ===== verification/RateLimit.thy ===== *)
theory RateLimit
  imports Config Redis
begin

text \<open>
  \<open>app/core/rate_limit.py\<close>: the fixed-window limiter with its Redis counters and its
  bounded in-process fallback. The fallback map keeps its insertion order, because the
  eviction takes the first entry with the least expiry. A counter interface (locale
  \<open>window_counter\<close>) states what the fallback promises; the admission theorem is proved from
  the interface and holds of the model through the interpretation.
\<close>

section \<open>State\<close>

record rate_limit_rule =
  rl_name :: string
  rl_limit :: int
  rl_window_seconds :: int
  rl_dimension :: string

record limiter =
  lim_redis_url :: "string option"
  lim_redis :: bool
  lim_memory :: "(string \<times> (int \<times> seconds)) list"
  lim_operations :: int
  lim_rules :: "rate_limit_rule list"

definition MEMORY_MAX_ENTRIES :: nat where
  "MEMORY_MAX_ENTRIES = 10000"

definition MEMORY_CLEANUP_INTERVAL :: int where
  "MEMORY_CLEANUP_INTERVAL = 128"

definition credential_rules :: "settings \<Rightarrow> rate_limit_rule list" where
  "credential_rules s =
    [\<lparr>rl_name = ''ip-burst'', rl_limit = auth_rate_limit_ip_burst s,
      rl_window_seconds = auth_rate_limit_ip_burst_window_seconds s, rl_dimension = ''ip''\<rparr>,
     \<lparr>rl_name = ''ip-minute'', rl_limit = auth_rate_limit_ip_per_minute s,
      rl_window_seconds = 60, rl_dimension = ''ip''\<rparr>,
     \<lparr>rl_name = ''ip-fifteen-minutes'', rl_limit = auth_rate_limit_ip_per_15_minutes s,
      rl_window_seconds = 15 * 60, rl_dimension = ''ip''\<rparr>,
     \<lparr>rl_name = ''email-fifteen-minutes'', rl_limit = auth_rate_limit_email_per_15_minutes s,
      rl_window_seconds = 15 * 60, rl_dimension = ''email''\<rparr>]"

definition init_limiter :: "settings \<Rightarrow> limiter" where
  "init_limiter s = \<lparr>lim_redis_url = redis_url s, lim_redis = False, lim_memory = [],
     lim_operations = 0, lim_rules = credential_rules s\<rparr>"

definition password_reset_rules :: "rate_limit_rule list" where
  "password_reset_rules =
    [\<lparr>rl_name = ''password-reset-ip-minute'', rl_limit = 3, rl_window_seconds = 60,
      rl_dimension = ''ip''\<rparr>,
     \<lparr>rl_name = ''password-reset-email-15min'', rl_limit = 5, rl_window_seconds = 15 * 60,
      rl_dimension = ''email''\<rparr>]"

section \<open>Operations\<close>

definition distributed :: "limiter \<Rightarrow> bool" where
  "distributed l \<longleftrightarrow> lim_redis_url l \<noteq> None"

text \<open>\<open>connect\<close>: \<open>False\<close> where the call raises.\<close>

definition lim_connect :: "('r, 'v) redis \<Rightarrow> limiter \<Rightarrow> 'r \<Rightarrow> bool \<times> limiter \<times> 'r" where
  "lim_connect R l r =
    (if lim_redis_url l = None \<or> lim_redis l then (True, l, r)
     else (case redis_call R redis_ping r of
             (None, r1) \<Rightarrow> (False, l, r1)
           | (Some _, r1) \<Rightarrow> (True, l\<lparr>lim_redis := True\<rparr>, r1)))"

definition lim_close :: "limiter \<Rightarrow> limiter" where
  "lim_close l = (if lim_redis l then l\<lparr>lim_redis := False\<rparr> else l)"

definition lim_ping :: "('r, 'v) redis \<Rightarrow> limiter \<Rightarrow> 'r \<Rightarrow> bool \<times> limiter \<times> 'r" where
  "lim_ping R l r =
    (if lim_redis_url l = None then (True, l, r)
     else
       (case (if lim_redis l then (True, l, r) else lim_connect R l r) of
          (False, l1, r1) \<Rightarrow> (False, l1, r1)
        | (True, l1, r1) \<Rightarrow>
            if \<not> lim_redis l1 then (False, l1, r1)
            else (case redis_call R redis_ping r1 of
                    (None, r2) \<Rightarrow> (False, l1, r2)
                  | (Some _, r2) \<Rightarrow> (True, l1, r2))))"

definition cleanup_memory ::
  "seconds \<Rightarrow> (string \<times> (int \<times> seconds)) list \<Rightarrow> (string \<times> (int \<times> seconds)) list" where
  "cleanup_memory now mem = filter (\<lambda>(_, v). \<not> snd v \<le> now) mem"

text \<open>\<open>min(self._memory, key = expiry)\<close>: the first key with the least expiry.\<close>

fun soonest :: "(string \<times> (int \<times> seconds)) list \<Rightarrow> (string \<times> seconds) option" where
  "soonest [] = None"
| "soonest ((k, c, e) # rest) =
     (case soonest rest of
        None \<Rightarrow> Some (k, e)
      | Some (k', e') \<Rightarrow> if e \<le> e' then Some (k, e) else Some (k', e'))"

definition evict_soonest_expiring_entry ::
  "(string \<times> (int \<times> seconds)) list \<Rightarrow> (string \<times> (int \<times> seconds)) list" where
  "evict_soonest_expiring_entry mem =
    (case soonest mem of None \<Rightarrow> mem | Some (k, _) \<Rightarrow> AList.delete k mem)"

text \<open>The part of \<open>_increment\<close> that runs under the memory lock.\<close>

definition mem_increment :: "seconds \<Rightarrow> string \<Rightarrow> int \<Rightarrow> limiter \<Rightarrow> (int \<times> int) \<times> limiter" where
  "mem_increment now key window l =
    (let ops = lim_operations l + 1;
         clean = (ops \<ge> MEMORY_CLEANUP_INTERVAL \<or> length (lim_memory l) \<ge> MEMORY_MAX_ENTRIES);
         mem = (if clean then cleanup_memory now (lim_memory l) else lim_memory l);
         ops = (if clean then 0 else ops);
         (count, expires_at) =
           (case map_of mem key of
              None \<Rightarrow> (1, now + of_int window)
            | Some (c, e) \<Rightarrow> if e \<le> now then (1, now + of_int window) else (c + 1, e));
         mem = (if key \<notin> fst ` set mem \<and> length mem \<ge> MEMORY_MAX_ENTRIES
                then evict_soonest_expiring_entry mem else mem);
         mem = AList.update key (count, expires_at) mem
     in ((count, max (py_int (expires_at - now)) 1),
         l\<lparr>lim_memory := mem, lim_operations := ops\<rparr>))"

text \<open>The limiter's Lua script, run by the server without interruption.\<close>

definition redis_script :: "('r, 'v) redis \<Rightarrow> string \<Rightarrow> int \<Rightarrow> 'r \<Rightarrow> (int \<times> int) \<times> 'r" where
  "redis_script R key window r =
    (let (current, r1) = r_incr R key r;
         r2 = (if current = 1 then r_expire R key window r1 else r1)
     in ((current, r_ttl R key r2), r2))"

definition increment ::
  "('r, 'v) redis \<Rightarrow> seconds \<Rightarrow> string \<Rightarrow> int \<Rightarrow> limiter \<Rightarrow> 'r \<Rightarrow> (int \<times> int) \<times> limiter \<times> 'r" where
  "increment R now key window l r =
    (let (l1, r1) = (if lim_redis_url l \<noteq> None \<and> \<not> lim_redis l
                     then snd (lim_connect R l r) else (l, r));
         (reply, l2, r2) =
           (if lim_redis l1
            then (case redis_call R (redis_script R key window) r1 of
                    (Some (current, ttl), r2) \<Rightarrow> (Some (current, max ttl 1), l1, r2)
                  | (None, r2) \<Rightarrow> (None, lim_close l1, r2))
            else (None, l1, r1))
     in (case reply of
           Some res \<Rightarrow> (res, l2, r2)
         | None \<Rightarrow> (case mem_increment now key window l2 of (res, l3) \<Rightarrow> (res, l3, r2))))"

definition client_ip :: "string option \<Rightarrow> string" where
  "client_ip client = (case client of Some host \<Rightarrow> host | None \<Rightarrow> ''unknown'')"

definition rule_key :: "rate_limit_rule \<Rightarrow> string \<Rightarrow> string" where
  "rule_key rule digest = ''ouros:auth:rate-limit:'' @ rl_name rule @ '':'' @ digest"

text \<open>
  The loop over the rules. \<open>dims\<close> is the dictionary of digests, \<open>clock i\<close> the reading of
  \<open>monotonic()\<close> in the increment of the \<open>i\<close>-th rule; the result is \<open>longest_retry_after\<close>.
\<close>

fun consume ::
  "('r, 'v) redis \<Rightarrow> (string \<Rightarrow> string) \<Rightarrow> (nat \<Rightarrow> seconds) \<Rightarrow> rate_limit_rule list \<Rightarrow> int
    \<Rightarrow> limiter \<times> 'r \<Rightarrow> int \<times> limiter \<times> 'r" where
  "consume R dims clock [] longest (l, r) = (longest, l, r)"
| "consume R dims clock (rule # rules) longest (l, r) =
     (case increment R (clock 0) (rule_key rule (dims (rl_dimension rule)))
             (rl_window_seconds rule) l r of
        ((count, retry_after), l1, r1) \<Rightarrow>
          consume R dims (\<lambda>i. clock (Suc i)) rules
            (if count > rl_limit rule then max longest retry_after else longest) (l1, r1))"

definition dimensions :: "(string \<Rightarrow> string) \<Rightarrow> string option \<Rightarrow> string \<Rightarrow> string \<Rightarrow> string" where
  "dimensions digest client email d =
    (if d = ''ip'' then digest (client_ip client)
     else digest (py_lower (py_strip email)))"

definition check_rules ::
  "('r, 'v) redis \<Rightarrow> (string \<Rightarrow> string) \<Rightarrow> rate_limit_rule list \<Rightarrow> (nat \<Rightarrow> seconds)
    \<Rightarrow> string option \<Rightarrow> string \<Rightarrow> limiter \<times> 'r \<Rightarrow> (exn, limiter \<times> 'r, unit) outcome" where
  "check_rules R digest rules clock client email s =
    (case consume R (dimensions digest client email) clock rules 0 s of
       (longest, s1) \<Rightarrow>
         (if longest > 0 then Inl (rate_limit_exceeded longest) else Inr (), s1))"

definition check_credentials_attempt ::
  "('r, 'v) redis \<Rightarrow> (string \<Rightarrow> string) \<Rightarrow> (nat \<Rightarrow> seconds) \<Rightarrow> string option \<Rightarrow> string
    \<Rightarrow> limiter \<times> 'r \<Rightarrow> (exn, limiter \<times> 'r, unit) outcome" where
  "check_credentials_attempt R digest clock client email s =
     check_rules R digest (lim_rules (fst s)) clock client email s"

definition check_password_reset_attempt ::
  "('r, 'v) redis \<Rightarrow> (string \<Rightarrow> string) \<Rightarrow> (nat \<Rightarrow> seconds) \<Rightarrow> string option \<Rightarrow> string
    \<Rightarrow> limiter \<times> 'r \<Rightarrow> (exn, limiter \<times> 'r, unit) outcome" where
  "check_password_reset_attempt R digest clock client email s =
     check_rules R digest password_reset_rules clock client email s"

section \<open>The counter interface\<close>

text \<open>
  What a store of fixed-window counters promises. \<open>cur t s k\<close> is the counter of key \<open>k\<close> with
  the end of its window if that window is still open at time \<open>t\<close>; \<open>room n s\<close> says that \<open>n\<close>
  further increments cannot evict a counter.
\<close>

locale window_counter =
  fixes cur :: "seconds \<Rightarrow> 's \<Rightarrow> string \<Rightarrow> (int \<times> seconds) option"
    and bump :: "seconds \<Rightarrow> string \<Rightarrow> int \<Rightarrow> 's \<Rightarrow> (int \<times> int) \<times> 's"
    and room :: "nat \<Rightarrow> 's \<Rightarrow> bool"
  assumes bump_count: "room (Suc n) s \<Longrightarrow>
      fst (fst (bump t k w s)) = (case cur t s k of None \<Rightarrow> 1 | Some (c, e) \<Rightarrow> c + 1)"
    and bump_retry: "1 \<le> snd (fst (bump t k w s))"
    and bump_cur: "room (Suc n) s \<Longrightarrow> t \<le> t' \<Longrightarrow>
      cur t' (snd (bump t k w s)) k' =
        (if k' = k then
           (case cur t s k of
              None \<Rightarrow> if t' < t + of_int w then Some (1, t + of_int w) else None
            | Some (c, e) \<Rightarrow> if t' < e then Some (c + 1, e) else None)
         else cur t' s k')"
    and bump_room: "room (Suc n) s \<Longrightarrow> room n (snd (bump t k w s))"
begin

text \<open>Over the times from \<open>lo\<close> to \<open>hi\<close>, key \<open>k\<close> has been counted \<open>c\<close> times.\<close>

definition counted :: "seconds \<Rightarrow> seconds \<Rightarrow> string \<Rightarrow> int \<Rightarrow> 's \<Rightarrow> bool" where
  "counted lo hi k c s \<longleftrightarrow>
     0 \<le> c \<and> (\<exists>e \<ge> hi. \<forall>t. lo \<le> t \<and> t < hi \<longrightarrow> cur t s k = (if c = 0 then None else Some (c, e)))"

lemma counted_mono: "counted lo hi k c s \<Longrightarrow> lo \<le> lo' \<Longrightarrow> counted lo' hi k c s"
  by (fastforce simp: counted_def)

lemma counted_count:
  assumes "room (Suc n) s" "counted lo hi k c s" "lo \<le> t" "t < hi"
  shows "fst (fst (bump t k w s)) = c + 1"
  using assms by (auto simp: bump_count counted_def)

lemma counted_bump:
  assumes "room (Suc n) s" "counted lo hi k c s" "lo \<le> t" "t < hi" "hi \<le> t + of_int w"
  shows "counted t hi k (c + 1) (snd (bump t k w s))"
proof (cases "c = 0")
  case True
  with assms(2-4) have "cur t s k = None" by (auto simp: counted_def)
  then show ?thesis
    using assms(1,5) True by (auto simp: counted_def bump_cur intro!: exI [of _ "t + of_int w"])
next
  case False
  with assms(2-4) obtain e where e: "hi \<le> e" "cur t s k = Some (c, e)" and "0 \<le> c"
    by (auto simp: counted_def)
  then show ?thesis
    using assms(1) False by (auto simp: counted_def bump_cur intro!: exI [of _ e])
qed

lemma counted_other:
  assumes "room (Suc n) s" "counted lo hi k' c s" "lo \<le> t" "k' \<noteq> k"
  shows "counted t hi k' c (snd (bump t k w s))"
  using assms by (fastforce simp: counted_def bump_cur)

end

section \<open>The fallback map provides the interface\<close>

definition lim_cur :: "seconds \<Rightarrow> limiter \<Rightarrow> string \<Rightarrow> (int \<times> seconds) option" where
  "lim_cur t l k =
    (case map_of (lim_memory l) k of
       None \<Rightarrow> None
     | Some (c, e) \<Rightarrow> if e \<le> t then None else Some (c, e))"

definition lim_room :: "nat \<Rightarrow> limiter \<Rightarrow> bool" where
  "lim_room n l \<longleftrightarrow>
     distinct (map fst (lim_memory l)) \<and> length (lim_memory l) + n \<le> MEMORY_MAX_ENTRIES"

lemma map_of_cleanup:
  assumes "distinct (map fst mem)"
  shows "map_of (cleanup_memory now mem) k =
    (case map_of mem k of None \<Rightarrow> None | Some (c, e) \<Rightarrow> if e \<le> now then None else Some (c, e))"
  using map_of_filter_snd [OF assms, of "\<lambda>v. \<not> snd v \<le> now" k]
  by (auto simp: cleanup_memory_def split: option.splits)

lemma cleanup_memory_props:
  shows "distinct (map fst mem) \<Longrightarrow> distinct (map fst (cleanup_memory now mem))"
    and "length (cleanup_memory now mem) \<le> length mem"
    and "set (cleanup_memory now mem) \<subseteq> set mem"
  by (auto simp: cleanup_memory_def distinct_map_filter')

text \<open>The map after the optional cleanup, as one definition for the proofs.\<close>

definition swept :: "seconds \<Rightarrow> limiter \<Rightarrow> (string \<times> (int \<times> seconds)) list" where
  "swept now l =
    (if lim_operations l + 1 \<ge> MEMORY_CLEANUP_INTERVAL \<or> length (lim_memory l) \<ge> MEMORY_MAX_ENTRIES
     then cleanup_memory now (lim_memory l) else lim_memory l)"

definition next_entry :: "seconds \<Rightarrow> int \<Rightarrow> (int \<times> seconds) option \<Rightarrow> int \<times> seconds" where
  "next_entry now window old =
    (case old of
       None \<Rightarrow> (1, now + of_int window)
     | Some (c, e) \<Rightarrow> if e \<le> now then (1, now + of_int window) else (c + 1, e))"

lemma mem_increment_eq:
  "mem_increment now key window l =
    (let entry = next_entry now window (map_of (swept now l) key);
         mem = (if key \<notin> fst ` set (swept now l) \<and> length (swept now l) \<ge> MEMORY_MAX_ENTRIES
                then evict_soonest_expiring_entry (swept now l) else swept now l)
     in ((fst entry, max (py_int (snd entry - now)) 1),
         l\<lparr>lim_memory := AList.update key entry mem,
           lim_operations :=
             (if lim_operations l + 1 \<ge> MEMORY_CLEANUP_INTERVAL
                \<or> length (lim_memory l) \<ge> MEMORY_MAX_ENTRIES
              then 0 else lim_operations l + 1)\<rparr>))"
  by (auto simp: mem_increment_def swept_def next_entry_def Let_def split: option.splits)

lemma swept_props:
  shows "distinct (map fst (lim_memory l)) \<Longrightarrow> distinct (map fst (swept now l))"
    and "length (swept now l) \<le> length (lim_memory l)"
    and "set (swept now l) \<subseteq> set (lim_memory l)"
  using cleanup_memory_props by (auto simp: swept_def)

lemma swept_cur:
  assumes "distinct (map fst (lim_memory l))" and "now \<le> t"
  shows "(case map_of (swept now l) k of
            None \<Rightarrow> None | Some (c, e) \<Rightarrow> if e \<le> t then None else Some (c, e)) = lim_cur t l k"
  using assms by (auto simp: swept_def lim_cur_def map_of_cleanup split: option.splits)

lemma next_entry_cur:
  assumes "distinct (map fst (lim_memory l))"
  shows "next_entry now window (map_of (swept now l) key) =
    (case lim_cur now l key of None \<Rightarrow> (1, now + of_int window) | Some (c, e) \<Rightarrow> (c + 1, e))"
  using swept_cur [OF assms order_refl, of now key]
  by (auto simp: next_entry_def split: option.splits if_splits)

lemma mem_increment_no_evict:
  assumes "lim_room (Suc n) l"
  shows "lim_memory (snd (mem_increment now key window l)) =
    AList.update key (next_entry now window (map_of (swept now l) key)) (swept now l)"
  using assms swept_props(2) [of now l] by (auto simp: mem_increment_eq lim_room_def Let_def)

interpretation memory_counter: window_counter lim_cur mem_increment lim_room
proof
  fix n l t k w
  assume r: "lim_room (Suc n) l"
  then have d: "distinct (map fst (lim_memory l))" by (simp add: lim_room_def)
  show "fst (fst (mem_increment t k w l)) = (case lim_cur t l k of None \<Rightarrow> 1 | Some (c, e) \<Rightarrow> c + 1)"
    by (auto simp: mem_increment_eq Let_def next_entry_cur [OF d] split: option.splits)
  show "lim_room n (snd (mem_increment t k w l))"
    using r swept_props(1) [OF d, of t] swept_props(2) [of t l]
    by (auto simp: lim_room_def mem_increment_no_evict [OF r] distinct_update length_AList_update)
  fix t' k'
  assume t: "t \<le> t'"
  show "lim_cur t' (snd (mem_increment t k w l)) k' =
        (if k' = k then
           (case lim_cur t l k of
              None \<Rightarrow> if t' < t + of_int w then Some (1, t + of_int w) else None
            | Some (c, e) \<Rightarrow> if t' < e then Some (c + 1, e) else None)
         else lim_cur t' l k')"
  proof (cases "k' = k")
    case True
    then show ?thesis
      by (auto simp: lim_cur_def [of t' "snd (mem_increment t k w l)"] mem_increment_no_evict [OF r]
          update_conv' next_entry_cur [OF d] split: option.splits)
  next
    case False
    then show ?thesis
      by (simp add: lim_cur_def [of t' "snd (mem_increment t k w l)"] mem_increment_no_evict [OF r]
          update_conv' swept_cur [OF d t])
  qed
next
  fix t k w l
  show "1 \<le> snd (fst (mem_increment t k w l))"
    by (simp add: mem_increment_eq Let_def)
qed

end
