(* ===== verification/RateLimitProps.thy ===== *)
theory RateLimitProps
  imports RateLimit
begin

text \<open>
  Properties of the limiter: the fallback map stays bounded and well formed in every
  reachable state, eviction removes an entry that expires first, consecutive attempts in one
  window are admitted exactly up to the least limit, a Redis outage means counting in
  memory, and what a rejected attempt reports.
\<close>

section \<open>The bound of the fallback map\<close>

definition limiter_ok :: "limiter \<Rightarrow> bool" where
  "limiter_ok l \<longleftrightarrow>
     distinct (map fst (lim_memory l)) \<and> length (lim_memory l) \<le> MEMORY_MAX_ENTRIES \<and>
     (\<forall>(_, c, _) \<in> set (lim_memory l). 1 \<le> c) \<and>
     0 \<le> lim_operations l \<and> lim_operations l < MEMORY_CLEANUP_INTERVAL"

lemma soonest_in:
  "soonest mem = Some (k, e) \<Longrightarrow> \<exists>c. (k, c, e) \<in> set mem"
  by (induction mem arbitrary: k e rule: soonest.induct) (force split: option.splits if_splits)+

lemma soonest_None [simp]: "soonest mem = None \<longleftrightarrow> mem = []"
  by (induction mem rule: soonest.induct) (auto split: option.splits)

lemma soonest_least:
  "soonest mem = Some (k, e) \<Longrightarrow> (k', c', e') \<in> set mem \<Longrightarrow> e \<le> e'"
proof (induction mem arbitrary: k e rule: soonest.induct)
  case (2 k0 c0 e0 rest)
  then show ?case
    by (cases "soonest rest") (auto split: if_splits intro: order_trans)
qed simp

lemma evict_props:
  assumes "distinct (map fst mem)" and "mem \<noteq> []"
  shows "Suc (length (evict_soonest_expiring_entry mem)) = length mem"
    and "distinct (map fst (evict_soonest_expiring_entry mem))"
    and "set (evict_soonest_expiring_entry mem) \<subseteq> set mem"
proof -
  from assms(2) obtain k e where s: "soonest mem = Some (k, e)"
    by (cases "soonest mem") auto
  then have k: "k \<in> fst ` set mem" by (force dest: soonest_in)
  show "Suc (length (evict_soonest_expiring_entry mem)) = length mem"
    using length_AList_delete [OF assms(1) k] by (simp add: evict_soonest_expiring_entry_def s)
  show "distinct (map fst (evict_soonest_expiring_entry mem))"
    using assms(1) by (simp add: evict_soonest_expiring_entry_def s distinct_delete)
  show "set (evict_soonest_expiring_entry mem) \<subseteq> set mem"
    by (auto simp: evict_soonest_expiring_entry_def s AList.delete_eq)
qed

lemma next_entry_pos:
  "(\<forall>(_, c, _) \<in> set mem. 1 \<le> c) \<Longrightarrow> 1 \<le> fst (next_entry now w (map_of mem k))"
  by (force simp: next_entry_def split: option.splits dest: map_of_SomeD)

lemma set_AList_update_subset: "set (AList.update k v xs) \<subseteq> insert (k, v) (set xs)"
  by (induction xs) auto

lemma mem_increment_ok:
  assumes "limiter_ok l"
  shows "limiter_ok (snd (mem_increment now key w l))"
proof -
  let ?s = "swept now l"
  let ?m = "if key \<notin> fst ` set ?s \<and> length ?s \<ge> MEMORY_MAX_ENTRIES
            then evict_soonest_expiring_entry ?s else ?s"
  let ?e = "next_entry now w (map_of ?s key)"
  from assms have s: "distinct (map fst ?s)" "length ?s \<le> MEMORY_MAX_ENTRIES"
      "\<forall>(_, c, _) \<in> set ?s. 1 \<le> c"
    using swept_props [where l = l and now = now] by (auto simp: limiter_ok_def)
  have ne: "length ?s \<ge> MEMORY_MAX_ENTRIES \<Longrightarrow> ?s \<noteq> []" by (auto simp: MEMORY_MAX_ENTRIES_def)
  have m: "distinct (map fst ?m)" "set ?m \<subseteq> set ?s"
    using s(1) evict_props [OF s(1) ne] by auto
  have len: "length (AList.update key ?e ?m) \<le> MEMORY_MAX_ENTRIES"
    using s(2) evict_props(1) [OF s(1) ne] by (auto simp: length_AList_update)
  have "\<forall>(_, c, _) \<in> set (AList.update key ?e ?m). 1 \<le> c"
    using set_AList_update_subset [of key ?e ?m] m(2) s(3) next_entry_pos [OF s(3), of now w key]
    by (cases ?e) fastforce
  with m len assms show ?thesis
    by (simp add: limiter_ok_def mem_increment_eq Let_def distinct_update MEMORY_CLEANUP_INTERVAL_def)
qed

lemma limiter_ok_redis [simp]: "limiter_ok (l\<lparr>lim_redis := b\<rparr>) = limiter_ok l"
  by (simp add: limiter_ok_def)

lemma lim_connect_ok: "limiter_ok l \<Longrightarrow> limiter_ok (fst (snd (lim_connect R l r)))"
  by (auto simp: lim_connect_def split: prod.splits option.splits)

lemma lim_close_ok: "limiter_ok (lim_close l) = limiter_ok l"
  by (simp add: lim_close_def)

lemma lim_ping_ok: "limiter_ok l \<Longrightarrow> limiter_ok (fst (snd (lim_ping R l r)))"
  using lim_connect_ok [of l R r]
  by (auto simp: lim_ping_def split: prod.splits option.splits bool.splits if_splits)

text \<open>Every branch of \<open>increment\<close> ends in a limiter related to the given one.\<close>

lemma increment_cases:
  obtains (memory) l1 where "limiter_ok l \<longrightarrow> limiter_ok l1" "lim_rules l1 = lim_rules l"
      "fst (snd (increment R now key w l r)) = snd (mem_increment now key w l1)"
      "fst (increment R now key w l r) = fst (mem_increment now key w l1)"
  | (redis) "limiter_ok l \<longrightarrow> limiter_ok (fst (snd (increment R now key w l r)))"
      "lim_rules (fst (snd (increment R now key w l r))) = lim_rules l"
      "1 \<le> snd (fst (increment R now key w l r))"
proof -
  obtain b l1 r1 where c: "(if lim_redis_url l \<noteq> None \<and> \<not> lim_redis l
      then snd (lim_connect R l r) else (l, r)) = (l1, r1)" by (meson surj_pair)
  have l1: "limiter_ok l \<longrightarrow> limiter_ok l1" "lim_rules l1 = lim_rules l"
    using c lim_connect_ok [of l R r]
    by (auto simp: lim_connect_def split: if_splits prod.splits option.splits)
  show thesis
  proof (cases "lim_redis l1")
    case False
    with c l1 show thesis
      by (intro memory [of l1]) (auto simp: increment_def Let_def split: prod.splits)
  next
    case True
    obtain a r2 where a: "redis_call R (redis_script R key w) r1 = (a, r2)" by (meson surj_pair)
    show thesis
    proof (cases a)
      case None
      with True c l1 a show thesis
        by (intro memory [of "lim_close l1"])
          (auto simp: increment_def Let_def lim_close_ok lim_close_def split: prod.splits)
    next
      case (Some p)
      with True c l1 a show thesis
        by (intro redis) (cases p, auto simp: increment_def Let_def)+
    qed
  qed
qed

lemma increment_ok: "limiter_ok l \<Longrightarrow> limiter_ok (fst (snd (increment R now key w l r)))"
  by (cases rule: increment_cases [of l R now key w r]) (auto simp: mem_increment_ok)

lemma increment_retry: "1 \<le> snd (fst (increment R now key w l r))"
  by (cases rule: increment_cases [of l R now key w r]) (auto simp: memory_counter.bump_retry)

lemma increment_rules: "lim_rules (fst (snd (increment R now key w l r))) = lim_rules l"
  by (cases rule: increment_cases [of l R now key w r]) (auto simp: mem_increment_eq Let_def)

lemma consume_ok:
  "limiter_ok l \<Longrightarrow> limiter_ok (fst (snd (consume R dims clock rules longest (l, r))))"
proof (induction rules arbitrary: l r clock longest)
  case (Cons rule rules)
  obtain count retry l1 r1 where i: "increment R (clock 0) (rule_key rule (dims (rl_dimension rule)))
      (rl_window_seconds rule) l r = ((count, retry), l1, r1)"
    by (metis prod.collapse)
  have "limiter_ok l1"
    using increment_ok [OF Cons.prems, of R "clock 0"] i by (metis fst_conv snd_conv)
  with i show ?case by (simp add: Cons.IH)
qed simp

inductive limiter_step ::
  "('r, 'v) redis \<Rightarrow> (string \<Rightarrow> string) \<Rightarrow> limiter \<times> 'r \<Rightarrow> limiter \<times> 'r \<Rightarrow> bool"
  for R :: "('r, 'v) redis" and digest :: "string \<Rightarrow> string" where
  credentials: "limiter_step R digest s (snd (check_credentials_attempt R digest clock client em s))"
| reset: "limiter_step R digest s (snd (check_password_reset_attempt R digest clock client em s))"
| ping: "limiter_step R digest (l, r) (snd (lim_ping R l r))"
| closing: "limiter_step R digest (l, r) (lim_close l, r)"
| server: "limiter_step R digest (l, r) (l, r')"

inductive limiter_reachable ::
  "('r, 'v) redis \<Rightarrow> (string \<Rightarrow> string) \<Rightarrow> settings \<Rightarrow> limiter \<times> 'r \<Rightarrow> bool"
  for R :: "('r, 'v) redis" and digest :: "string \<Rightarrow> string" and cfg :: settings where
  start: "limiter_reachable R digest cfg (init_limiter cfg, r)"
| step: "limiter_reachable R digest cfg s \<Longrightarrow> limiter_step R digest s s'
    \<Longrightarrow> limiter_reachable R digest cfg s'"

lemma snd_check_rules:
  "snd (check_rules R digest rules clock client em (l, r)) =
     snd (consume R (dimensions digest client em) clock rules 0 (l, r))"
  by (simp add: check_rules_def split: prod.splits)

lemma limiter_step_ok: "limiter_step R digest s s' \<Longrightarrow> limiter_ok (fst s) \<Longrightarrow> limiter_ok (fst s')"
proof (induction rule: limiter_step.induct)
  case (credentials s clock client em)
  then show ?case
    by (cases s) (simp add: check_credentials_attempt_def snd_check_rules consume_ok)
next
  case (reset s clock client em)
  then show ?case
    by (cases s) (simp add: check_password_reset_attempt_def snd_check_rules consume_ok)
qed (auto simp: lim_ping_ok lim_close_ok)

text \<open>Whatever Redis does and whatever attempts arrive, the in-process counter map never
  holds more than \<open>_MEMORY_MAX_ENTRIES\<close> entries, holds no key twice and only positive counts,
  and the operation counter stays below the cleanup interval.\<close>

lemma limiter_memory_bounded:
  assumes "limiter_reachable R digest cfg s"
  shows "length (lim_memory (fst s)) \<le> 10000 \<and> distinct (map fst (lim_memory (fst s))) \<and>
    (\<forall>(_, c, _) \<in> set (lim_memory (fst s)). 1 \<le> c) \<and> lim_operations (fst s) < 128"
proof -
  from assms have "limiter_ok (fst s)"
  proof (induction rule: limiter_reachable.induct)
    case (start r)
    show ?case
      by (simp add: limiter_ok_def init_limiter_def MEMORY_CLEANUP_INTERVAL_def)
  qed (rule limiter_step_ok)
  then show ?thesis
    by (simp add: limiter_ok_def MEMORY_MAX_ENTRIES_def MEMORY_CLEANUP_INTERVAL_def)
qed

section \<open>Admission in one window\<close>

text \<open>Without a Redis URL every increment counts in memory.\<close>

definition memory_only :: "limiter \<Rightarrow> bool" where
  "memory_only l \<longleftrightarrow> lim_redis_url l = None \<and> \<not> lim_redis l"

lemma increment_memory_only:
  "memory_only l \<Longrightarrow> increment R now key w l r =
     (fst (mem_increment now key w l), snd (mem_increment now key w l), r)"
  by (simp add: memory_only_def increment_def split: prod.splits)

lemma memory_only_increment [simp]:
  "memory_only (snd (mem_increment now key w l)) = memory_only l"
  by (simp add: memory_only_def mem_increment_eq Let_def)

lemmas counting = memory_counter.counted_count memory_counter.counted_bump
  memory_counter.counted_other memory_counter.bump_room memory_counter.bump_retry

abbreviation rule_keys :: "(string \<Rightarrow> string) \<Rightarrow> rate_limit_rule list \<Rightarrow> string list" where
  "rule_keys dims rules \<equiv> map (\<lambda>rule. rule_key rule (dims (rl_dimension rule))) rules"

lemma consume_counted:
  assumes "memory_only l" "lim_room (length rules + n) l" "distinct (rule_keys dims rules)"
    and "mono clock" "lo \<le> clock 0" "\<forall>i. clock i < hi"
    and "\<forall>rule \<in> set rules. hi \<le> clock 0 + of_int (rl_window_seconds rule)"
    and "\<forall>k \<in> set (rule_keys dims rules). memory_counter.counted lo hi k c l"
    and "consume R dims clock rules longest (l, r) = (longest', l', r')"
  shows "memory_only l' \<and> lim_room n l' \<and>
    (\<forall>k \<in> set (rule_keys dims rules). memory_counter.counted (clock (length rules)) hi k (c + 1) l') \<and>
    (\<forall>k c'. k \<notin> set (rule_keys dims rules) \<longrightarrow> memory_counter.counted lo hi k c' l \<longrightarrow>
       memory_counter.counted (clock (length rules)) hi k c' l') \<and>
    (0 < longest' \<longleftrightarrow> 0 < longest \<or> (\<exists>rule \<in> set rules. rl_limit rule \<le> c))"
  using assms
proof (induction rules arbitrary: clock lo l longest r)
  case Nil
  then show ?case by (auto intro: memory_counter.counted_mono)
next
  case (Cons rule rules)
  let ?k = "rule_key rule (dims (rl_dimension rule))"
  let ?b = "mem_increment (clock 0) ?k (rl_window_seconds rule) l"
  let ?clock = "\<lambda>i. clock (Suc i)"
  let ?longest = "if c + 1 > rl_limit rule then max longest (snd (fst ?b)) else longest"
  have room: "lim_room (Suc (length rules + n)) l" using Cons.prems(2) by simp
  have k: "memory_counter.counted lo hi ?k c l" using Cons.prems(8) by simp
  have count: "fst (fst ?b) = c + 1"
    using counting(1) [OF room k Cons.prems(5)] Cons.prems(6) by simp
  have new: "memory_counter.counted (clock 0) hi ?k (c + 1) (snd ?b)"
    using counting(2) [OF room k Cons.prems(5)] Cons.prems(6,7) by simp
  have frame: "memory_counter.counted lo hi k' c' l \<Longrightarrow> k' \<noteq> ?k \<Longrightarrow>
      memory_counter.counted (clock 0) hi k' c' (snd ?b)" for k' c'
    using counting(3) [OF room _ Cons.prems(5)] by blast
  have run: "consume R dims ?clock rules ?longest (snd ?b, r) = (longest', l', r')"
    using Cons.prems(9) by (simp add: increment_memory_only [OF Cons.prems(1)] count [symmetric]
        split: prod.splits if_splits)
  have mono: "mono ?clock" "clock 0 \<le> ?clock 0" using Cons.prems(4) by (auto simp: mono_def)
  have nk: "?k \<notin> set (rule_keys dims rules)" using Cons.prems(3) by simp
  have ks: "\<forall>k' \<in> set (rule_keys dims rules). memory_counter.counted (clock 0) hi k' c (snd ?b)"
  proof
    fix k' assume k': "k' \<in> set (rule_keys dims rules)"
    then have "memory_counter.counted lo hi k' c l" using Cons.prems(8) by auto
    moreover have "k' \<noteq> ?k" using nk k' by blast
    ultimately show "memory_counter.counted (clock 0) hi k' c (snd ?b)" by (rule frame)
  qed
  have win: "\<forall>rule' \<in> set rules. hi \<le> ?clock 0 + of_int (rl_window_seconds rule')"
    using Cons.prems(7) mono(2) by (fastforce intro: order_trans add_right_mono)
  have only: "memory_only (snd ?b)" and dist: "distinct (rule_keys dims rules)"
    and bound: "\<forall>i. ?clock i < hi"
    using Cons.prems(1,3,6) by simp_all
  note IH = Cons.IH [OF only counting(4) [OF room] dist mono bound win ks run]
  have last: "clock (length (rule # rules)) = ?clock (length rules)" by simp
  have "memory_counter.counted (?clock (length rules)) hi ?k (c + 1) l'"
    using IH nk new by blast
  then have all: "\<forall>k \<in> set (rule_keys dims (rule # rules)).
      memory_counter.counted (?clock (length rules)) hi k (c + 1) l'"
    using IH by simp
  have others: "\<forall>k c'. k \<notin> set (rule_keys dims (rule # rules)) \<longrightarrow> memory_counter.counted lo hi k c' l \<longrightarrow>
      memory_counter.counted (?clock (length rules)) hi k c' l'"
    using IH frame by simp
  have "0 < ?longest \<longleftrightarrow> 0 < longest \<or> rl_limit rule \<le> c"
    using counting(5) [of "clock 0" ?k "rl_window_seconds rule" l] by auto
  then have "0 < longest' \<longleftrightarrow> 0 < longest \<or> (\<exists>rule' \<in> set (rule # rules). rl_limit rule' \<le> c)"
    using IH by simp
  with IH all others show ?case unfolding last by blast
qed

text \<open>Consecutive attempts of one client with one email, on one monotonic clock.\<close>

fun attempts ::
  "('r, 'v) redis \<Rightarrow> (string \<Rightarrow> string) \<Rightarrow> rate_limit_rule list \<Rightarrow> string option \<Rightarrow> string
    \<Rightarrow> nat \<Rightarrow> (nat \<Rightarrow> seconds) \<Rightarrow> limiter \<times> 'r \<Rightarrow> (exn + unit) list" where
  "attempts R digest rules client em 0 clock s = []"
| "attempts R digest rules client em (Suc n) clock s =
     (case check_rules R digest rules clock client em s of
        (res, s1) \<Rightarrow> res # attempts R digest rules client em n (\<lambda>i. clock (length rules + i)) s1)"

lemma attempt_result:
  "x \<in> set (attempts R digest rules client em n clock s) \<Longrightarrow> x = Inr () \<or> (\<exists>hint \<ge> 1. x = Inl (RateLimitExceeded hint))"
proof (induction n arbitrary: clock s)
  case (Suc n)
  obtain res s1 where c: "check_rules R digest rules clock client em s = (res, s1)" by (rule prod.exhaust)
  then have "res = Inr () \<or> (\<exists>hint \<ge> 1. res = Inl (RateLimitExceeded hint))"
    by (auto simp: check_rules_def rate_limit_exceeded_def split: prod.splits if_splits)
  moreover have "x = res \<or> x \<in> set (attempts R digest rules client em n (\<lambda>i. clock (length rules + i)) s1)"
    using Suc.prems c by simp
  ultimately show ?case using Suc.IH by blast
qed simp

lemma length_attempts [simp]: "length (attempts R digest rules client em n clock s) = n"
  by (induction n arbitrary: clock s) (simp_all split: prod.split)

lemma attempts_counted:
  assumes "memory_only l" "lim_room (n * length rules) l"
    and "distinct (rule_keys (dimensions digest client em) rules)"
    and "mono clock" "lo \<le> clock 0" "\<forall>i. clock i < hi"
    and "\<forall>rule \<in> set rules. hi \<le> clock 0 + of_int (rl_window_seconds rule)"
    and "\<forall>k \<in> set (rule_keys (dimensions digest client em) rules). memory_counter.counted lo hi k c l"
    and "i < n"
  shows "attempts R digest rules client em n clock (l, r) ! i = Inr () \<longleftrightarrow>
    (\<forall>rule \<in> set rules. c + int i < rl_limit rule)"
  using assms
proof (induction n arbitrary: clock lo l c i r)
  case (Suc n)
  let ?d = "dimensions digest client em" and ?m = "length rules"
  let ?clock = "\<lambda>i. clock (?m + i)"
  obtain longest l1 r1 where run: "consume R ?d clock rules 0 (l, r) = (longest, l1, r1)"
    by (metis prod.collapse)
  have room: "lim_room (?m + n * ?m) l" using Suc.prems(2) by simp
  note step = consume_counted [OF Suc.prems(1) room Suc.prems(3-8) run]
  have check: "check_rules R digest rules clock client em (l, r) =
      (if longest > 0 then Inl (rate_limit_exceeded longest) else Inr (), l1, r1)"
    by (simp add: check_rules_def run)
  show ?case
  proof (cases i)
    case 0
    have "0 < longest \<longleftrightarrow> \<not> (\<forall>rule \<in> set rules. c < rl_limit rule)"
      using step by (simp add: not_less)
    with 0 show ?thesis by (simp add: check)
  next
    case (Suc j)
    have "mono ?clock" "clock ?m \<le> ?clock 0" "\<forall>i. ?clock i < hi"
      using Suc.prems(4,6) by (auto simp: mono_def)
    moreover have "\<forall>rule \<in> set rules. hi \<le> ?clock 0 + of_int (rl_window_seconds rule)"
    proof
      fix rule assume "rule \<in> set rules"
      then have "hi \<le> clock 0 + of_int (rl_window_seconds rule)" using Suc.prems(7) by blast
      also have "\<dots> \<le> ?clock 0 + of_int (rl_window_seconds rule)"
        using Suc.prems(4) by (simp add: mono_def)
      finally show "hi \<le> ?clock 0 + of_int (rl_window_seconds rule)" .
    qed
    ultimately show ?thesis
      using Suc.IH [of l1 ?clock "clock ?m" "c + 1" j r1] step Suc Suc.prems(3,9)
      by (auto simp: check add_ac)
  qed
qed simp

text \<open>C12: While the in-process counters have room, consecutive attempts of one client with one
  email, all inside the shortest window of the rules and with fresh counters, are admitted
  exactly up to the least limit: attempt \<open>i\<close> (from 0) passes if \<open>i\<close> is below the limit of every
  rule, and otherwise raises \<open>RateLimitExceeded\<close> with a hint of at least one second.\<close>

theorem window_admission:
  assumes "lim_redis_url l = None" "\<not> lim_redis l" "lim_room (n * length rules) l"
    and "distinct (rule_keys (dimensions digest client em) rules)"
    and "\<forall>k \<in> set (rule_keys (dimensions digest client em) rules). k \<notin> fst ` set (lim_memory l)"
    and "mono clock" "\<forall>i. start \<le> clock i \<and> clock i < start + of_int w"
    and "\<forall>rule \<in> set rules. w \<le> rl_window_seconds rule"
    and "i < n"
  shows "if \<forall>rule \<in> set rules. int i < rl_limit rule
    then attempts R digest rules client em n clock (l, r) ! i = Inr ()
    else \<exists>hint \<ge> 1. attempts R digest rules client em n clock (l, r) ! i = Inl (RateLimitExceeded hint)"
proof -
  have "memory_only l" using assms(1,2) by (simp add: memory_only_def)
  moreover have "\<forall>k \<in> set (rule_keys (dimensions digest client em) rules).
      memory_counter.counted start (start + of_int w) k 0 l"
    using assms(5) by (force simp: memory_counter.counted_def lim_cur_def
        split: option.splits dest: map_of_SomeD)
  moreover have "\<forall>rule \<in> set rules. start + of_int w \<le> clock 0 + of_int (rl_window_seconds rule)"
    using assms(7,8) by (auto intro: add_mono)
  ultimately have "attempts R digest rules client em n clock (l, r) ! i = Inr () \<longleftrightarrow>
      (\<forall>rule \<in> set rules. int i < rl_limit rule)"
    using attempts_counted [of l n rules digest client em clock start "start + of_int w" 0 i R r]
      assms(3,4,6,7,9) by auto
  moreover have "attempts R digest rules client em n clock (l, r) ! i \<in> set (attempts R digest rules client em n clock (l, r))"
    using assms(9) by simp
  ultimately show ?thesis using attempt_result by metis
qed

theorem window_admission_witness:
  "attempts (undefined :: (unit, unit) redis) id password_reset_rules None ''a@b.c'' 4 (\<lambda>_. 7)
     (init_limiter default_settings, ()) ! 2 = Inr () \<and>
   (\<exists>hint \<ge> 1. attempts (undefined :: (unit, unit) redis) id password_reset_rules None ''a@b.c'' 4 (\<lambda>_. 7)
     (init_limiter default_settings, ()) ! 3 = Inl (RateLimitExceeded hint))"
proof -
  let ?run = "attempts (undefined :: (unit, unit) redis) id password_reset_rules None ''a@b.c'' 4 (\<lambda>_. 7) (init_limiter default_settings, ())"
  have room: "lim_redis_url (init_limiter default_settings) = None" "\<not> lim_redis (init_limiter default_settings)"
      "lim_room (4 * length password_reset_rules) (init_limiter default_settings)"
      "\<forall>k \<in> set (rule_keys (dimensions id None ''a@b.c'') password_reset_rules).
         k \<notin> fst ` set (lim_memory (init_limiter default_settings))"
    by (simp_all add: init_limiter_def default_settings_def lim_room_def MEMORY_MAX_ENTRIES_def password_reset_rules_def)
  have rules: "distinct (rule_keys (dimensions id None ''a@b.c'') password_reset_rules)"
      "\<forall>rule \<in> set password_reset_rules. 60 \<le> rl_window_seconds rule"
    by (auto simp: password_reset_rules_def rule_key_def)
  have clock: "mono (\<lambda>_ :: nat. 7 :: seconds)" "\<forall>i :: nat. (7 :: seconds) \<le> 7 \<and> (7 :: seconds) < 7 + of_int 60"
    by (simp_all add: mono_def)
  have *: "if \<forall>rule \<in> set password_reset_rules. int i < rl_limit rule then ?run ! i = Inr ()
    else \<exists>hint \<ge> 1. ?run ! i = Inl (RateLimitExceeded hint)" if "i < 4" for i
    by (rule window_admission [OF room(1-3) rules(1) room(4) clock rules(2) that])
  show ?thesis using * [of 2] * [of 3] by (simp add: password_reset_rules_def)
qed

section \<open>Redis outages, eviction and the rejection\<close>

lemma increment_unreachable:
  assumes "unreachable R"
  shows "\<exists>r1. increment R now key w l r = (fst (mem_increment now key w l),
      (snd (mem_increment now key w l))\<lparr>lim_redis := False\<rparr>, r1)"
proof -
  note fails = redis_call_unreachable [OF assms]
  show ?thesis
  proof (cases "lim_redis l")
    case True
    obtain r1 where "redis_call R (redis_script R key w) r = (None, r1)"
      using fails [of "redis_script R key w" r] by (metis prod.collapse)
    with True show ?thesis
      by (auto simp: increment_def Let_def lim_close_def mem_increment_eq swept_def)
  next
    case False
    obtain r1 where "redis_call R redis_ping r = (None, r1)"
      using fails [of redis_ping r] by (metis prod.collapse)
    with False show ?thesis
      by (auto simp: increment_def Let_def lim_connect_def mem_increment_eq swept_def)
  qed
qed

lemma mem_increment_redis_flag:
  "mem_increment now key w (l\<lparr>lim_redis := b\<rparr>) =
    (fst (mem_increment now key w l), (snd (mem_increment now key w l))\<lparr>lim_redis := b\<rparr>)"
  "mem_increment now key w (l\<lparr>lim_redis_url := u\<rparr>) =
    (fst (mem_increment now key w l), (snd (mem_increment now key w l))\<lparr>lim_redis_url := u\<rparr>)"
  by (simp_all add: mem_increment_eq swept_def Let_def)

lemma consume_unreachable:
  assumes "unreachable R" and "lim_memory l = lim_memory m" "lim_operations l = lim_operations m"
    and "memory_only m"
  shows "fst (consume R dims clock rules longest (l, r)) =
     fst (consume R' dims clock rules longest (m, r')) \<and>
    lim_memory (fst (snd (consume R dims clock rules longest (l, r)))) =
     lim_memory (fst (snd (consume R' dims clock rules longest (m, r'))))"
  using assms(2-)
proof (induction rules arbitrary: clock l m longest r r')
  case (Cons rule rules)
  let ?k = "rule_key rule (dims (rl_dimension rule))" and ?w = "rl_window_seconds rule"
  obtain r1 where "increment R (clock 0) ?k ?w l r = (fst (mem_increment (clock 0) ?k ?w l),
      (snd (mem_increment (clock 0) ?k ?w l))\<lparr>lim_redis := False\<rparr>, r1)"
    using increment_unreachable [OF assms(1), of "clock 0" ?k ?w l r] by blast
  moreover have "increment R' (clock 0) ?k ?w m r' = (fst (mem_increment (clock 0) ?k ?w m),
      snd (mem_increment (clock 0) ?k ?w m), r')"
    by (rule increment_memory_only [OF Cons.prems(3)])
  moreover have "fst (mem_increment (clock 0) ?k ?w l) = fst (mem_increment (clock 0) ?k ?w m)"
      "lim_memory (snd (mem_increment (clock 0) ?k ?w l)) = lim_memory (snd (mem_increment (clock 0) ?k ?w m))"
      "lim_operations (snd (mem_increment (clock 0) ?k ?w l)) = lim_operations (snd (mem_increment (clock 0) ?k ?w m))"
    using Cons.prems(1,2) by (simp_all add: mem_increment_eq swept_def Let_def)
  ultimately show ?case
    using Cons.IH Cons.prems(3) by (auto split: prod.splits)
qed simp

text \<open>A limiter configured with a Redis that cannot be reached decides every attempt exactly
  as a limiter with the same in-process counters and no Redis at all: the outage never lets an
  attempt pass uncounted and never rejects one by itself.\<close>

lemma redis_outage_counts_in_memory:
  assumes "unreachable R"
  shows "fst (check_rules R digest rules clock client em (l, r)) =
    fst (check_rules R' digest rules clock client em
      (l\<lparr>lim_redis_url := None, lim_redis := False\<rparr>, r'))"
proof -
  let ?m = "l\<lparr>lim_redis_url := None, lim_redis := False\<rparr>"
  have "fst (consume R (dimensions digest client em) clock rules 0 (l, r)) =
      fst (consume R' (dimensions digest client em) clock rules 0 (?m, r'))"
    by (rule conjunct1 [OF consume_unreachable [OF assms]]) (simp_all add: memory_only_def)
  then show ?thesis by (auto simp: check_rules_def split: prod.splits)
qed

lemma consume_longest:
  "(longest = 0 \<or> 1 \<le> longest) \<Longrightarrow>
     fst (consume R dims clock rules longest s) = 0 \<or> 1 \<le> fst (consume R dims clock rules longest s)"
proof (induction rules arbitrary: clock longest s)
  case Nil
  then show ?case by (cases s) simp
next
  case (Cons rule rules)
  obtain l r where s: "s = (l, r)" by (cases s)
  obtain count retry l1 r1 where i: "increment R (clock 0) (rule_key rule (dims (rl_dimension rule)))
      (rl_window_seconds rule) l r = ((count, retry), l1, r1)"
    by (metis prod.collapse)
  from increment_retry have "1 \<le> retry" by (metis fst_conv i snd_conv)
  with Cons show ?case by (simp add: s i max_def)
qed

text \<open>Eviction removes exactly one entry, and no entry of the map expires before it.\<close>

lemma evict_removes_soonest:
  assumes "distinct (map fst mem)" and "mem \<noteq> []"
  shows "\<exists>k c e. map_of mem k = Some (c, e) \<and> evict_soonest_expiring_entry mem = AList.delete k mem \<and>
    Suc (length (evict_soonest_expiring_entry mem)) = length mem \<and>
    (\<forall>k' c' e'. map_of mem k' = Some (c', e') \<longrightarrow> e \<le> e')"
proof -
  from assms(2) obtain k e where s: "soonest mem = Some (k, e)"
    by (cases "soonest mem") auto
  then obtain c where "(k, c, e) \<in> set mem" using soonest_in by blast
  with assms(1) have "map_of mem k = Some (c, e)" by simp
  moreover have "\<forall>k' c' e'. map_of mem k' = Some (c', e') \<longrightarrow> e \<le> e'"
    using soonest_least [OF s] by (auto dest: map_of_SomeD)
  ultimately show ?thesis
    using evict_props(1) [OF assms] by (auto simp: evict_soonest_expiring_entry_def s)
qed

end
