(* ===== verification/ExpiringMap.thy ===== *)
theory ExpiringMap
  imports Auth_Prelude
begin

text \<open>
  The interface of the in-process stores that forget their entries at a time the entry names:
  the OTP challenges and the list of used reset tokens. \<open>view t s k\<close> is what key \<open>k\<close> holds at
  time \<open>t\<close>; \<open>sweep t\<close> drops what has expired at \<open>t\<close>, \<open>put t\<close> sweeps and stores, \<open>remove\<close>
  takes a key out. The client lemmas are about sequences of these operations.
\<close>

locale expiring_map =
  fixes view :: "seconds \<Rightarrow> 's \<Rightarrow> string \<Rightarrow> 'v option"
    and sweep :: "seconds \<Rightarrow> 's \<Rightarrow> 's"
    and put :: "seconds \<Rightarrow> string \<Rightarrow> 'v \<Rightarrow> 's \<Rightarrow> 's"
    and remove :: "string \<Rightarrow> 's \<Rightarrow> 's"
    and alive :: "seconds \<Rightarrow> 'v \<Rightarrow> bool"
    and invar :: "'s \<Rightarrow> bool"
  assumes alive_antimono: "t \<le> t' \<Longrightarrow> alive t' v \<Longrightarrow> alive t v"
    and view_alive: "view t s k = Some v \<Longrightarrow> alive t v"
    and view_later: "t \<le> t' \<Longrightarrow> view t' s k =
      (case view t s k of None \<Rightarrow> None | Some v \<Rightarrow> if alive t' v then Some v else None)"
    and view_sweep: "invar s \<Longrightarrow> t \<le> t' \<Longrightarrow> view t' (sweep t s) k = view t' s k"
    and view_put: "invar s \<Longrightarrow> t \<le> t' \<Longrightarrow> view t' (put t k v s) k' =
      (if k' = k then (if alive t' v then Some v else None) else view t' s k')"
    and view_remove: "invar s \<Longrightarrow> view t (remove k s) k' = (if k' = k then None else view t s k')"
    and invar_sweep: "invar s \<Longrightarrow> invar (sweep t s)"
    and invar_put: "invar s \<Longrightarrow> invar (put t k v s)"
    and invar_remove: "invar s \<Longrightarrow> invar (remove k s)"
begin

lemma view_put_same: "invar s \<Longrightarrow> t \<le> t' \<Longrightarrow> alive t' v \<Longrightarrow> view t' (put t k v s) k = Some v"
  by (simp add: view_put)

lemma view_put_other: "invar s \<Longrightarrow> t \<le> t' \<Longrightarrow> k' \<noteq> k \<Longrightarrow> view t' (put t k v s) k' = view t' s k'"
  by (simp add: view_put)

lemma absent_later: "t \<le> t' \<Longrightarrow> view t s k = None \<Longrightarrow> view t' s k = None"
  by (simp add: view_later)

lemma present_earlier: "t \<le> t' \<Longrightarrow> view t' s k = Some v \<Longrightarrow> view t s k = Some v"
  by (auto simp: view_later [of t t'] split: option.splits if_splits)

text \<open>A removed key stays absent, whatever is swept and stored under other keys.\<close>

lemma removed_stays_absent:
  assumes "invar s" "t \<le> t'" "k' \<noteq> k"
  shows "view t' (put t k' v (remove k s)) k = None"
  using assms by (simp add: view_put invar_remove view_remove)

lemma put_then_remove:
  assumes "invar s" "t \<le> t'"
  shows "view t' (remove k (put t k v s)) k' = (if k' = k then None else view t' s k')"
  using assms by (simp add: view_remove invar_put view_put)

lemmas map_laws = view_sweep view_put view_remove invar_sweep invar_put invar_remove

end

end
