(* ===== verification/EmailOtp.thy ===== *)
theory EmailOtp
  imports Config Redis ExpiringMap
begin

text \<open>
  \<open>app/services/email_otp.py\<close>, the challenges: their two stores (the in-process dictionary
  and Redis), creating a login or password-reset challenge, verifying one, and the background
  delivery. Parameters of the model: the server \<open>R\<close>, the JSON codecs \<open>J\<close> of Python and of the
  server's Lua, the keyed hash \<open>H key payload\<close> (HMAC-SHA256, hex digest), the drawn challenge
  id and number, the clock readings, and the outcome of sending a mail.
\<close>

section \<open>State and parameters\<close>

record otp =
  otp_settings :: settings
  otp_redis :: bool
  otp_memory :: "(string \<times> pydict) list"
  otp_deliveries :: "(string \<times> string \<times> string) list"

definition init_otp :: "settings \<Rightarrow> otp" where
  "init_otp cfg = \<lparr>otp_settings = cfg, otp_redis = False, otp_memory = [], otp_deliveries = []\<rparr>"

text \<open>\<open>json.dumps\<close>, \<open>json.loads\<close> (\<open>None\<close>: it raises), and the \<open>cjson\<close> of the Lua script.\<close>

record 'j codec =
  j_dumps :: "pyval \<Rightarrow> 'j"
  j_loads :: "'j \<Rightarrow> pyval option"
  cj_decode :: "'j \<Rightarrow> pyval option"
  cj_encode :: "pyval \<Rightarrow> 'j"

text \<open>A codec for the witnesses: a document is represented by the value it denotes.\<close>

definition example_codec :: "pyval codec" where
  "example_codec = \<lparr>j_dumps = id, j_loads = Some, cj_decode = Some, cj_encode = id\<rparr>"

record otp_challenge =
  ch_id :: string
  ch_expires_in :: int
  ch_masked_email :: string

definition KEY_PREFIX :: string where
  "KEY_PREFIX = ''ouros:auth:email-otp:''"

definition KEY_PREFIX_RESET :: string where
  "KEY_PREFIX_RESET = ''ouros:auth:password-reset-otp:''"

text \<open>\<open>prefix or self._KEY_PREFIX\<close>, and the key of the in-process dictionary.\<close>

definition full_key :: "string option \<Rightarrow> string \<Rightarrow> string" where
  "full_key pre challenge_id =
    (case pre of None \<Rightarrow> KEY_PREFIX | Some p \<Rightarrow> if p = [] then KEY_PREFIX else p) @ challenge_id"

definition mem_key :: "string option \<Rightarrow> string \<Rightarrow> string" where
  "mem_key pre challenge_id =
    (if pre = None \<or> pre = Some KEY_PREFIX then challenge_id else ''reset:'' @ challenge_id)"

section \<open>Guards and helpers\<close>

definition require_ready :: "otp \<Rightarrow> exn + unit" where
  "require_ready s =
    (if \<not> ouros_email_otp_enabled (otp_settings s) then
       Inl (EmailOtpUnavailable ''email OTP is disabled'')
     else if ouros_email_otp_hmac_secret (otp_settings s) = None
         \<or> str_falsy (ouros_smtp_host (otp_settings s)) then
       Inl (EmailOtpUnavailable ''email OTP configuration is incomplete'')
     else Inr ())"

definition code_digest :: "(string \<Rightarrow> string \<Rightarrow> string) \<Rightarrow> otp \<Rightarrow> string \<Rightarrow> string \<Rightarrow> exn + string" where
  "code_digest H s challenge_id code =
    (case ouros_email_otp_hmac_secret (otp_settings s) of
       None \<Rightarrow> Inl (EmailOtpUnavailable ''email OTP HMAC secret is not configured'')
     | Some key \<Rightarrow> Inr (H key (challenge_id @ '':'' @ code)))"

text \<open>
  \<open>hmac.compare_digest\<close> on two \<open>str\<close> raises \<open>TypeError\<close> unless both are ASCII; on \<open>bytes\<close> it
  compares.
\<close>

definition compare_digest_str :: "string \<Rightarrow> string \<Rightarrow> exn + bool" where
  "compare_digest_str a b = (if is_ascii a \<and> is_ascii b then Inr (a = b) else Inl TypeError)"

definition mask_email :: "string \<Rightarrow> string" where
  "mask_email em =
    (case py_partition (CHR ''@'') em of
       (local_part, separator, domain) \<Rightarrow>
         if separator = [] then ''***''
         else take 1 local_part @ ''***@'' @ domain)"

text \<open>\<open>f"{n:06d}"\<close> of the drawn number.\<close>

definition otp_code :: "nat \<Rightarrow> string" where
  "otp_code n = zero_pad 6 (decimal n)"

section \<open>The stores\<close>

definition live_record :: "seconds \<Rightarrow> pydict \<Rightarrow> bool" where
  "live_record t rec =
    (case as_int (dget rec ''expires_at'') of None \<Rightarrow> False | Some e \<Rightarrow> \<not> e \<le> py_int t)"

definition otp_cleanup :: "seconds \<Rightarrow> (string \<times> pydict) list \<Rightarrow> (string \<times> pydict) list" where
  "otp_cleanup t mem = filter (\<lambda>(_, rec). live_record t rec) mem"

definition otp_close_redis :: "otp \<Rightarrow> otp" where
  "otp_close_redis s = (if otp_redis s then s\<lparr>otp_redis := False\<rparr> else s)"

definition otp_redis_client :: "('r, 'j) redis \<Rightarrow> otp \<times> 'r \<Rightarrow> (exn, otp \<times> 'r, unit) outcome" where
  "otp_redis_client R = (\<lambda>(s, r).
    if redis_url (otp_settings s) = None then
      (Inl (EmailOtpUnavailable ''Redis is not configured''), s, r)
    else if otp_redis s then (Inr (), s, r)
    else (case redis_call R redis_ping r of
            (None, r1) \<Rightarrow> (Inl (EmailOtpUnavailable ''Redis is unavailable''), s, r1)
          | (Some _, r1) \<Rightarrow> (Inr (), s\<lparr>otp_redis := True\<rparr>, r1)))"

text \<open>A command on the client; a failed round trip closes the client and is reported.\<close>

definition otp_command ::
  "('r, 'j) redis \<Rightarrow> string \<Rightarrow> ('r \<Rightarrow> 'a \<times> 'r) \<Rightarrow> otp \<times> 'r \<Rightarrow> (exn, otp \<times> 'r, 'a) outcome" where
  "otp_command R msg cmd st =
    and_then (otp_redis_client R st) (\<lambda>_ (s, r).
      case redis_call R cmd r of
        (None, r1) \<Rightarrow> (Inl (EmailOtpUnavailable msg), otp_close_redis s, r1)
      | (Some a, r1) \<Rightarrow> (Inr a, s, r1))"

definition otp_save ::
  "('r, 'j) redis \<Rightarrow> 'j codec \<Rightarrow> string option \<Rightarrow> string \<Rightarrow> pydict \<Rightarrow> int \<Rightarrow> seconds
    \<Rightarrow> otp \<times> 'r \<Rightarrow> (exn, otp \<times> 'r, unit) outcome" where
  "otp_save R J pre challenge_id rec ttl t = (\<lambda>(s, r).
    if redis_url (otp_settings s) \<noteq> None then
      otp_command R ''Redis write failed''
        (\<lambda>r. ((), r_set_ex R (full_key pre challenge_id) (j_dumps J (PDict rec)) (max ttl 1) r)) (s, r)
    else
      (Inr (), s\<lparr>otp_memory := AList.update (mem_key pre challenge_id) rec
                                (otp_cleanup t (otp_memory s))\<rparr>, r))"

definition otp_delete ::
  "('r, 'j) redis \<Rightarrow> string option \<Rightarrow> string \<Rightarrow> otp \<times> 'r \<Rightarrow> (exn, otp \<times> 'r, unit) outcome" where
  "otp_delete R pre challenge_id = (\<lambda>(s, r).
    if redis_url (otp_settings s) \<noteq> None then
      otp_command R ''Redis delete failed'' (\<lambda>r. ((), r_del R (full_key pre challenge_id) r)) (s, r)
    else
      (Inr (), s\<lparr>otp_memory := AList.delete (mem_key pre challenge_id) (otp_memory s)\<rparr>, r))"

definition otp_load ::
  "('r, 'j) redis \<Rightarrow> 'j codec \<Rightarrow> string option \<Rightarrow> string \<Rightarrow> seconds
    \<Rightarrow> otp \<times> 'r \<Rightarrow> (exn, otp \<times> 'r, pydict option) outcome" where
  "otp_load R J pre challenge_id t = (\<lambda>(s, r).
    if redis_url (otp_settings s) \<noteq> None then
      and_then
        (otp_command R ''Redis read failed'' (\<lambda>r. (r_get R (full_key pre challenge_id) r, r)) (s, r))
        (\<lambda>raw st.
          case raw of
            None \<Rightarrow> (Inr None, st)
          | Some text \<Rightarrow>
              (case j_loads J text of
                 None \<Rightarrow> and_then (otp_delete R pre challenge_id st) (\<lambda>_ st. (Inr None, st))
               | Some (PDict rec) \<Rightarrow> (Inr (Some rec), st)
               | Some _ \<Rightarrow> (Inr None, st)))
    else
      (let mem = otp_cleanup t (otp_memory s)
       in (Inr (map_of mem (mem_key pre challenge_id)), s\<lparr>otp_memory := mem\<rparr>, r)))"

section \<open>Login challenges\<close>

text \<open>
  \<open>start\<close>: \<open>token\<close> and \<open>n\<close> are the values drawn from \<open>secrets\<close>, \<open>t_exp\<close> and \<open>t_save\<close> the two
  clock readings, \<open>send\<close> the outcome of sending the mail (\<open>SmtpError\<close> stands for \<open>OSError\<close> and
  \<open>SMTPException\<close>).
\<close>

definition login_record :: "string \<Rightarrow> string \<Rightarrow> int \<Rightarrow> pydict" where
  "login_record digest em expires_at =
    [(''email'', PStr em), (''code_digest'', PStr digest),
     (''attempts'', PInt 0), (''expires_at'', PInt expires_at)]"

definition otp_start ::
  "('r, 'j) redis \<Rightarrow> 'j codec \<Rightarrow> (string \<Rightarrow> string \<Rightarrow> string) \<Rightarrow> (string \<Rightarrow> string \<Rightarrow> exn + unit)
    \<Rightarrow> string \<Rightarrow> nat \<Rightarrow> seconds \<Rightarrow> seconds \<Rightarrow> string
    \<Rightarrow> otp \<times> 'r \<Rightarrow> (exn, otp \<times> 'r, otp_challenge) outcome" where
  "otp_start R J H send token n t_exp t_save em = (\<lambda>(s, r).
    case require_ready s of
      Inl e \<Rightarrow> (Inl e, s, r)
    | Inr _ \<Rightarrow>
        let normalized = py_lower (py_strip em);
            code = otp_code n;
            ttl = ouros_email_otp_ttl_seconds (otp_settings s);
            expires_at = py_int t_exp + ttl
        in (case code_digest H s token code of
              Inl e \<Rightarrow> (Inl e, s, r)
            | Inr digest \<Rightarrow>
                and_then
                  (otp_save R J None token (login_record digest normalized expires_at) ttl t_save (s, r))
                  (\<lambda>_ st.
                    case send normalized code of
                      Inr _ \<Rightarrow>
                        (Inr \<lparr>ch_id = token, ch_expires_in = ttl,
                              ch_masked_email = mask_email normalized\<rparr>, st)
                    | Inl SmtpError \<Rightarrow>
                        and_then (otp_delete R None token st)
                          (\<lambda>_ st. (Inl (EmailOtpUnavailable ''email delivery failed''), st))
                    | Inl e \<Rightarrow> (Inl e, st))))"

text \<open>
  \<open>verify\<close>, in its three parts: the load (an await), the decision on the loaded record, which
  runs without an await, and the effect of the decision (an await).
\<close>

datatype verify_action =
    Reject_delete
  | Reject_save pydict int
  | Accept
  | Escape exn

definition verify_decide ::
  "(string \<Rightarrow> string \<Rightarrow> string) \<Rightarrow> otp \<Rightarrow> string \<Rightarrow> string \<Rightarrow> string \<Rightarrow> seconds \<Rightarrow> pydict
    \<Rightarrow> verify_action" where
  "verify_decide H s challenge_id em code t_now rec =
    (case (as_str (dget rec ''email''), as_int (dget rec ''expires_at''),
           as_int (dget rec ''attempts''), as_str (dget rec ''code_digest'')) of
       (Some record_email, Some expires_at, Some attempts, Some record_digest) \<Rightarrow>
         let now = py_int t_now;
             limit = ouros_email_otp_max_attempts (otp_settings s)
         in if expires_at \<le> now \<or> attempts \<ge> limit then Reject_delete
            else (case code_digest H s challenge_id code of
                    Inl e \<Rightarrow> Escape e
                  | Inr submitted \<Rightarrow>
                     (case compare_digest_str record_email (py_lower (py_strip em)) of
                        Inl e \<Rightarrow> Escape e
                      | Inr email_matches \<Rightarrow>
                         (case compare_digest_str record_digest submitted of
                            Inl e \<Rightarrow> Escape e
                          | Inr code_matches \<Rightarrow>
                              if email_matches \<and> code_matches then Accept
                              else if attempts + 1 \<ge> limit then Reject_delete
                              else Reject_save (AList.update ''attempts'' (PInt (attempts + 1)) rec)
                                     (max (expires_at - now) 1))))
     | _ \<Rightarrow> Reject_delete)"

definition verify_act ::
  "('r, 'j) redis \<Rightarrow> 'j codec \<Rightarrow> string \<Rightarrow> seconds \<Rightarrow> verify_action
    \<Rightarrow> otp \<times> 'r \<Rightarrow> (exn, otp \<times> 'r, unit) outcome" where
  "verify_act R J challenge_id t_save act st =
    (case act of
       Reject_delete \<Rightarrow>
         and_then (otp_delete R None challenge_id st) (\<lambda>_ st. (Inl EmailOtpInvalidError, st))
     | Reject_save rec ttl \<Rightarrow>
         and_then (otp_save R J None challenge_id rec ttl t_save st)
           (\<lambda>_ st. (Inl EmailOtpInvalidError, st))
     | Accept \<Rightarrow> otp_delete R None challenge_id st
     | Escape e \<Rightarrow> (Inl e, st))"

text \<open>\<open>t_load\<close>, \<open>t_now\<close>, \<open>t_save\<close> are the clock readings, in the order they are taken.\<close>

definition otp_verify ::
  "('r, 'j) redis \<Rightarrow> 'j codec \<Rightarrow> (string \<Rightarrow> string \<Rightarrow> string) \<Rightarrow> seconds \<times> seconds \<times> seconds
    \<Rightarrow> string \<Rightarrow> string \<Rightarrow> string \<Rightarrow> otp \<times> 'r \<Rightarrow> (exn, otp \<times> 'r, unit) outcome" where
  "otp_verify R J H = (\<lambda>(t_load, t_now, t_save) challenge_id em code st.
    case require_ready (fst st) of
      Inl e \<Rightarrow> (Inl e, st)
    | Inr _ \<Rightarrow>
        and_then (otp_load R J None challenge_id t_load st) (\<lambda>loaded st.
          case loaded of
            None \<Rightarrow> (Inl EmailOtpInvalidError, st)
          | Some rec \<Rightarrow>
              verify_act R J challenge_id t_save
                (verify_decide H (fst st) challenge_id em code t_now rec) st))"

section \<open>Password-reset challenges\<close>

definition reset_record :: "string \<Rightarrow> string \<Rightarrow> int \<Rightarrow> string \<Rightarrow> int \<Rightarrow> pydict" where
  "reset_record em account_type database_id digest expires_at =
    [(''email'', PStr em), (''account_type'', PStr account_type),
     (''database_id'', PInt database_id), (''code_digest'', PStr digest),
     (''attempts'', PInt 0), (''expires_at'', PInt expires_at),
     (''purpose'', PStr ''password_reset'')]"

definition start_password_reset ::
  "('r, 'j) redis \<Rightarrow> 'j codec \<Rightarrow> (string \<Rightarrow> string \<Rightarrow> string) \<Rightarrow> string \<Rightarrow> nat \<Rightarrow> seconds \<Rightarrow> seconds
    \<Rightarrow> string \<Rightarrow> string \<Rightarrow> int \<Rightarrow> otp \<times> 'r \<Rightarrow> (exn, otp \<times> 'r, otp_challenge) outcome" where
  "start_password_reset R J H token n t_exp t_save em account_type database_id = (\<lambda>(s, r).
    case require_ready s of
      Inl e \<Rightarrow> (Inl e, s, r)
    | Inr _ \<Rightarrow>
        let normalized = py_lower (py_strip em);
            code = otp_code n;
            ttl = ouros_email_otp_ttl_seconds (otp_settings s);
            expires_at = py_int t_exp + ttl
        in (case code_digest H s token code of
              Inl e \<Rightarrow> (Inl e, s, r)
            | Inr digest \<Rightarrow>
                and_then
                  (otp_save R J (Some KEY_PREFIX_RESET) token
                    (reset_record normalized account_type database_id digest expires_at) ttl t_save (s, r))
                  (\<lambda>_ (s, r).
                    (Inr \<lparr>ch_id = token, ch_expires_in = ttl, ch_masked_email = mask_email normalized\<rparr>,
                     s\<lparr>otp_deliveries := otp_deliveries s @ [(token, normalized, code)]\<rparr>, r))))"

text \<open>
  One background delivery. A failure of the mail server removes the challenge, and a failure
  of that removal is only logged; any other exception ends the task.
\<close>

definition deliver_password_reset_email ::
  "('r, 'j) redis \<Rightarrow> (string \<Rightarrow> string \<Rightarrow> exn + unit) \<Rightarrow> string \<times> string \<times> string
    \<Rightarrow> otp \<times> 'r \<Rightarrow> (exn, otp \<times> 'r, unit) outcome" where
  "deliver_password_reset_email R send = (\<lambda>(challenge_id, em, code) st.
    case send em code of
      Inr _ \<Rightarrow> (Inr (), st)
    | Inl SmtpError \<Rightarrow>
        (case otp_delete R (Some KEY_PREFIX_RESET) challenge_id st of
           (Inr _, st1) \<Rightarrow> (Inr (), st1)
         | (Inl (EmailOtpUnavailable _), st1) \<Rightarrow> (Inr (), st1)
         | (Inl e, st1) \<Rightarrow> (Inl e, st1))
    | Inl e \<Rightarrow> (Inl e, st))"

text \<open>The first pending delivery runs to its end and leaves the set of tasks.\<close>

definition run_delivery ::
  "('r, 'j) redis \<Rightarrow> (string \<Rightarrow> string \<Rightarrow> exn + unit) \<Rightarrow> otp \<times> 'r
    \<Rightarrow> (exn, otp \<times> 'r, unit) outcome" where
  "run_delivery R send = (\<lambda>(s, r).
    case otp_deliveries s of
      [] \<Rightarrow> (Inr (), s, r)
    | task # tasks \<Rightarrow>
        deliver_password_reset_email R send task (s\<lparr>otp_deliveries := tasks\<rparr>, r))"

text \<open>
  \<open>close\<close>: the pending deliveries are awaited (here one after the other); the Redis client is
  closed only if none of them raised.
\<close>

fun run_deliveries ::
  "('r, 'j) redis \<Rightarrow> (string \<Rightarrow> string \<Rightarrow> exn + unit) \<Rightarrow> nat \<Rightarrow> otp \<times> 'r
    \<Rightarrow> (exn, otp \<times> 'r, unit) outcome" where
  "run_deliveries R send 0 st = (Inr (), st)"
| "run_deliveries R send (Suc n) st =
     (case run_delivery R send st of
        (Inr _, st1) \<Rightarrow> run_deliveries R send n st1
      | (Inl e, st1) \<Rightarrow> (Inl e, snd (run_deliveries R send n st1)))"

definition otp_close ::
  "('r, 'j) redis \<Rightarrow> (string \<Rightarrow> string \<Rightarrow> exn + unit) \<Rightarrow> otp \<times> 'r
    \<Rightarrow> (exn, otp \<times> 'r, unit) outcome" where
  "otp_close R send st =
    and_then (run_deliveries R send (length (otp_deliveries (fst st))) st)
      (\<lambda>_ (s, r). (Inr (), otp_close_redis s, r))"

subsection \<open>The verification script\<close>

text \<open>A number in Lua; \<open>attempts + 1\<close>.\<close>

fun lua_number :: "pyval \<Rightarrow> rat option" where
  "lua_number (PInt i) = Some (of_int i)"
| "lua_number (PFloat q) = Some q"
| "lua_number _ = None"

fun lua_succ :: "pyval \<Rightarrow> pyval" where
  "lua_succ (PInt i) = PInt (i + 1)"
| "lua_succ (PFloat q) = PFloat (q + 1)"
| "lua_succ v = v"

text \<open>The guards of the script on a decoded value: the record's fields when all of them hold.\<close>

definition script_record :: "int \<Rightarrow> pyval option \<Rightarrow> (pydict \<times> string \<times> string \<times> rat) option" where
  "script_record now decoded =
    (case decoded of
       Some (PDict rec) \<Rightarrow>
         (case (as_str (dget rec ''email''), as_str (dget rec ''code_digest''),
                lua_number (dget rec ''expires_at''), lua_number (dget rec ''attempts'')) of
            (Some em, Some digest, Some expires_at, Some attempts) \<Rightarrow>
              if dget rec ''purpose'' \<noteq> PStr ''password_reset'' \<or> expires_at \<le> of_int now then None
              else Some (rec, em, digest, attempts)
          | _ \<Rightarrow> None)
     | _ \<Rightarrow> None)"

definition verify_script ::
  "('r, 'j) redis \<Rightarrow> 'j codec \<Rightarrow> string \<Rightarrow> string \<Rightarrow> string \<Rightarrow> int \<Rightarrow> int
    \<Rightarrow> 'r \<Rightarrow> (int \<times> 'j option) \<times> 'r" where
  "verify_script R J key em digest now max_attempts r =
    (case r_get R key r of
       None \<Rightarrow> ((0, None), r)
     | Some raw \<Rightarrow>
        (case script_record now (cj_decode J raw) of
           None \<Rightarrow> ((0, None), r_del R key r)
         | Some (rec, rec_email, rec_digest, attempts) \<Rightarrow>
             if attempts \<ge> of_int max_attempts then ((-1, None), r_del R key r)
             else if rec_email \<noteq> em \<or> rec_digest \<noteq> digest then
               (if attempts + 1 \<ge> of_int max_attempts then ((-1, None), r_del R key r)
                else ((0, None),
                      r_set_keepttl R key
                        (cj_encode J (PDict (AList.update ''attempts''
                           (lua_succ (dget rec ''attempts'')) rec))) r))
             else ((1, Some raw), r_del R key r)))"

text \<open>The in-process branch of \<open>verify_password_reset\<close>, which runs under the memory lock.\<close>

definition verify_reset_memory ::
  "seconds \<Rightarrow> string \<Rightarrow> string \<Rightarrow> string \<Rightarrow> otp \<Rightarrow> (exn, otp, pyval) outcome" where
  "verify_reset_memory t challenge_id normalized submitted s =
    (let mem = otp_cleanup t (otp_memory s);
         key = ''reset:'' @ challenge_id;
         keep = (\<lambda>m. s\<lparr>otp_memory := m\<rparr>);
         limit = ouros_email_otp_max_attempts (otp_settings s)
     in case map_of mem key of
          None \<Rightarrow> (Inl PasswordResetOtpInvalidError, keep mem)
        | Some rec \<Rightarrow>
           (case (as_str (dget rec ''email''), as_int (dget rec ''expires_at''),
                  as_int (dget rec ''attempts''), as_str (dget rec ''code_digest'')) of
              (Some record_email, Some expires_at, Some attempts, Some record_digest) \<Rightarrow>
                if dget rec ''purpose'' \<noteq> PStr ''password_reset'' then
                  (Inl PasswordResetOtpInvalidError, keep (AList.delete key mem))
                else if attempts \<ge> limit then
                  (Inl PasswordResetOtpAttemptsExceededError, keep (AList.delete key mem))
                else if \<not> is_ascii record_digest \<or> \<not> is_ascii submitted then (Inl TypeError, keep mem)
                else if \<not> (record_email = normalized \<and> record_digest = submitted) then
                  (if attempts + 1 \<ge> limit then
                     (Inl PasswordResetOtpAttemptsExceededError, keep (AList.delete key mem))
                   else (Inl PasswordResetOtpInvalidError,
                         keep (AList.update key
                           (AList.update ''attempts'' (PInt (attempts + 1)) rec) mem)))
                else (Inr (PDict rec), keep (AList.delete key mem))
            | _ \<Rightarrow> (Inl PasswordResetOtpInvalidError, keep (AList.delete key mem))))"

definition verify_password_reset ::
  "('r, 'j) redis \<Rightarrow> 'j codec \<Rightarrow> (string \<Rightarrow> string \<Rightarrow> string) \<Rightarrow> seconds
    \<Rightarrow> string \<Rightarrow> string \<Rightarrow> string \<Rightarrow> otp \<times> 'r \<Rightarrow> (exn, otp \<times> 'r, pyval) outcome" where
  "verify_password_reset R J H t challenge_id em code = (\<lambda>(s, r).
    case require_ready s of
      Inl e \<Rightarrow> (Inl e, s, r)
    | Inr _ \<Rightarrow>
       (case code_digest H s challenge_id code of
          Inl e \<Rightarrow> (Inl e, s, r)
        | Inr submitted \<Rightarrow>
            let normalized = py_lower (py_strip em)
            in if redis_url (otp_settings s) \<noteq> None then
                 and_then
                   (otp_command R ''Redis verification failed''
                      (verify_script R J (KEY_PREFIX_RESET @ challenge_id) normalized submitted
                         (py_int t) (ouros_email_otp_max_attempts (otp_settings s))) (s, r))
                   (\<lambda>(verdict, raw) st.
                      if verdict = -1 then (Inl PasswordResetOtpAttemptsExceededError, st)
                      else if verdict \<noteq> 1 then (Inl PasswordResetOtpInvalidError, st)
                      else (case Option.bind raw (j_loads J) of
                              None \<Rightarrow> (Inl (ValueError ''invalid JSON''), st)
                            | Some v \<Rightarrow> (Inr v, st)))
               else (case verify_reset_memory t challenge_id normalized submitted s of
                       (res, s1) \<Rightarrow> (res, s1, r))))"

end
