(* ===== verification/OtpStore.thy ===== *)
theory OtpStore
  imports EmailOtp
begin

text \<open>
  The in-process challenge store as an expiring map: the interpretation of the interface on
  the model's own state, the store operations as map operations, and the verification of a
  login challenge as one equation over the view.
\<close>

definition otp_view :: "seconds \<Rightarrow> otp \<Rightarrow> string \<Rightarrow> pydict option" where
  "otp_view t s k =
    (case map_of (otp_memory s) k of
       None \<Rightarrow> None
     | Some rec \<Rightarrow> if live_record t rec then Some rec else None)"

definition otp_sweep :: "seconds \<Rightarrow> otp \<Rightarrow> otp" where
  "otp_sweep t s = s\<lparr>otp_memory := otp_cleanup t (otp_memory s)\<rparr>"

definition otp_put :: "seconds \<Rightarrow> string \<Rightarrow> pydict \<Rightarrow> otp \<Rightarrow> otp" where
  "otp_put t k rec s = s\<lparr>otp_memory := AList.update k rec (otp_cleanup t (otp_memory s))\<rparr>"

definition otp_remove :: "string \<Rightarrow> otp \<Rightarrow> otp" where
  "otp_remove k s = s\<lparr>otp_memory := AList.delete k (otp_memory s)\<rparr>"

definition otp_invar :: "otp \<Rightarrow> bool" where
  "otp_invar s \<longleftrightarrow> distinct (map fst (otp_memory s))"

lemma live_record_antimono: "t \<le> t' \<Longrightarrow> live_record t' rec \<Longrightarrow> live_record t rec"
  using py_int_mono [of t t'] by (auto simp: live_record_def split: option.splits)

lemma map_of_otp_cleanup:
  assumes "otp_invar s"
  shows "map_of (otp_cleanup t (otp_memory s)) k = otp_view t s k"
  using map_of_filter_snd [of "otp_memory s" "live_record t" k] assms
  by (simp add: otp_invar_def otp_cleanup_def otp_view_def)

lemma otp_view_later:
  "t \<le> t' \<Longrightarrow> otp_view t' s k =
    (case otp_view t s k of None \<Rightarrow> None | Some rec \<Rightarrow> if live_record t' rec then Some rec else None)"
  using live_record_antimono [of t t'] by (auto simp: otp_view_def split: option.splits)

lemma otp_view_upd:
  "otp_view t (s\<lparr>otp_memory := m\<rparr>) k =
    (case map_of m k of
       None \<Rightarrow> None
     | Some rec \<Rightarrow> if live_record t rec then Some rec else None)"
  by (simp add: otp_view_def)

lemma otp_view_sweep:
  assumes "otp_invar s" and "t \<le> t'"
  shows "otp_view t' (otp_sweep t s) k = otp_view t' s k"
  using otp_view_later [OF assms(2), of s k]
  by (simp add: otp_sweep_def otp_view_upd map_of_otp_cleanup [OF assms(1)])

interpretation challenges: expiring_map otp_view otp_sweep otp_put otp_remove live_record otp_invar
proof
  fix s :: otp and t t' :: seconds and k k' :: string and rec :: pydict
  show "otp_view t s k = Some rec \<Longrightarrow> live_record t rec"
    by (auto simp: otp_view_def split: option.splits if_splits)
  assume inv: "otp_invar s"
  show "otp_view t (otp_remove k s) k' = (if k' = k then None else otp_view t s k')"
    by (simp add: otp_view_def otp_remove_def delete_conv')
  show "otp_invar (otp_sweep t s)" "otp_invar (otp_put t k rec s)" "otp_invar (otp_remove k s)"
    using inv distinct_map_filter' [of "otp_memory s"]
    by (simp_all add: otp_invar_def otp_sweep_def otp_put_def otp_remove_def otp_cleanup_def
        distinct_update distinct_delete)
  assume t: "t \<le> t'"
  show "otp_view t' (otp_put t k rec s) k' =
      (if k' = k then if live_record t' rec then Some rec else None else otp_view t' s k')"
    using otp_view_later [OF t, of s k']
    by (simp add: otp_put_def otp_view_upd update_conv' map_of_otp_cleanup [OF inv])
qed (auto intro: live_record_antimono otp_view_later otp_view_sweep)

section \<open>The operations without a Redis URL\<close>

definition otp_in_memory :: "otp \<Rightarrow> bool" where
  "otp_in_memory s \<longleftrightarrow> redis_url (otp_settings s) = None \<and> otp_invar s"

lemma otp_settings_ops [simp]:
  "otp_settings (otp_sweep t s) = otp_settings s"
  "otp_settings (otp_put t k rec s) = otp_settings s"
  "otp_settings (otp_remove k s) = otp_settings s"
  by (simp_all add: otp_sweep_def otp_put_def otp_remove_def)

lemma otp_in_memory_ops [simp]:
  "otp_in_memory s \<Longrightarrow> otp_in_memory (otp_sweep t s)"
  "otp_in_memory s \<Longrightarrow> otp_in_memory (otp_put t k rec s)"
  "otp_in_memory s \<Longrightarrow> otp_in_memory (otp_remove k s)"
  by (simp_all add: otp_in_memory_def challenges.map_laws)

lemma require_ready_ops [simp]:
  "require_ready (otp_sweep t s) = require_ready s"
  "require_ready (otp_put t k rec s) = require_ready s"
  "require_ready (otp_remove k s) = require_ready s"
  by (simp_all add: require_ready_def)

lemma otp_in_memoryD: "otp_in_memory s \<Longrightarrow> otp_invar s"
  by (simp add: otp_in_memory_def)

lemma otp_load_memory:
  "otp_in_memory s \<Longrightarrow> otp_load R J pre c t (s, r) =
     (Inr (otp_view t s (mem_key pre c)), otp_sweep t s, r)"
  by (simp add: otp_load_def otp_in_memory_def Let_def map_of_otp_cleanup otp_sweep_def)

lemma otp_save_memory:
  "otp_in_memory s \<Longrightarrow> otp_save R J pre c rec ttl t (s, r) = (Inr (), otp_put t (mem_key pre c) rec s, r)"
  by (simp add: otp_save_def otp_in_memory_def otp_put_def)

lemma otp_delete_memory:
  "otp_in_memory s \<Longrightarrow> otp_delete R pre c (s, r) = (Inr (), otp_remove (mem_key pre c) s, r)"
  by (simp add: otp_delete_def otp_in_memory_def otp_remove_def)

lemma mem_key_None [simp]: "mem_key None c = c"
  by (simp add: mem_key_def)

lemma mem_key_reset [simp]: "mem_key (Some KEY_PREFIX_RESET) c = ''reset:'' @ c"
  by (simp add: mem_key_def KEY_PREFIX_def KEY_PREFIX_RESET_def)

lemmas memory_ops = otp_load_memory otp_save_memory otp_delete_memory

lemma code_digest_ops [simp]: "code_digest H (otp_sweep t s) = code_digest H s"
  by (simp add: code_digest_def fun_eq_iff)

lemma verify_decide_ops [simp]:
  "verify_decide H (otp_sweep t s) c em code t_now rec = verify_decide H s c em code t_now rec"
  unfolding verify_decide_def code_digest_ops otp_settings_ops by (rule refl)

text \<open>Verification over the view.\<close>

lemma otp_verify_memory:
  assumes "otp_in_memory s" and "require_ready s = Inr ()"
  shows "otp_verify R J H (t_load, t_now, t_save) c em code (s, r) =
    (case otp_view t_load s c of
       None \<Rightarrow> (Inl EmailOtpInvalidError, otp_sweep t_load s, r)
     | Some rec \<Rightarrow>
        (case verify_decide H s c em code t_now rec of
           Reject_delete \<Rightarrow> (Inl EmailOtpInvalidError, otp_remove c (otp_sweep t_load s), r)
         | Reject_save rec' _ \<Rightarrow> (Inl EmailOtpInvalidError, otp_put t_save c rec' (otp_sweep t_load s), r)
         | Accept \<Rightarrow> (Inr (), otp_remove c (otp_sweep t_load s), r)
         | Escape e \<Rightarrow> (Inl e, otp_sweep t_load s, r)))"
  using assms
  by (auto simp: otp_verify_def memory_ops verify_act_def split: option.splits verify_action.splits)

lemma require_ready_secret:
  "require_ready s = Inr () \<Longrightarrow> \<exists>key. ouros_email_otp_hmac_secret (otp_settings s) = Some key"
  by (auto simp: require_ready_def split: if_splits)

text \<open>What each decision means.\<close>

lemma verify_decide_Accept:
  assumes "verify_decide H s c em code t_now rec = Accept"
  shows "\<exists>key expires_at attempts.
    ouros_email_otp_hmac_secret (otp_settings s) = Some key \<and>
    dget rec ''email'' = PStr (py_lower (py_strip em)) \<and>
    dget rec ''code_digest'' = PStr (H key (c @ '':'' @ code)) \<and>
    as_int (dget rec ''expires_at'') = Some expires_at \<and> py_int t_now < expires_at \<and>
    as_int (dget rec ''attempts'') = Some attempts \<and>
    attempts < ouros_email_otp_max_attempts (otp_settings s)"
  using assms
  by (auto simp: verify_decide_def code_digest_def compare_digest_str_def Let_def
      split: option.splits if_splits sum.splits)

definition login_match :: "(string \<Rightarrow> string \<Rightarrow> string) \<Rightarrow> otp \<Rightarrow> string \<Rightarrow> string \<Rightarrow> string \<Rightarrow> pydict \<Rightarrow> bool" where
  "login_match H s c em code rec \<longleftrightarrow>
     dget rec ''email'' = PStr (py_lower (py_strip em)) \<and>
     (case ouros_email_otp_hmac_secret (otp_settings s) of
        None \<Rightarrow> False | Some key \<Rightarrow> dget rec ''code_digest'' = PStr (H key (c @ '':'' @ code)))"

text \<open>The ordinary case: a well-typed record, a keyed hash with ASCII values, ASCII emails.\<close>

definition typed_record :: "pydict \<Rightarrow> string \<Rightarrow> string \<Rightarrow> int \<Rightarrow> int \<Rightarrow> bool" where
  "typed_record rec em digest expires_at attempts \<longleftrightarrow>
     dget rec ''email'' = PStr em \<and> dget rec ''code_digest'' = PStr digest \<and>
     dget rec ''expires_at'' = PInt expires_at \<and> dget rec ''attempts'' = PInt attempts"

lemma verify_decide_typed:
  assumes "typed_record rec rem digest expires_at attempts" "require_ready s = Inr ()"
    and "is_ascii rem" "is_ascii digest" "is_ascii (py_lower (py_strip em))" "\<forall>k p. is_ascii (H k p)"
  shows "verify_decide H s c em code t_now rec =
    (if expires_at \<le> py_int t_now \<or> ouros_email_otp_max_attempts (otp_settings s) \<le> attempts
     then Reject_delete
     else if login_match H s c em code rec then Accept
     else if ouros_email_otp_max_attempts (otp_settings s) \<le> attempts + 1 then Reject_delete
     else Reject_save (AList.update ''attempts'' (PInt (attempts + 1)) rec)
            (max (expires_at - py_int t_now) 1))"
  using assms require_ready_secret [OF assms(2)]
  by (auto simp: verify_decide_def typed_record_def code_digest_def compare_digest_str_def
      login_match_def Let_def)

lemma live_typed: "typed_record rec em digest expires_at attempts \<Longrightarrow>
    live_record t rec \<longleftrightarrow> py_int t < expires_at"
  by (auto simp: live_record_def typed_record_def)

lemma typed_record_attempts:
  "typed_record rec em digest expires_at attempts \<Longrightarrow>
     typed_record (AList.update ''attempts'' (PInt a) rec) em digest expires_at a"
  by (simp add: typed_record_def)

lemma login_match_attempts [simp]:
  "login_match H s c em code (AList.update ''attempts'' v rec) = login_match H s c em code rec"
  by (simp add: login_match_def split: option.splits)

lemma typed_login_record: "typed_record (login_record digest em expires_at) em digest expires_at 0"
  by (simp add: typed_record_def login_record_def dget_def)

lemma typed_reset_record:
  "typed_record (reset_record em account_type database_id digest expires_at) em digest expires_at 0"
  by (simp add: typed_record_def reset_record_def dget_def)

end
