(* ===== verification/GuessLimit.thy ===== *)
theory GuessLimit
  imports OtpStore
begin

text \<open>
  The contract of a challenge that allows a bounded number of guesses: the interface, what
  follows from it for any sequence of guesses, and the laws of the Redis server and of the
  JSON codecs its providers over Redis rely on.
\<close>

section \<open>Sequences of guesses\<close>

fun run_all :: "('g \<Rightarrow> 's \<Rightarrow> (exn, 's, 'a) outcome) \<Rightarrow> 'g list \<Rightarrow> 's \<Rightarrow> (exn + 'a) list \<times> 's" where
  "run_all verify [] s = ([], s)"
| "run_all verify (g # gs) s =
     (case verify g s of (res, s1) \<Rightarrow>
       (case run_all verify gs s1 of (rs, s2) \<Rightarrow> (res # rs, s2)))"

fun granted :: "exn + 'a \<Rightarrow> bool" where
  "granted (Inr _) = True"
| "granted (Inl _) = False"

text \<open>The answers that use up a guess; a store failure or an escaped exception need not.\<close>

fun uses_guess :: "exn + 'a \<Rightarrow> bool" where
  "uses_guess (Inr _) = True"
| "uses_guess (Inl e) =
     (e = EmailOtpInvalidError \<or> e = PasswordResetOtpInvalidError
       \<or> e = PasswordResetOtpAttemptsExceededError)"

lemma granted_counted: "granted res \<Longrightarrow> uses_guess res"
  by (cases res) auto

locale guess_limiter =
  fixes verify :: "'g \<Rightarrow> 's \<Rightarrow> (exn, 's, 'a) outcome"
    and left :: "'s \<Rightarrow> nat"
    and invar :: "'s \<Rightarrow> bool"
  assumes invar_verify: "invar s \<Longrightarrow> verify g s = (res, s') \<Longrightarrow> invar s'"
    and left_verify: "invar s \<Longrightarrow> verify g s = (res, s') \<Longrightarrow> left s' \<le> left s"
    and counted_verify: "invar s \<Longrightarrow> verify g s = (res, s') \<Longrightarrow> uses_guess res \<Longrightarrow> left s' \<le> left s - 1"
    and granted_verify: "invar s \<Longrightarrow> verify g s = (res, s') \<Longrightarrow> granted res \<Longrightarrow> 0 < left s \<and> left s' = 0"
begin

lemma run_left:
  assumes "invar s" "run_all verify gs s = (rs, s')"
  shows "invar s' \<and> left s' \<le> left s - length (filter uses_guess rs)"
  using assms
proof (induction gs arbitrary: s rs)
  case (Cons g gs)
  obtain res s1 where v: "verify g s = (res, s1)" by fastforce
  obtain rs1 where run: "run_all verify gs s1 = (rs1, s')" and rs: "rs = res # rs1"
    using Cons.prems(2) by (auto simp: v split: prod.splits)
  from Cons.IH [OF invar_verify [OF Cons.prems(1) v] run]
  have "invar s'" and "left s' \<le> left s1 - length (filter uses_guess rs1)" by simp_all
  then show ?case
    using left_verify [OF Cons.prems(1) v] counted_verify [OF Cons.prems(1) v] by (auto simp: rs)
qed simp

text \<open>Without guesses left nothing is granted, and a grant leaves none.\<close>

lemma none_left:
  assumes "invar s" "left s = 0" "run_all verify gs s = (rs, s')"
  shows "filter granted rs = []"
  using assms
proof (induction gs arbitrary: s rs)
  case (Cons g gs)
  obtain res s1 where v: "verify g s = (res, s1)" by fastforce
  obtain rs1 where run: "run_all verify gs s1 = (rs1, s')" and rs: "rs = res # rs1"
    using Cons.prems(3) by (auto simp: v split: prod.splits)
  have "left s1 = 0" using left_verify [OF Cons.prems(1) v] Cons.prems(2) by simp
  from Cons.IH [OF invar_verify [OF Cons.prems(1) v] this run]
  show ?case using granted_verify [OF Cons.prems(1) v] Cons.prems(2) by (auto simp: rs)
qed simp

lemma granted_once:
  assumes "invar s" "run_all verify gs s = (rs, s')"
  shows "length (filter granted rs) \<le> 1"
  using assms
proof (induction gs arbitrary: s rs)
  case (Cons g gs)
  obtain res s1 where v: "verify g s = (res, s1)" by fastforce
  obtain rs1 where run: "run_all verify gs s1 = (rs1, s')" and rs: "rs = res # rs1"
    using Cons.prems(2) by (auto simp: v split: prod.splits)
  note inv = invar_verify [OF Cons.prems(1) v]
  show ?case
  proof (cases "granted res")
    case True
    then have "left s1 = 0" using granted_verify [OF Cons.prems(1) v] by simp
    with none_left [OF inv this run] show ?thesis by (simp add: rs)
  next
    case False
    with Cons.IH [OF inv run] show ?thesis by (simp add: rs)
  qed
qed simp

lemma spent_refuses:
  assumes "invar s" "run_all verify gs s = (rs, s')" "left s \<le> length (filter uses_guess rs)"
    and "verify g s' = (res, s'')"
  shows "\<not> granted res"
proof -
  have "invar s'" "left s' = 0" using run_left [OF assms(1,2)] assms(3) by auto
  then show ?thesis using granted_verify [OF _ assms(4)] by auto
qed

lemma bounded_guessing:
  assumes "invar s" "run_all verify gs s = (rs, s')"
  shows "length (filter granted rs) \<le> 1 \<and>
    (left s \<le> length (filter uses_guess rs) \<longrightarrow> \<not> granted (fst (verify g s')))"
  using granted_once [OF assms] spent_refuses [OF assms, of g]
  by (metis prod.collapse)

end

section \<open>What the providers over Redis rely on\<close>

text \<open>
  A key reads what was last set under it until it is deleted or expires; a round trip by
  itself changes nothing but may let keys expire.
\<close>

definition redis_kv :: "('r, 'v) redis \<Rightarrow> bool" where
  "redis_kv R \<longleftrightarrow>
    (\<forall>k k' v ttl r.
       r_get R k (r_set_ex R k' v ttl r) = (if k = k' then Some v else r_get R k r) \<and>
       r_get R k (r_set_keepttl R k' v r) = (if k = k' then Some v else r_get R k r) \<and>
       r_get R k (r_del R k' r) = (if k = k' then None else r_get R k r) \<and>
       (r_get R k (snd (r_net R r)) = r_get R k r \<or> r_get R k (snd (r_net R r)) = None))"

lemma redis_kvD:
  assumes "redis_kv R"
  shows "r_get R k (r_set_ex R k' v ttl r) = (if k = k' then Some v else r_get R k r)"
    "r_get R k (r_set_keepttl R k' v r) = (if k = k' then Some v else r_get R k r)"
    "r_get R k (r_del R k' r) = (if k = k' then None else r_get R k r)"
    "r_net R r = (n, r1) \<Longrightarrow> r_get R k r1 = r_get R k r \<or> r_get R k r1 = None"
  using assms unfolding redis_kv_def by (blast, blast, blast, metis snd_conv)

text \<open>
  The dictionaries the services store hold strings and integers, small enough for the 14
  digits \<open>cjson\<close> writes of a number. What either encoder writes of such a dictionary, both
  decoders read back with the same entries, in whatever order.
\<close>

definition plain_dict :: "pydict \<Rightarrow> bool" where
  "plain_dict d \<longleftrightarrow>
     (\<forall>v \<in> snd ` set d. case v of PStr _ \<Rightarrow> True | PInt i \<Rightarrow> \<bar>i\<bar> < 10 ^ 14 | _ \<Rightarrow> False)"

definition reads_back :: "('j \<Rightarrow> pyval option) \<Rightarrow> 'j \<Rightarrow> pydict \<Rightarrow> bool" where
  "reads_back decode text d \<longleftrightarrow> (\<exists>d'. decode text = Some (PDict d') \<and> map_of d' = map_of d \<and> plain_dict d')"

definition codec_roundtrip :: "'j codec \<Rightarrow> bool" where
  "codec_roundtrip J \<longleftrightarrow>
    (\<forall>d. plain_dict d \<longrightarrow>
       reads_back (j_loads J) (j_dumps J (PDict d)) d \<and> reads_back (cj_decode J) (j_dumps J (PDict d)) d \<and>
       reads_back (cj_decode J) (cj_encode J (PDict d)) d \<and> reads_back (j_loads J) (cj_encode J (PDict d)) d)"

lemma codec_roundtripD:
  assumes "codec_roundtrip J" "plain_dict d"
  shows "reads_back (j_loads J) (j_dumps J (PDict d)) d" "reads_back (cj_decode J) (j_dumps J (PDict d)) d"
    "reads_back (cj_decode J) (cj_encode J (PDict d)) d" "reads_back (j_loads J) (cj_encode J (PDict d)) d"
  using assms by (auto simp: codec_roundtrip_def)

lemma dget_cong: "map_of d' = map_of d \<Longrightarrow> dget d' k = dget d k"
  by (simp add: dget_def)

lemma plain_dict_update:
  assumes "plain_dict d" "plain_dict [(k, v)]"
  shows "plain_dict (AList.update k v d)"
proof -
  have "snd ` set (AList.update k v d) \<subseteq> insert v (snd ` set d)"
    by (induction d) auto
  with assms show ?thesis by (fastforce simp: plain_dict_def)
qed

lemma example_codec_simps [simp]:
  "j_dumps example_codec v = v" "j_loads example_codec v = Some v"
  "cj_decode example_codec v = Some v" "cj_encode example_codec v = v"
  by (simp_all add: example_codec_def)

lemma example_redis_kv [simp]: "redis_kv example_redis"
  by (simp add: redis_kv_def update_conv' delete_conv' example_redis_def)

lemma example_codec_roundtrip [simp]: "codec_roundtrip example_codec"
  by (auto simp: codec_roundtrip_def reads_back_def example_codec_def)

text \<open>The outcomes of one call: it ran (and perhaps its reply was lost), or it did not.\<close>

lemma redis_call_cases:
  assumes "redis_call R cmd r = (res, r')"
  obtains (ran) n r1 where "r_net R r = (n, r1)" "r' = snd (cmd r1)" "res = Some (fst (cmd r1)) \<or> res = None"
    | (refused) r1 where "r_net R r = (Refused, r1)" "r' = r1" "res = None"
  using assms
  by (auto simp: redis_call_def split: prod.splits net.splits)

end
