(* ===== verification/Identity.thy ===== *)
theory Identity
  imports Auth_Prelude "HOL-Library.List_Lexorder"  "HOL-Library.Char_ord" "HOL-Library.Product_Lexorder"
begin

text \<open>
  \<open>app/models/identity.py\<close>: the account types, their string values and realm roles, and
  the stored identity. Account types are ordered as their string values are, which is the
  order in which the identity query sorts them.
\<close>

datatype account_type = FARM_OWNER | COMPANY_EMPLOYEE | ADMIN

fun account_value :: "account_type \<Rightarrow> string" where
  "account_value FARM_OWNER = ''farm_owner''"
| "account_value COMPANY_EMPLOYEE = ''company_employee''"
| "account_value ADMIN = ''admin''"

fun realm_role :: "account_type \<Rightarrow> string" where
  "realm_role FARM_OWNER = ''farm_owner''"
| "realm_role COMPANY_EMPLOYEE = ''company_employee''"
| "realm_role ADMIN = ''admin''"

text \<open>\<open>AccountType(value)\<close>: \<open>None\<close> where the constructor raises \<open>ValueError\<close>.\<close>

definition account_of_value :: "string \<Rightarrow> account_type option" where
  "account_of_value s =
     (if s = ''farm_owner'' then Some FARM_OWNER
      else if s = ''company_employee'' then Some COMPANY_EMPLOYEE
      else if s = ''admin'' then Some ADMIN
      else None)"

record stored_identity =
  si_database_id :: int
  si_email :: string
  si_password_hash :: string
  si_account_type :: account_type
  si_name :: "string option"
  si_farm_id :: "int option"
  si_enterprise_id :: "int option"
  si_first_access :: "bool option"

lemma account_of_value_value [simp]: "account_of_value (account_value a) = Some a"
  by (cases a) (auto simp: account_of_value_def)

lemma account_of_value_Some: "account_of_value s = Some a \<longleftrightarrow> s = account_value a"
  by (cases a) (auto simp: account_of_value_def split: if_splits)

lemma account_value_inject [simp]: "account_value a = account_value b \<longleftrightarrow> a = b"
  by (cases a; cases b) auto

lemma realm_role_value: "realm_role a = account_value a"
  by (cases a) auto

instantiation account_type :: linorder
begin

definition less_eq_account_type :: "account_type \<Rightarrow> account_type \<Rightarrow> bool" where
  "less_eq_account_type a b \<longleftrightarrow> account_value a \<le> account_value b"

definition less_account_type :: "account_type \<Rightarrow> account_type \<Rightarrow> bool" where
  "less_account_type a b \<longleftrightarrow> account_value a < account_value b"

instance
  by standard (auto simp: less_eq_account_type_def less_account_type_def less_le_not_le)

end

lemma account_type_order: "ADMIN < COMPANY_EMPLOYEE" "COMPANY_EMPLOYEE < FARM_OWNER"
  by (simp_all add: less_account_type_def less_char_def)

end
