(* ===== verification/Py_Regex.thy ===== *)
theory Py_Regex
  imports Auth_Prelude
begin

text \<open>
  A matcher for the regular expressions the source uses: one character of a class, a
  repetition of a class with bounds (\<open>*\<close>, \<open>+\<close>, \<open>{m,n}\<close>), and a lookahead
  \<open>(?=...)\<close>. A pattern is a list of items; \<open>rests\<close> returns every remainder of the
  subject after a match at its start, so \<open>fullmatch\<close> is "some match leaves nothing".
\<close>

datatype re_item =
    Cls "char \<Rightarrow> bool"
  | Rep "char \<Rightarrow> bool" nat "nat option"
  | Look "re_item list"

text \<open>The remainders after \<open>lo\<close> to \<open>hi\<close> characters of the class (any number when \<open>None\<close>).\<close>

definition rep_rests :: "(char \<Rightarrow> bool) \<Rightarrow> nat \<Rightarrow> nat option \<Rightarrow> string \<Rightarrow> string list" where
  "rep_rests p lo hi s =
     (let run = length (takeWhile p s);
          most = (case hi of None \<Rightarrow> run | Some h \<Rightarrow> min h run)
      in map (\<lambda>n. drop n s) [lo ..< Suc most])"

fun rests :: "re_item list \<Rightarrow> string \<Rightarrow> string list" where
  "rests [] s = [s]"
| "rests (Cls p # r) s = (case s of [] \<Rightarrow> [] | c # cs \<Rightarrow> if p c then rests r cs else [])"
| "rests (Rep p lo hi # r) s = concat (map (rests r) (rep_rests p lo hi s))"
| "rests (Look q # r) s = (if rests q s = [] then [] else rests r s)"

definition re_fullmatch :: "re_item list \<Rightarrow> string \<Rightarrow> bool" where
  "re_fullmatch r s \<longleftrightarrow> [] \<in> set (rests r s)"

definition re_lit :: "string \<Rightarrow> re_item list" where
  "re_lit s = map (\<lambda>c. Cls (\<lambda>x. x = c)) s"

section \<open>What the items match\<close>

lemma set_rep_rests:
  "set (rep_rests p lo hi s) =
     {t. \<exists>u. s = u @ t \<and> list_all p u \<and> lo \<le> length u \<and> (\<forall>h. hi = Some h \<longrightarrow> length u \<le> h)}"
    (is "?L = ?R")
proof
  have *: "list_all p (take n s)" if "n \<le> length (takeWhile p s)" for n
  proof -
    from that have "take n s = take n (takeWhile p s)"
      by (metis append_eq_conv_conj take_append takeWhile_dropWhile_id diff_is_0_eq append_Nil2 take_0)
    then show ?thesis
      by (metis in_set_takeD list_all_iff set_takeWhileD)
  qed
  show "?L \<subseteq> ?R"
  proof
    fix t assume "t \<in> ?L"
    then obtain n where t: "t = drop n s" and n: "lo \<le> n" "n \<le> length (takeWhile p s)"
      and h: "\<forall>h. hi = Some h \<longrightarrow> n \<le> h"
      by (auto simp: rep_rests_def Let_def less_Suc_eq_le split: option.splits)
    from n have "n \<le> length s" using length_takeWhile_le [of p s] by linarith
    with t n h * [of n] show "t \<in> ?R"
      by (auto intro!: exI [of _ "take n s"])
  qed
  show "?R \<subseteq> ?L"
  proof
    fix t assume "t \<in> ?R"
    then obtain u where s: "s = u @ t" and u: "list_all p u" "lo \<le> length u"
      and h: "\<forall>h. hi = Some h \<longrightarrow> length u \<le> h" by blast
    from s u(1) have "length u \<le> length (takeWhile p s)"
      by (simp add: takeWhile_append2 list_all_iff)
    with u h have "length u \<in> set [lo ..< Suc (case hi of None \<Rightarrow> length (takeWhile p s)
        | Some h \<Rightarrow> min h (length (takeWhile p s)))]"
      by (auto split: option.splits)
    moreover have "t = drop (length u) s" by (simp add: s)
    ultimately show "t \<in> ?L" by (auto simp: rep_rests_def Let_def)
  qed
qed

lemma rests_lit: "rests (re_lit w @ r) s = (if starts_with w s then rests r (drop (length w) s) else [])"
  by (induction w s rule: starts_with.induct) (auto simp: re_lit_def)

lemma fullmatch_nil [simp]: "re_fullmatch [] s \<longleftrightarrow> s = []"
  by (auto simp: re_fullmatch_def)

lemma fullmatch_cls: "re_fullmatch (Cls p # r) s \<longleftrightarrow> (\<exists>c t. s = c # t \<and> p c \<and> re_fullmatch r t)"
  by (cases s) (auto simp: re_fullmatch_def)

lemma fullmatch_rep:
  "re_fullmatch (Rep p lo hi # r) s \<longleftrightarrow>
     (\<exists>u t. s = u @ t \<and> list_all p u \<and> lo \<le> length u \<and> (\<forall>h. hi = Some h \<longrightarrow> length u \<le> h)
        \<and> re_fullmatch r t)"
  by (auto simp: re_fullmatch_def set_rep_rests)

lemma fullmatch_look: "re_fullmatch (Look q # r) s \<longleftrightarrow> rests q s \<noteq> [] \<and> re_fullmatch r s"
  by (simp add: re_fullmatch_def)

lemma fullmatch_lit:
  "re_fullmatch (re_lit w @ r) s \<longleftrightarrow> (\<exists>t. s = w @ t \<and> re_fullmatch r t)"
  by (auto simp: re_fullmatch_def rests_lit dest: starts_withD)

lemma fullmatch_rep_end:
  "re_fullmatch [Rep p lo hi] s \<longleftrightarrow>
     list_all p s \<and> lo \<le> length s \<and> (\<forall>h. hi = Some h \<longrightarrow> length s \<le> h)"
  by (simp add: fullmatch_rep)

text \<open>A lookahead \<open>.*[class]\<close>: a character of the class that a run of \<open>.\<close> can reach.\<close>

lemma rests_star_cls:
  "rests [Rep d 0 None, Cls p] s \<noteq> [] \<longleftrightarrow> (\<exists>u c t. s = u @ c # t \<and> list_all d u \<and> p c)"
proof -
  have "rests [Rep d 0 None, Cls p] s \<noteq> [] \<longleftrightarrow>
      (\<exists>t \<in> set (rep_rests d 0 None s). rests [Cls p] t \<noteq> [])"
    by auto
  also have "\<dots> \<longleftrightarrow> (\<exists>u t. s = u @ t \<and> list_all d u \<and> (\<exists>c t'. t = c # t' \<and> p c))"
  proof -
    have "rests [Cls p] t \<noteq> [] \<longleftrightarrow> (\<exists>c t'. t = c # t' \<and> p c)" for t
      by (cases t) auto
    then show ?thesis by (simp only: set_rep_rests) auto
  qed
  finally show ?thesis by auto
qed

lemmas fullmatch_simps = fullmatch_cls fullmatch_look fullmatch_rep_end

end
