(* ===== verification/Schemas.thy ===== *)
theory Schemas
  imports Errors Identity Py_Regex
begin

text \<open>
  \<open>app/schemas/auth.py\<close>: the request and response models with their field constraints and
  validators. A request is built by its \<open>mk_\<close> function from the raw fields; a rejected
  request is \<open>ValidationError\<close> (FastAPI answers 422 before the handler runs). Length
  constraints apply to the raw value, the \<open>field_validator\<close> functions run after them.
\<close>

definition length_between :: "nat \<Rightarrow> nat \<Rightarrow> string \<Rightarrow> bool" where
  "length_between lo hi s \<longleftrightarrow> lo \<le> length s \<and> length s \<le> hi"

section \<open>Validators\<close>

definition validate_email_shape :: "string \<Rightarrow> exn + string" where
  "validate_email_shape value =
    (let normalized = py_lower (py_strip value)
     in if count_list normalized (CHR ''@'') \<noteq> 1 \<or> CHR '' '' \<in> set normalized then
          Inl (ValueError ''invalid email'')
        else
          (case py_partition (CHR ''@'') normalized of
             (local_part, _, domain) \<Rightarrow>
               if local_part = [] \<or> domain = [] then Inl (ValueError ''invalid email'')
               else Inr normalized))"

definition validate_password_length :: "string \<Rightarrow> exn + string" where
  "validate_password_length value =
    (if length value = 0 \<or> length value > 128 then
       Inl (ValueError ''password length must be between 1 and 128 characters'')
     else Inr value)"

definition validate_refresh_token :: "string \<Rightarrow> exn + string" where
  "validate_refresh_token value =
    (if value = [] then Inl (ValueError ''refresh_token cannot be empty'') else Inr value)"

definition re_dot :: "char \<Rightarrow> bool" where
  "re_dot c \<longleftrightarrow> ord c \<noteq> 10"

definition re_lower :: "char \<Rightarrow> bool" where
  "re_lower c \<longleftrightarrow> 97 \<le> ord c \<and> ord c \<le> 122"

definition re_upper :: "char \<Rightarrow> bool" where
  "re_upper c \<longleftrightarrow> 65 \<le> ord c \<and> ord c \<le> 90"

definition re_special :: "char \<Rightarrow> bool" where
  "re_special c \<longleftrightarrow> \<not> (re_lower c \<or> re_upper c \<or> is_digit c)"

text \<open>\<open>(?=.*[a-z])(?=.*[A-Z])(?=.*\d)(?=.*[^a-zA-Z0-9]).{8,20}\<close>\<close>

definition CREDENTIAL_COMPLEXITY_PATTERN :: "re_item list" where
  "CREDENTIAL_COMPLEXITY_PATTERN =
    [Look [Rep re_dot 0 None, Cls re_lower],
     Look [Rep re_dot 0 None, Cls re_upper],
     Look [Rep re_dot 0 None, Cls is_digit],
     Look [Rep re_dot 0 None, Cls re_special],
     Rep re_dot 8 (Some 20)]"

definition password_complexity_detail :: string where
  "password_complexity_detail =
     ''A senha deve ter entre 8 e 20 caracteres, incluindo pelo menos ''
     @ ''uma letra mai'' @ [CHR 0xFA] @ ''scula, uma min'' @ [CHR 0xFA]
     @ ''scula, um n'' @ [CHR 0xFA] @ ''mero e um caractere especial''"

definition validate_new_password_complexity :: "string \<Rightarrow> exn + string" where
  "validate_new_password_complexity value =
    (if \<not> re_fullmatch CREDENTIAL_COMPLEXITY_PATTERN value
     then Inl (ValueError password_complexity_detail) else Inr value)"

text \<open>The pattern \<open>^\d{6}$\<close> of the code fields.\<close>

definition CODE_PATTERN :: "re_item list" where
  "CODE_PATTERN = [Rep is_digit 6 (Some 6)]"

section \<open>Requests\<close>

record credential_request =
  cr_email :: string
  cr_password :: string
  cr_account_type :: "account_type option"

definition mk_credential_request ::
  "string \<Rightarrow> string \<Rightarrow> account_type option \<Rightarrow> exn + credential_request" where
  "mk_credential_request email password account_type =
    (if \<not> length_between 3 255 email then Inl ValidationError
     else (case validate_email_shape email of
       Inl _ \<Rightarrow> Inl ValidationError
     | Inr e \<Rightarrow> (case validate_password_length password of
         Inl _ \<Rightarrow> Inl ValidationError
       | Inr p \<Rightarrow> Inr \<lparr>cr_email = e, cr_password = p, cr_account_type = account_type\<rparr>)))"

record token_login_request =
  tl_email :: string
  tl_password :: string

definition mk_token_login_request :: "string \<Rightarrow> string \<Rightarrow> exn + token_login_request" where
  "mk_token_login_request email password =
    (if \<not> length_between 3 255 email then Inl ValidationError
     else (case validate_email_shape email of
       Inl _ \<Rightarrow> Inl ValidationError
     | Inr e \<Rightarrow> (case validate_password_length password of
         Inl _ \<Rightarrow> Inl ValidationError
       | Inr p \<Rightarrow> Inr \<lparr>tl_email = e, tl_password = p\<rparr>)))"

record native_login_verify_request = token_login_request +
  nv_challenge_id :: string
  nv_code :: string

definition mk_native_login_verify_request ::
  "string \<Rightarrow> string \<Rightarrow> string \<Rightarrow> string \<Rightarrow> exn + native_login_verify_request" where
  "mk_native_login_verify_request email password challenge_id code =
    (case mk_token_login_request email password of
       Inl e \<Rightarrow> Inl e
     | Inr t \<Rightarrow>
         if length_between 20 256 challenge_id \<and> re_fullmatch CODE_PATTERN code
         then Inr \<lparr>tl_email = tl_email t, tl_password = tl_password t,
                   nv_challenge_id = challenge_id, nv_code = code\<rparr>
         else Inl ValidationError)"

record token_refresh_request =
  tr_refresh_token :: string

definition mk_token_refresh_request :: "string \<Rightarrow> exn + token_refresh_request" where
  "mk_token_refresh_request refresh_token =
    (case validate_refresh_token refresh_token of
       Inl _ \<Rightarrow> Inl ValidationError
     | Inr t \<Rightarrow> Inr \<lparr>tr_refresh_token = t\<rparr>)"

record reset_start_request =
  rs_email :: string
  rs_account_type :: "account_type option"

definition mk_reset_start_request :: "string \<Rightarrow> account_type option \<Rightarrow> exn + reset_start_request" where
  "mk_reset_start_request email account_type =
    (if \<not> length_between 3 255 email then Inl ValidationError
     else (case validate_email_shape email of
       Inl _ \<Rightarrow> Inl ValidationError
     | Inr e \<Rightarrow> Inr \<lparr>rs_email = e, rs_account_type = account_type\<rparr>))"

record reset_verify_request =
  rv_challenge_id :: string
  rv_email :: string
  rv_code :: string

definition mk_reset_verify_request :: "string \<Rightarrow> string \<Rightarrow> string \<Rightarrow> exn + reset_verify_request" where
  "mk_reset_verify_request challenge_id email code =
    (if \<not> (length_between 20 256 challenge_id \<and> length_between 3 255 email
          \<and> re_fullmatch CODE_PATTERN code) then Inl ValidationError
     else (case validate_email_shape email of
       Inl _ \<Rightarrow> Inl ValidationError
     | Inr e \<Rightarrow> Inr \<lparr>rv_challenge_id = challenge_id, rv_email = e, rv_code = code\<rparr>))"

record reset_confirm_request =
  rc_reset_token :: string
  rc_new_password :: string

definition mk_reset_confirm_request :: "string \<Rightarrow> string \<Rightarrow> exn + reset_confirm_request" where
  "mk_reset_confirm_request reset_token new_password =
    (if reset_token = [] then Inl ValidationError
     else (case validate_new_password_complexity new_password of
       Inl _ \<Rightarrow> Inl ValidationError
     | Inr p \<Rightarrow> Inr \<lparr>rc_reset_token = reset_token, rc_new_password = p\<rparr>))"

section \<open>Responses\<close>

record identity_response =
  ir_id :: int
  ir_email :: string
  ir_account_type :: account_type
  ir_realm_role :: string
  ir_name :: "string option"
  ir_farm_id :: "int option"
  ir_enterprise_id :: "int option"
  ir_first_access :: "bool option"

definition from_identity :: "stored_identity \<Rightarrow> identity_response" where
  "from_identity identity = \<lparr>
     ir_id = si_database_id identity,
     ir_email = si_email identity,
     ir_account_type = si_account_type identity,
     ir_realm_role = realm_role (si_account_type identity),
     ir_name = si_name identity,
     ir_farm_id = si_farm_id identity,
     ir_enterprise_id = si_enterprise_id identity,
     ir_first_access = si_first_access identity\<rparr>"

record credential_response =
  cp_authenticated :: bool
  cp_identity :: identity_response

record reset_start_response =
  sr_challenge_id :: string
  sr_masked_email :: string
  sr_expires_in :: int

record reset_verify_response =
  vr_reset_token :: string
  vr_expires_in :: int

text \<open>Building a response checks its fields too; a rejected one is \<open>ValidationError\<close> in the handler.\<close>

definition mk_reset_start_response :: "string \<Rightarrow> string \<Rightarrow> int \<Rightarrow> exn + reset_start_response" where
  "mk_reset_start_response challenge_id masked_email expires_in =
    (if length_between 20 256 challenge_id \<and> length_between 3 255 masked_email \<and> 0 < expires_in
     then Inr \<lparr>sr_challenge_id = challenge_id, sr_masked_email = masked_email, sr_expires_in = expires_in\<rparr>
     else Inl ValidationError)"

definition mk_reset_verify_response :: "string \<Rightarrow> int \<Rightarrow> exn + reset_verify_response" where
  "mk_reset_verify_response reset_token expires_in =
    (if reset_token \<noteq> [] \<and> 0 < expires_in
     then Inr \<lparr>vr_reset_token = reset_token, vr_expires_in = expires_in\<rparr> else Inl ValidationError)"

record login_start_response =
  ls_challenge_id :: string
  ls_expires_in :: int
  ls_masked_email :: string

definition mk_login_start_response :: "string \<Rightarrow> int \<Rightarrow> string \<Rightarrow> exn + login_start_response" where
  "mk_login_start_response challenge_id expires_in masked_email =
    (if length_between 20 256 challenge_id \<and> length_between 3 255 masked_email \<and> 0 < expires_in
     then Inr \<lparr>ls_challenge_id = challenge_id, ls_expires_in = expires_in, ls_masked_email = masked_email\<rparr>
     else Inl ValidationError)"

record keycloak_token_response =
  kt_access_token :: string
  kt_expires_in :: int
  kt_refresh_expires_in :: "int option"
  kt_refresh_token :: "string option"
  kt_token_type :: string
  kt_scope :: "string option"

record web_access_token_response =
  wa_access_token :: string
  wa_expires_in :: int
  wa_refresh_expires_in :: "int option"
  wa_token_type :: string
  wa_scope :: "string option"

section \<open>Lemmas on the validators\<close>

lemma count_list_1_split:
  assumes "count_list s c = 1"
  obtains l d where "s = l @ c # d" and "c \<notin> set l" and "c \<notin> set d"
proof -
  from assms have "c \<in> set s" by (metis count_notin zero_neq_one)
  then obtain l d where s: "s = l @ c # d" and l: "c \<notin> set l"
    by (meson split_list_first)
  with assms have "count_list d c = 0" by (simp add: count_notin)
  with s l that show thesis by (simp add: count_list_0_iff)
qed

lemma validate_email_shape_normal:
  assumes "c = l @ CHR ''@'' # d" and "CHR ''@'' \<notin> set l" "CHR ''@'' \<notin> set d" "l \<noteq> []" "d \<noteq> []"
    and "CHR '' '' \<notin> set c" and "py_lower (py_strip v) = c"
  shows "validate_email_shape v = Inr c"
  using assms by (simp add: validate_email_shape_def partition_append Let_def)

lemma validate_email_shapeE:
  assumes "validate_email_shape v = Inr e"
  obtains l d where "e = l @ CHR ''@'' # d" "CHR ''@'' \<notin> set l" "CHR ''@'' \<notin> set d"
    "l \<noteq> []" "d \<noteq> []" "CHR '' '' \<notin> set e" "e = py_lower (py_strip v)"
proof -
  let ?n = "py_lower (py_strip v)"
  from assms have c: "count_list ?n (CHR ''@'') = 1" and sp: "CHR '' '' \<notin> set ?n"
    and e: "e = ?n" by (auto simp: validate_email_shape_def Let_def split: if_splits prod.splits)
  from c obtain l d where n: "?n = l @ CHR ''@'' # d" and l: "CHR ''@'' \<notin> set l" "CHR ''@'' \<notin> set d"
    by (rule count_list_1_split)
  with assms have "l \<noteq> []" "d \<noteq> []"
    by (auto simp: validate_email_shape_def Let_def partition_append split: if_splits)
  with that n l sp e show thesis by metis
qed

lemma validate_email_shape_fixed:
  assumes "validate_email_shape v = Inr e"
  shows "py_lower (py_strip e) = e" and "validate_email_shape e = Inr e"
proof -
  from assms obtain l d where *: "e = l @ CHR ''@'' # d" "CHR ''@'' \<notin> set l" "CHR ''@'' \<notin> set d"
    "l \<noteq> []" "d \<noteq> []" "CHR '' '' \<notin> set e" "e = py_lower (py_strip v)"
    by (rule validate_email_shapeE)
  show fixed: "py_lower (py_strip e) = e"
    unfolding *(7) by (rule lower_strip_idem)
  show "validate_email_shape e = Inr e"
    by (rule validate_email_shape_normal [OF *(1-6) fixed])
qed

lemma length_py_strip: "length (py_strip s) \<le> length s"
proof -
  have "length (drop_end p u) \<le> length u" for p and u :: string
    using length_dropWhile_le [of p "rev u"] by (simp add: drop_end_def)
  then show ?thesis
    unfolding py_strip_def by (meson length_dropWhile_le order_trans)
qed

text \<open>The handlers build further requests from a validated one: its values pass again.\<close>

lemma validated_email_length:
  assumes "validate_email_shape v = Inr e" "length_between 3 255 v"
  shows "length_between 3 255 e"
proof -
  from assms(1) obtain l d where *: "e = l @ CHR ''@'' # d" "l \<noteq> []" "d \<noteq> []" "e = py_lower (py_strip v)"
    by (rule validate_email_shapeE)
  then have "1 \<le> length l" "1 \<le> length d" by (simp_all add: Suc_le_eq)
  then have "3 \<le> length e" unfolding *(1) by simp
  moreover have "length e \<le> length v" using *(4) length_py_strip [of v] by simp
  ultimately show ?thesis using assms(2) by (simp add: length_between_def)
qed

lemma mk_token_login_request_InrE:
  assumes "mk_token_login_request em pw = Inr t"
  obtains "validate_email_shape em = Inr (tl_email t)" "validate_password_length pw = Inr (tl_password t)"
    "length_between 3 255 em" "tl_password t = pw"
  using assms
  by (auto simp: mk_token_login_request_def validate_password_length_def split: if_splits sum.splits)

lemma revalidated:
  assumes "mk_token_login_request em pw = Inr t"
  shows "mk_token_login_request (tl_email t) (tl_password t) = Inr t"
    and "mk_credential_request (tl_email t) (tl_password t) ty =
      Inr \<lparr>cr_email = tl_email t, cr_password = tl_password t, cr_account_type = ty\<rparr>"
    and "py_lower (py_strip (tl_email t)) = tl_email t"
proof -
  have v: "validate_email_shape em = Inr (tl_email t)" "length_between 3 255 em"
      "validate_password_length (tl_password t) = Inr (tl_password t)"
    using assms by (auto elim: mk_token_login_request_InrE)
  note fixed = validate_email_shape_fixed [OF v(1)] validated_email_length [OF v(1,2)] v(3)
  show "mk_token_login_request (tl_email t) (tl_password t) = Inr t"
    using fixed by (simp add: mk_token_login_request_def)
  show "mk_credential_request (tl_email t) (tl_password t) ty =
      Inr \<lparr>cr_email = tl_email t, cr_password = tl_password t, cr_account_type = ty\<rparr>"
    using fixed by (simp add: mk_credential_request_def)
  show "py_lower (py_strip (tl_email t)) = tl_email t" by (rule fixed(1))
qed

lemma rests_star_dot:
  assumes "list_all re_dot s"
  shows "rests [Rep re_dot 0 None, Cls p] s \<noteq> [] \<longleftrightarrow> (\<exists>c \<in> set s. p c)"
proof -
  have "(\<exists>u c t. s = u @ c # t \<and> list_all re_dot u \<and> p c) \<longleftrightarrow> (\<exists>c \<in> set s. p c)"
  proof
    assume "\<exists>c \<in> set s. p c"
    then obtain c where "c \<in> set s" "p c" by blast
    then obtain u t where "s = u @ c # t" by (meson split_list)
    with assms \<open>p c\<close> show "\<exists>u c t. s = u @ c # t \<and> list_all re_dot u \<and> p c" by auto
  qed auto
  then show ?thesis by (simp only: rests_star_cls)
qed

lemma code_pattern_iff: "re_fullmatch CODE_PATTERN s \<longleftrightarrow> length s = 6 \<and> list_all is_digit s"
  by (auto simp: CODE_PATTERN_def fullmatch_rep_end)

section \<open>Properties\<close>

text \<open>The lookahead pattern for new passwords accepts exactly the strings of 8 to 20
  characters, none a newline, with a lower-case letter, an upper-case letter, a digit and a
  character outside these three classes.\<close>

lemma credential_complexity_iff:
  "re_fullmatch CREDENTIAL_COMPLEXITY_PATTERN s \<longleftrightarrow>
     8 \<le> length s \<and> length s \<le> 20 \<and> CHR 0x0A \<notin> set s \<and>
     (\<exists>c \<in> set s. re_lower c) \<and> (\<exists>c \<in> set s. re_upper c) \<and> (\<exists>c \<in> set s. is_digit c) \<and>
     (\<exists>c \<in> set s. re_special c)"
proof -
  have dots: "list_all re_dot s \<longleftrightarrow> CHR 0x0A \<notin> set s"
  proof -
    have "re_dot c \<longleftrightarrow> c \<noteq> CHR 0x0A" for c
      unfolding re_dot_def char_eq_ord [of c] by simp
    then show ?thesis by (auto simp: list_all_iff)
  qed
  have "re_fullmatch CREDENTIAL_COMPLEXITY_PATTERN s \<longleftrightarrow>
      (\<forall>p \<in> {re_lower, re_upper, is_digit, re_special}.
         rests [Rep re_dot 0 None, Cls p] s \<noteq> []) \<and>
      list_all re_dot s \<and> 8 \<le> length s \<and> length s \<le> 20"
    unfolding CREDENTIAL_COMPLEXITY_PATTERN_def fullmatch_look fullmatch_rep_end by auto
  also have "\<dots> \<longleftrightarrow> (\<forall>p \<in> {re_lower, re_upper, is_digit, re_special}. \<exists>c \<in> set s. p c) \<and>
      list_all re_dot s \<and> 8 \<le> length s \<and> length s \<le> 20"
    using rests_star_dot by metis
  finally show ?thesis using dots by auto
qed

text \<open>C33: An accepted email is the stripped, lower-cased input, has exactly one at sign with a
  non-empty part on each side and no blank, and normalising or validating it again changes
  nothing, so every later \<open>.strip().lower()\<close> in the services is the identity on it.\<close>

theorem validated_email_normal_form:
  assumes "validate_email_shape v = Inr e"
  shows "e = py_lower (py_strip v) \<and> py_lower (py_strip e) = e \<and> validate_email_shape e = Inr e \<and>
    (\<exists>l d. e = l @ CHR ''@'' # d \<and> l \<noteq> [] \<and> d \<noteq> [] \<and> CHR ''@'' \<notin> set l \<union> set d) \<and>
    CHR '' '' \<notin> set e"
  using assms validate_email_shape_fixed [OF assms]
  by (auto elim!: validate_email_shapeE)


theorem validated_email_normal_form_witness:
  "py_lower (py_strip ''a@b.c'') = ''a@b.c'' \<and> validate_email_shape ''a@b.c'' = Inr ''a@b.c''"
proof -
  have "validate_email_shape '' A@b.C'' = Inr ''a@b.c''" by code_simp
  from validated_email_normal_form [OF this] show ?thesis by blast
qed

end
