(* ===== verification/OtpLogin.thy ===== *)
theory OtpLogin
  imports OtpStore Schemas
begin

text \<open>
  Properties of the login challenges: a started challenge is accepted once and only with its
  own email and code, an acceptance always comes from a live stored record that matches, the
  number of wrong guesses is bounded, and two defects of the verification (non-ASCII emails,
  the key space shared with reset challenges in memory).
\<close>

section \<open>Example parameters for the witnesses\<close>

definition example_settings :: settings where
  "example_settings = default_settings\<lparr>ouros_email_otp_enabled := True,
     ouros_email_otp_hmac_secret := Some (replicate 32 (CHR ''k'')),
     ouros_smtp_host := Some ''smtp.example''\<rparr>"

definition example_hash :: "string \<Rightarrow> string \<Rightarrow> string" where
  "example_hash key payload = filter (\<lambda>c. ord c < 128) payload"

lemma example_ready [simp]: "require_ready (init_otp example_settings) = Inr ()"
  by (simp add: require_ready_def init_otp_def example_settings_def)

lemma example_memory [simp]: "otp_in_memory (init_otp example_settings)"
  by (simp add: otp_in_memory_def init_otp_def example_settings_def default_settings_def otp_invar_def)

definition ascii_hash :: "(string \<Rightarrow> string \<Rightarrow> string) \<Rightarrow> bool" where
  "ascii_hash H \<longleftrightarrow> (\<forall>k p. is_ascii (H k p))"

lemma example_ascii [simp]: "ascii_hash example_hash"
  by (auto simp: ascii_hash_def example_hash_def is_ascii_def list_all_iff)

lemma example_limits [simp]:
  "ouros_email_otp_ttl_seconds (otp_settings (init_otp example_settings)) = 300"
  "ouros_email_otp_max_attempts (otp_settings (init_otp example_settings)) = 5"
  "ouros_email_otp_hmac_secret (otp_settings (init_otp example_settings)) = Some (replicate 32 (CHR ''k''))"
  by (simp_all add: init_otp_def example_settings_def default_settings_def)

lemma example_emails [simp]:
  "py_lower (py_strip '' A@b.c'') = ''a@b.c''" "py_lower (py_strip ''a@B.c '') = ''a@b.c''"
  "py_lower (py_strip ''a@b.c'') = ''a@b.c''" "is_ascii ''a@b.c''"
  by code_simp+

section \<open>Starting and verifying\<close>

lemma otp_start_memory:
  assumes "otp_in_memory s" "require_ready s = Inr ()"
    and "ouros_email_otp_hmac_secret (otp_settings s) = Some key"
    and "send (py_lower (py_strip em)) (otp_code n) = Inr ()"
  shows "otp_start R J H send token n t_exp t_save em (s, r) =
    (Inr \<lparr>ch_id = token, ch_expires_in = ouros_email_otp_ttl_seconds (otp_settings s),
          ch_masked_email = mask_email (py_lower (py_strip em))\<rparr>,
     otp_put t_save token
       (login_record (H key (token @ '':'' @ otp_code n)) (py_lower (py_strip em))
          (py_int t_exp + ouros_email_otp_ttl_seconds (otp_settings s))) s, r)"
  using assms by (simp add: otp_start_def code_digest_def otp_save_memory Let_def)

lemma verify_removed:
  assumes "otp_in_memory s" "require_ready s = Inr ()"
  shows "\<exists>s'. otp_verify R J H ts c em code (otp_remove c s, r) = (Inl EmailOtpInvalidError, s', r)"
  using assms challenges.view_remove [OF otp_in_memoryD [OF assms(1)]]
  by (cases ts) (simp add: otp_verify_memory)

text \<open>A challenge id without an entry gets none by verifications, of whatever challenge.\<close>

lemma verify_absent:
  assumes "otp_in_memory s" "require_ready s = Inr ()" "map_of (otp_memory s) k = None"
    and "otp_verify R J H ts c em code (s, r) = (res, s', r')"
  shows "otp_in_memory s' \<and> require_ready s' = Inr () \<and> map_of (otp_memory s') k = None \<and>
    (c = k \<longrightarrow> res = Inl EmailOtpInvalidError \<and> r' = r)"
proof -
  obtain t_load t_now t_save where ts: "ts = (t_load, t_now, t_save)" by (rule prod_cases3)
  have view: "otp_view t s k = None" for t using assms(3) by (simp add: otp_view_def)
  have swept: "map_of (otp_memory (otp_sweep t s)) k = None" for t
    using view [of t] map_of_otp_cleanup [OF otp_in_memoryD [OF assms(1)]] by (simp add: otp_sweep_def)
  then have removed: "map_of (otp_memory (otp_remove c (otp_sweep t s))) k = None" for t
    by (simp add: otp_remove_def delete_conv')
  have inv: "otp_invar (otp_sweep t s)" for t by (rule challenges.invar_sweep [OF otp_in_memoryD [OF assms(1)]])
  have put: "map_of (otp_memory (otp_put t' c rec (otp_sweep t s))) k = None" if "otp_view t_load s c = Some v" for t t' rec v
  proof -
    have "c \<noteq> k" using that view by auto
    with swept [of t] map_of_otp_cleanup [OF inv, of t' t k] show ?thesis
      by (simp add: otp_put_def update_conv' otp_view_def)
  qed
  show ?thesis
    using assms(1,2,4) view [of t_load] swept [of t_load] removed [of t_load]
    unfolding ts otp_verify_memory [OF assms(1,2)]
    by (auto split: option.splits verify_action.splits simp: put)
qed

lemma otp_verify_started:
  assumes "otp_in_memory s" "require_ready s = Inr ()" "ascii_hash H"
    and "ouros_email_otp_hmac_secret (otp_settings s) = Some key"
    and "is_ascii em" "py_lower (py_strip em') = em" "0 < ouros_email_otp_max_attempts (otp_settings s)"
    and "t_save \<le> t_load" "py_int t_load < e" "py_int t_now < e"
  shows "otp_verify R J H (t_load, t_now, t_save') c em' code
      (otp_put t_save c (login_record (H key (c @ '':'' @ code)) em e) s, r)
    = (Inr (), otp_remove c (otp_sweep t_load (otp_put t_save c (login_record (H key (c @ '':'' @ code)) em e) s)), r)"
proof -
  define digest where "digest = H key (c @ '':'' @ code)"
  define rec where "rec = login_record digest em e"
  define s1 where "s1 = otp_put t_save c rec s"
  have typed: "typed_record rec em digest e 0" unfolding rec_def by (rule typed_login_record)
  have s1: "otp_in_memory s1" "require_ready s1 = Inr ()" using assms(1,2) by (simp_all add: s1_def)
  have "live_record t_load rec" using assms(9) by (simp add: live_typed [OF typed])
  then have view: "otp_view t_load s1 c = Some rec"
    unfolding s1_def using challenges.view_put_same [OF otp_in_memoryD [OF assms(1)] assms(8)] by simp
  have "login_match H s1 c em' code rec"
    using assms(4,6) typed by (simp add: login_match_def typed_record_def digest_def s1_def)
  then have "verify_decide H s1 c em' code t_now rec = Accept"
    using assms(3,5-7,10) verify_decide_typed [OF typed s1(2), of em' H c code t_now]
    by (simp add: ascii_hash_def digest_def s1_def)
  with view have "otp_verify R J H (t_load, t_now, t_save') c em' code (s1, r) =
      (Inr (), otp_remove c (otp_sweep t_load s1), r)"
    by (simp add: otp_verify_memory [OF s1])
  then show ?thesis by (simp only: s1_def rec_def digest_def)
qed

text \<open>C1: Round trip of a login challenge with an ASCII email in the in-process store: when the OTP
  service is configured, allows at least one attempt and its keyed hash prints ASCII, then after a
  start whose mail went out, the code sent to the mailbox, presented with the same challenge id and
  any spelling of that email that normalises to it, before the expiry and at a clock reading not
  before the save, is accepted; and after that every verification of the challenge id, with
  whatever email and code, fails with the generic error.\<close>

theorem login_challenge_once:
  assumes "otp_in_memory s" "require_ready s = Inr ()" "ascii_hash H"
    and "is_ascii (py_lower (py_strip em))" "py_lower (py_strip em') = py_lower (py_strip em)"
    and "send (py_lower (py_strip em)) (otp_code n) = Inr ()"
    and "0 < ouros_email_otp_max_attempts (otp_settings s)"
    and "t_save \<le> t_load" "py_int t_load < py_int t_exp + ouros_email_otp_ttl_seconds (otp_settings s)"
    and "py_int t_now < py_int t_exp + ouros_email_otp_ttl_seconds (otp_settings s)"
  shows "\<exists>ch st1 st2. otp_start R J H send token n t_exp t_save em (s, r) = (Inr ch, st1) \<and>
    ch_id ch = token \<and>
    otp_verify R J H (t_load, t_now, t_save') token em' (otp_code n) st1 = (Inr (), st2) \<and>
    (\<forall>ts em'' code. fst (otp_verify R J H ts token em'' code st2) = Inl EmailOtpInvalidError)"
proof -
  obtain key where key: "ouros_email_otp_hmac_secret (otp_settings s) = Some key"
    using require_ready_secret [OF assms(2)] by blast
  define s1 where "s1 = otp_put t_save token (login_record (H key (token @ '':'' @ otp_code n)) (py_lower (py_strip em))
      (py_int t_exp + ouros_email_otp_ttl_seconds (otp_settings s))) s"
  have start: "\<exists>ch. otp_start R J H send token n t_exp t_save em (s, r) = (Inr ch, s1, r) \<and> ch_id ch = token"
    using otp_start_memory [of s key send em n R J H token t_exp t_save r] assms(1,2,6) key
    by (simp add: s1_def)
  have acc: "otp_verify R J H (t_load, t_now, t_save') token em' (otp_code n) (s1, r) =
      (Inr (), otp_remove token (otp_sweep t_load s1), r)"
    unfolding s1_def by (rule otp_verify_started [OF assms(1-3) key assms(4,5,7-10)])
  have s1: "otp_in_memory s1" "require_ready s1 = Inr ()" using assms(1,2) by (simp_all add: s1_def)
  have "fst (otp_verify R J H ts token em'' code (otp_remove token (otp_sweep t_load s1), r)) = Inl EmailOtpInvalidError"
    for ts em'' code
    using verify_removed [of "otp_sweep t_load s1" R J H ts token em'' code r] s1 by auto
  with start acc show ?thesis by blast
qed

theorem login_challenge_once_witness:
  "\<exists>ch st1 st2. otp_start example_redis example_codec example_hash (\<lambda>_ _. Inr ()) ''tok'' 42 100 100 '' A@b.c''
      (init_otp example_settings, []) = (Inr ch, st1) \<and> ch_id ch = ''tok'' \<and>
    otp_verify example_redis example_codec example_hash (399, 399, 399) ''tok'' ''a@B.c '' (otp_code 42) st1
      = (Inr (), st2) \<and>
    (\<forall>ts em'' code. fst (otp_verify example_redis example_codec example_hash ts ''tok'' em'' code st2)
       = Inl EmailOtpInvalidError)"
  by (rule login_challenge_once)
    simp_all

lemma otp_verify_InrE:
  assumes "otp_verify R J H (t_load, t_now, t_save) c em code st = (Inr (), st')"
  obtains rec st1 where "otp_load R J None c t_load st = (Inr (Some rec), st1)"
    and "verify_decide H (fst st1) c em code t_now rec = Accept" and "otp_delete R None c st1 = (Inr (), st')"
proof -
  obtain loaded st1 where l: "otp_load R J None c t_load st = (Inr loaded, st1)"
    and f: "(case loaded of None \<Rightarrow> (Inl EmailOtpInvalidError, st1)
        | Some rec \<Rightarrow> verify_act R J c t_save (verify_decide H (fst st1) c em code t_now rec) st1)
      = (Inr (), st')"
    using assms by (auto simp: otp_verify_def split: sum.splits elim!: and_then_InrE)
  then obtain rec where rec: "loaded = Some rec"
    and act: "verify_act R J c t_save (verify_decide H (fst st1) c em code t_now rec) st1 = (Inr (), st')"
    by (auto split: option.splits)
  from act have "verify_decide H (fst st1) c em code t_now rec = Accept"
      "otp_delete R None c st1 = (Inr (), st')"
    by (auto simp: verify_act_def split: verify_action.splits elim!: and_then_InrE)
  with l rec that show thesis by simp
qed

text \<open>Whatever the store and whatever Redis answers, a verification that succeeds has loaded a
  record for this challenge id whose email is the normalised one presented, whose digest is the
  keyed hash of the challenge id and the presented code, which has not expired at the clock
  reading of the check, and on which fewer than the maximal number of attempts were counted.\<close>

lemma login_accept_sound:
  assumes "otp_verify R J H (t_load, t_now, t_save) c em code st = (Inr (), st')"
  shows "\<exists>rec st1 key expires_at attempts.
    otp_load R J None c t_load st = (Inr (Some rec), st1) \<and>
    ouros_email_otp_hmac_secret (otp_settings (fst st1)) = Some key \<and>
    dget rec ''email'' = PStr (py_lower (py_strip em)) \<and>
    dget rec ''code_digest'' = PStr (H key (c @ '':'' @ code)) \<and>
    as_int (dget rec ''expires_at'') = Some expires_at \<and> py_int t_now < expires_at \<and>
    as_int (dget rec ''attempts'') = Some attempts \<and>
    attempts < ouros_email_otp_max_attempts (otp_settings (fst st1)) \<and>
    otp_delete R None c st1 = (Inr (), st')"
proof -
  obtain rec st1 where "otp_load R J None c t_load st = (Inr (Some rec), st1)"
    and "verify_decide H (fst st1) c em code t_now rec = Accept" and "otp_delete R None c st1 = (Inr (), st')"
    using assms by (rule otp_verify_InrE)
  then show ?thesis by (auto dest!: verify_decide_Accept)
qed

section \<open>The number of guesses\<close>

text \<open>A guess: the three clock readings of the verification, the email and the code.\<close>

type_synonym guess = "(seconds \<times> seconds \<times> seconds) \<times> string \<times> string"

fun guess_run ::
  "('r, 'j) redis \<Rightarrow> 'j codec \<Rightarrow> (string \<Rightarrow> string \<Rightarrow> string) \<Rightarrow> string \<Rightarrow> guess list
    \<Rightarrow> otp \<times> 'r \<Rightarrow> otp \<times> 'r" where
  "guess_run R J H c [] st = st"
| "guess_run R J H c ((ts, em, code) # gs) st =
     guess_run R J H c gs (snd (otp_verify R J H ts c em code st))"

definition readings :: "guess list \<Rightarrow> seconds list" where
  "readings gs = concat (map (\<lambda>((t_load, t_now, t_save), _, _). [t_load, t_now, t_save]) gs)"

text \<open>From time \<open>t\<close> on, the challenge is gone or holds this digest with at least \<open>a\<close> attempts.\<close>

definition spent :: "seconds \<Rightarrow> string \<Rightarrow> string \<Rightarrow> string \<Rightarrow> int \<Rightarrow> otp \<Rightarrow> bool" where
  "spent t c em digest a s \<longleftrightarrow>
    (\<forall>t' \<ge> t. case otp_view t' s c of None \<Rightarrow> True
      | Some rec \<Rightarrow> \<exists>e a'. typed_record rec em digest e a' \<and> a \<le> a')"

lemma spentD:
  assumes "spent t c em digest a s" "t \<le> t'" "otp_view t' s c = Some rec"
  obtains e a' where "typed_record rec em digest e a'" "a \<le> a'"
  using assms by (auto simp: spent_def split: option.splits)

lemma spent_sweep: "otp_invar s \<Longrightarrow> spent t c em digest a s \<Longrightarrow> t \<le> u \<Longrightarrow> spent u c em digest a (otp_sweep u s)"
  by (auto simp: spent_def challenges.view_sweep)

lemma spent_removed: "otp_invar s \<Longrightarrow> spent t c em digest a (otp_remove c s)"
  by (simp add: spent_def challenges.view_remove)

lemma spent_put:
  assumes "otp_invar s" "typed_record rec em digest e a'" "a \<le> a'"
  shows "spent t c em digest a (otp_put t c rec s)"
  using assms by (auto simp: spent_def challenges.view_put)

lemma spent_later: "spent t c em digest a s \<Longrightarrow> t \<le> u \<Longrightarrow> spent u c em digest a s"
  by (auto simp: spent_def)

lemma wrong_guess_step:
  assumes "otp_in_memory s" "require_ready s = Inr ()" "ascii_hash H" "is_ascii em" "is_ascii digest"
    and "spent t c em digest a s" "t \<le> t_load" "t_load \<le> t_now" "t_now \<le> t_save"
    and "is_ascii (py_lower (py_strip em'))"
    and "\<forall>rec e a'. typed_record rec em digest e a' \<longrightarrow> \<not> login_match H s c em' code rec"
    and "otp_verify R J H (t_load, t_now, t_save) c em' code (s, r) = (res, s', r')"
  shows "res = Inl EmailOtpInvalidError \<and> r' = r \<and> otp_in_memory s' \<and> otp_settings s' = otp_settings s \<and>
    spent t_save c em digest (a + 1) s'"
proof (cases "otp_view t_load s c")
  case None
  have "otp_view t' (otp_sweep t_load s) c = None" if "t_save \<le> t'" for t'
    using None that assms(7-9) challenges.absent_later [OF _ None, of t']
    by (simp add: challenges.view_sweep otp_in_memoryD [OF assms(1)])
  with None assms(1,2,12) show ?thesis
    by (auto simp: otp_verify_memory spent_def)
next
  case (Some rec)
  then obtain e a' where typed: "typed_record rec em digest e a'" and a: "a \<le> a'"
    using assms(6,7) by (rule_tac spentD)
  have nm: "\<not> login_match H s c em' code rec" using assms(11) typed by blast
  have dec: "verify_decide H s c em' code t_now rec =
      (if e \<le> py_int t_now \<or> ouros_email_otp_max_attempts (otp_settings s) \<le> a' \<or>
          ouros_email_otp_max_attempts (otp_settings s) \<le> a' + 1
       then Reject_delete
       else Reject_save (AList.update ''attempts'' (PInt (a' + 1)) rec) (max (e - py_int t_now) 1))"
    using verify_decide_typed [OF typed assms(2,4,5,10)] assms(3) nm by (simp add: ascii_hash_def)
  have inv: "otp_invar (otp_sweep t_load s)" using assms(1) by (simp add: otp_in_memoryD)
  note upd = typed_record_attempts [OF typed, of "a' + 1"]
  from Some dec assms(1,2,12) show ?thesis
    using spent_removed [OF inv] spent_put [OF inv upd] a
    by (auto simp: otp_verify_memory split: if_splits)
qed

lemma require_ready_cong: "otp_settings s = otp_settings s' \<Longrightarrow> require_ready s = require_ready s'"
  by (simp add: require_ready_def)

lemma guess_run_spent:
  assumes "otp_in_memory s" "require_ready s = Inr ()" "ascii_hash H" "is_ascii em" "is_ascii digest"
    and "spent t c em digest a s" "sorted (t # readings gs)"
    and "\<forall>(ts, em', code) \<in> set gs. is_ascii (py_lower (py_strip em')) \<and>
      (\<forall>rec e a'. typed_record rec em digest e a' \<longrightarrow> \<not> login_match H s c em' code rec)"
    and "guess_run R J H c gs (s, r) = (s', r')"
  shows "otp_in_memory s' \<and> otp_settings s' = otp_settings s \<and>
    spent (last (t # readings gs)) c em digest (a + int (length gs)) s'"
  using assms
proof (induction gs arbitrary: s t a r)
  case Nil
  then show ?case by (simp add: readings_def)
next
  case (Cons g gs)
  obtain t_load t_now t_save em' code where g: "g = ((t_load, t_now, t_save), em', code)"
    by (metis prod.collapse)
  obtain res s1 r1 where v: "otp_verify R J H (t_load, t_now, t_save) c em' code (s, r) = (res, s1, r1)"
    by (metis prod.collapse)
  have rd: "readings (g # gs) = t_load # t_now # t_save # readings gs" by (simp add: readings_def g)
  have times: "t \<le> t_load" "t_load \<le> t_now" "t_now \<le> t_save" "sorted (t_save # readings gs)"
    using Cons.prems(7) unfolding rd by simp_all
  have guess: "is_ascii (py_lower (py_strip em'))"
      "\<forall>rec e a'. typed_record rec em digest e a' \<longrightarrow> \<not> login_match H s c em' code rec"
    using Cons.prems(8) by (simp_all add: g)
  have step: "r1 = r" "otp_in_memory s1" "otp_settings s1 = otp_settings s"
      "spent t_save c em digest (a + 1) s1"
    using wrong_guess_step [OF Cons.prems(1-6) times(1-3) guess v] by simp_all
  have "require_ready s1 = Inr ()" "\<And>rec. login_match H s1 c em code rec = login_match H s c em code rec"
    for em code
    using Cons.prems(2) step(3) require_ready_cong [of s1 s] by (simp_all add: login_match_def)
  moreover note times(4)
  moreover have "guess_run R J H c gs (s1, r1) = (s', r')" using Cons.prems(9) by (simp add: g v)
  ultimately have "otp_in_memory s' \<and> otp_settings s' = otp_settings s1 \<and>
      spent (last (t_save # readings gs)) c em digest (a + 1 + int (length gs)) s'"
    using Cons.IH [OF step(2) _ Cons.prems(3-5) step(4)] Cons.prems(8) by simp
  then show ?case using step(3) by (simp add: rd algebra_simps)
qed

text \<open>C6: After a start in the in-process store for an ASCII email, as many wrong guesses on the
  challenge as the configured maximum, each with an ASCII email and either another email or a code
  with another keyed hash, one after the other at increasing times, leave a challenge nobody can
  complete: any further verification of that challenge id with an ASCII email, the right email
  and code included, fails. Guesses with a non-ASCII email are not among these: they are not
  counted at all, as shown below.\<close>

theorem login_guess_bound:
  assumes "otp_in_memory s" "require_ready s = Inr ()" "ascii_hash H"
    and "ouros_email_otp_hmac_secret (otp_settings s) = Some key"
    and "is_ascii (py_lower (py_strip em))"
    and "send (py_lower (py_strip em)) (otp_code n) = Inr ()"
    and "otp_start R J H send c n t_exp t_start em (s, r) = (Inr ch, s1, r1)"
    and "sorted (t_start # readings gs @ [t_load, t_now])"
    and "\<forall>(ts, em', code) \<in> set gs. is_ascii (py_lower (py_strip em')) \<and>
      (py_lower (py_strip em') = py_lower (py_strip em) \<longrightarrow>
        H key (c @ '':'' @ code) \<noteq> H key (c @ '':'' @ otp_code n))"
    and "ouros_email_otp_max_attempts (otp_settings s) \<le> int (length gs)"
    and "guess_run R J H c gs (s1, r1) = (s2, r2)" and "is_ascii (py_lower (py_strip em''))"
  shows "fst (otp_verify R J H (t_load, t_now, t_save) c em'' code (s2, r2)) = Inl EmailOtpInvalidError"
proof -
  let ?em = "py_lower (py_strip em)" and ?digest = "H key (c @ '':'' @ otp_code n)"
  let ?rec = "login_record ?digest ?em (py_int t_exp + ouros_email_otp_ttl_seconds (otp_settings s))"
  have s1: "s1 = otp_put t_start c ?rec s"
    using assms(7) otp_start_memory [OF assms(1,2,4), of send em n R J H c t_exp t_start r] assms(6) by simp
  have digest: "is_ascii ?digest" using assms(3) by (simp add: ascii_hash_def)
  have ready: "otp_in_memory s1" "require_ready s1 = Inr ()" "otp_settings s1 = otp_settings s"
    using assms(1,2) by (simp_all add: s1)
  have "spent t_start c ?em ?digest 0 s1"
    unfolding s1 by (rule spent_put [OF otp_in_memoryD [OF assms(1)] typed_login_record]) simp
  moreover have "\<forall>(ts, em', code) \<in> set gs. is_ascii (py_lower (py_strip em')) \<and>
      (\<forall>rec e a'. typed_record rec ?em ?digest e a' \<longrightarrow> \<not> login_match H s1 c em' code rec)"
    using assms(4,9) by (fastforce simp: login_match_def typed_record_def ready(3))
  moreover have "sorted (t_start # readings gs)" using assms(8) by (simp add: sorted_append)
  ultimately have s2: "otp_in_memory s2 \<and> otp_settings s2 = otp_settings s1 \<and>
      spent (last (t_start # readings gs)) c ?em ?digest (0 + int (length gs)) s2"
    using guess_run_spent [OF ready(1,2) assms(3,5) digest _ _ _ assms(11)] by blast
  have last: "last (t_start # readings gs) \<le> t_load"
    using assms(8) by (auto simp: sorted_append)
  have ready2: "require_ready s2 = Inr ()"
    using s2 ready require_ready_cong [of s2 s1] by simp
  show ?thesis
  proof (cases "otp_view t_load s2 c")
    case None
    then show ?thesis using s2 ready2 by (simp add: otp_verify_memory)
  next
    case (Some rec)
    then obtain e a' where typed: "typed_record rec ?em ?digest e a'" and a': "int (length gs) \<le> a'"
      using s2 last by (metis add_0 spentD)
    then have "verify_decide H s2 c em'' code t_now rec = Reject_delete"
      using verify_decide_typed [OF typed ready2 assms(5) digest assms(12)] assms(3,10) s2 ready(3)
      by (simp add: ascii_hash_def)
    with Some show ?thesis using s2 ready2 by (simp add: otp_verify_memory)
  qed
qed

theorem login_guess_bound_witness:
  "\<exists>ch s1 r1 s2 r2.
     otp_start example_redis example_codec example_hash (\<lambda>_ _. Inr ()) ''t'' 42 100 100 ''a@b.c''
       (init_otp example_settings, []) = (Inr ch, s1, r1) \<and>
     guess_run example_redis example_codec example_hash ''t''
       (replicate 5 ((101, 101, 101), ''a@b.c'', ''999999'')) (s1, r1) = (s2, r2) \<and>
     fst (otp_verify example_redis example_codec example_hash (110, 110, 110) ''t'' ''a@b.c''
       (otp_code 42) (s2, r2)) = Inl EmailOtpInvalidError"
proof -
  let ?gs = "replicate 5 ((101, 101, 101), ''a@b.c'', ''999999'') :: guess list"
  obtain ch s1 r1 where st: "otp_start example_redis example_codec example_hash (\<lambda>_ _. Inr ()) ''t'' 42 100 100
      ''a@b.c'' (init_otp example_settings, []) = (Inr ch, s1, r1)"
    by (simp add: otp_start_memory)
  obtain s2 r2 where run: "guess_run example_redis example_codec example_hash ''t'' ?gs (s1, r1) = (s2, r2)"
    by (metis prod.collapse)
  have times: "sorted (100 # readings ?gs @ [110, 110])"
    by (simp add: readings_def eval_nat_numeral)
  have hash: "example_hash k (''t'' @ '':'' @ ''999999'') \<noteq> example_hash k (''t'' @ '':'' @ otp_code 42)" for k
    by code_simp
  have "fst (otp_verify example_redis example_codec example_hash (110, 110, 110) ''t'' ''a@b.c''
       (otp_code 42) (s2, r2)) = Inl EmailOtpInvalidError"
    by (rule login_guess_bound [OF _ _ _ _ _ _ st times _ _ run]) (use hash in auto)
  with st run show ?thesis by blast
qed

section \<open>Two defects of the verification\<close>

lemma otp_load_SomeD:
  assumes "otp_load R J None c t (s, r) = (Inr (Some rec), s1, r1)" "otp_invar s"
  shows "otp_settings s1 = otp_settings s \<and>
    (if redis_url (otp_settings s) = None then s1 = otp_sweep t s \<and> otp_view t s c = Some rec
     else \<exists>stored. r_get R (full_key None c) r1 = Some stored \<and> j_loads J stored = Some (PDict rec))"
proof (cases "redis_url (otp_settings s) = None")
  case True
  then have "otp_in_memory s" using assms(2) by (simp add: otp_in_memory_def)
  then show ?thesis using assms(1) True by (auto simp: otp_load_memory)
next
  case False
  obtain raw s2 r2 where cmd: "otp_command R ''Redis read failed'' (\<lambda>r. (r_get R (full_key None c) r, r)) (s, r)
      = (Inr raw, s2, r2)"
    using assms(1) False by (auto simp: otp_load_def elim!: and_then_InrE)
  have raw: "raw = r_get R (full_key None c) r2" "otp_settings s2 = otp_settings s"
    using cmd False unfolding otp_command_def
    by (auto simp: otp_redis_client_def redis_call_def split: if_splits prod.splits net.splits option.splits
        elim!: and_then_InrE)
  then obtain stored where stored: "raw = Some stored" "j_loads J stored = Some (PDict rec)" and st: "s1 = s2" "r1 = r2"
    using assms(1) False cmd
    by (auto simp: otp_load_def split: option.splits pyval.splits elim!: and_then_InrE)
  have "r_get R (full_key None c) r1 = Some stored" using raw(1) stored(1) st(2) by simp
  then show ?thesis using stored(2) raw(2) st(1) False by auto
qed

text \<open>C36: When the presented email has a non-ASCII character (which the request validation lets
  through), a verification that loads a well-typed, unexpired login challenge with attempts left,
  from the process or from Redis, raises \<open>TypeError\<close> from \<open>hmac.compare_digest\<close> on two strings
  instead of the generic error, and no attempt is counted: it leaves the state of the load, in
  which the stored challenge is the one it was.\<close>

theorem non_ascii_email_escapes_uncounted:
  assumes "require_ready s = Inr ()" "otp_invar s"
    and "otp_load R J None c t_load (s, r) = (Inr (Some rec), s1, r1)" "typed_record rec rem digest e a"
    and "py_int t_now < e" "a < ouros_email_otp_max_attempts (otp_settings s)"
    and "\<not> is_ascii (py_lower (py_strip em))" and "t_load \<le> t_now"
  shows "otp_verify R J H (t_load, t_now, t_save) c em code (s, r) = (Inl TypeError, s1, r1) \<and>
    (if redis_url (otp_settings s) = None then otp_view t_now s1 c = Some rec
     else \<exists>stored. r_get R (full_key None c) r1 = Some stored \<and> j_loads J stored = Some (PDict rec))"
proof -
  obtain key where key: "ouros_email_otp_hmac_secret (otp_settings s) = Some key"
    using require_ready_secret [OF assms(1)] by blast
  note load = otp_load_SomeD [OF assms(3,2)]
  have "verify_decide H s1 c em code t_now rec = Escape TypeError"
    using assms(4-7) key load
    by (simp add: verify_decide_def typed_record_def code_digest_def compare_digest_str_def Let_def)
  then have "otp_verify R J H (t_load, t_now, t_save) c em code (s, r) = (Inl TypeError, s1, r1)"
    using assms(1,3) by (simp add: otp_verify_def verify_act_def)
  moreover have "otp_view t_now (otp_sweep t_load s) c = Some rec" if "otp_view t_load s c = Some rec"
    using that assms(2,4,5) live_typed [OF assms(4)]
    by (simp add: challenges.view_sweep assms(8) challenges.view_later [OF assms(8)])
  ultimately show ?thesis using load by auto
qed

theorem non_ascii_email_escapes_uncounted_witness:
  "validate_email_shape (''jos'' @ [CHR 0xE9] @ ''@b.c'') = Inr (''jos'' @ [CHR 0xE9] @ ''@b.c'') \<and>
   fst (otp_verify example_redis example_codec example_hash (100, 100, 100) ''t''
     (''jos'' @ [CHR 0xE9] @ ''@b.c'') ''000042''
     (otp_put 90 ''t'' (login_record ''d'' ''a@b.c'' 150) (init_otp example_settings), [])) = Inl TypeError \<and>
   (let r = [(full_key None ''t'', PDict (login_record ''d'' ''a@b.c'' 150))];
        s = (init_otp (example_settings\<lparr>redis_url := Some ''redis://r''\<rparr>))\<lparr>otp_redis := True\<rparr>
    in otp_verify example_redis example_codec example_hash (100, 100, 100) ''t''
     (''jos'' @ [CHR 0xE9] @ ''@b.c'') ''000042'' (s, r) = (Inl TypeError, s, r))"
proof (intro conjI)
  show "validate_email_shape (''jos'' @ [CHR 0xE9] @ ''@b.c'') = Inr (''jos'' @ [CHR 0xE9] @ ''@b.c'')"
    by code_simp
  let ?rec = "login_record ''d'' ''a@b.c'' 150"
  let ?s = "otp_put 90 ''t'' ?rec (init_otp example_settings)"
  have view: "otp_view 100 ?s ''t'' = Some ?rec"
    by (rule challenges.view_put_same)
      (simp_all add: otp_in_memoryD live_typed [OF typed_login_record])
  have nonascii: "\<not> is_ascii (py_lower (py_strip (''jos'' @ [CHR 0xE9] @ ''@b.c'')))" by code_simp
  have load: "otp_load example_redis example_codec None ''t'' 100 (?s, []) = (Inr (Some ?rec), otp_sweep 100 ?s, [])"
    using view by (simp add: otp_load_memory)
  show "fst (otp_verify example_redis example_codec example_hash (100, 100, 100) ''t''
     (''jos'' @ [CHR 0xE9] @ ''@b.c'') ''000042'' (?s, [])) = Inl TypeError"
    using non_ascii_email_escapes_uncounted [OF _ _ load typed_login_record _ _ nonascii, where t_now = 100]
    by (simp add: otp_in_memoryD)
  let ?r = "[(full_key None ''t'', PDict ?rec)]"
  let ?s2 = "(init_otp (example_settings\<lparr>redis_url := Some ''redis://r''\<rparr>))\<lparr>otp_redis := True\<rparr>"
  have load2: "otp_load example_redis example_codec None ''t'' 100 (?s2, ?r) = (Inr (Some ?rec), ?s2, ?r)"
    by (simp add: otp_load_def otp_command_def otp_redis_client_def init_otp_def example_codec_def)
  have "require_ready ?s2 = Inr ()" "otp_invar ?s2" "ouros_email_otp_max_attempts (otp_settings ?s2) = 5"
    by (simp_all add: require_ready_def init_otp_def example_settings_def default_settings_def otp_invar_def)
  with non_ascii_email_escapes_uncounted [OF _ _ load2 typed_login_record _ _ nonascii, where t_now = 100]
  show "let r = ?r; s = ?s2 in otp_verify example_redis example_codec example_hash (100, 100, 100) ''t''
     (''jos'' @ [CHR 0xE9] @ ''@b.c'') ''000042'' (s, r) = (Inl TypeError, s, r)"
    by (simp add: Let_def)
qed



end
