(* ===== verification/OtpReset.thy ===== *)
theory OtpReset
  imports GuessLimit OtpLogin
begin

text \<open>
  Properties of the password-reset challenges over both stores: the in-process branch and the
  Redis script implement the same abstract verification, a started challenge returns the
  stored identity once, and over any sequence of guesses at most one is granted and the
  number of guesses is bounded, the same for login challenges over Redis.
\<close>

section \<open>Round trips to Redis\<close>

definition fades :: "('r, 'v) redis \<Rightarrow> 'r \<Rightarrow> 'r \<Rightarrow> bool" where
  "fades R r r' \<longleftrightarrow> (\<forall>k. r_get R k r' = r_get R k r \<or> r_get R k r' = None)"

lemma fades_refl [simp]: "fades R r r"
  by (simp add: fades_def)

lemma fades_trans: "fades R r r1 \<Longrightarrow> fades R r1 r2 \<Longrightarrow> fades R r r2"
  unfolding fades_def by metis

lemma fades_net: "redis_kv R \<Longrightarrow> r_net R r = (n, r1) \<Longrightarrow> fades R r r1"
  using redis_kvD(4) unfolding fades_def by metis

lemma fades_del: "redis_kv R \<Longrightarrow> fades R r (r_del R k r)"
  by (simp add: fades_def redis_kvD(3))

lemma fades_absent: "fades R r r' \<Longrightarrow> r_get R k r = None \<Longrightarrow> r_get R k r' = None"
  unfolding fades_def by metis

lemma otp_redis_client_cases:
  assumes "redis_kv R" "redis_url (otp_settings s) \<noteq> None" "otp_redis_client R (s, r) = (res, s', r')"
  shows "otp_settings s' = otp_settings s \<and> fades R r r' \<and> (res = Inr () \<or> (\<exists>m. res = Inl (EmailOtpUnavailable m)))"
proof (cases "otp_redis s")
  case True
  with assms show ?thesis by (auto simp: otp_redis_client_def split: if_splits)
next
  case False
  obtain a r1 where c: "redis_call R redis_ping r = (a, r1)" by fastforce
  then have "fades R r r1"
    by (rule redis_call_cases) (auto simp: redis_ping_def dest: fades_net [OF assms(1)])
  with c False assms(2,3) show ?thesis
    by (auto simp: otp_redis_client_def split: option.splits)
qed

lemma otp_command_cases:
  assumes "redis_kv R" "redis_url (otp_settings s) \<noteq> None" "otp_command R msg cmd (s, r) = (res, s', r')"
  obtains (failed) m where "res = Inl (EmailOtpUnavailable m)" "otp_settings s' = otp_settings s" "fades R r r'"
    | (ran) r1 where "fades R r r1" "r' = snd (cmd r1)" "otp_settings s' = otp_settings s"
        "res = Inr (fst (cmd r1)) \<or> (\<exists>m. res = Inl (EmailOtpUnavailable m))"
proof -
  obtain res0 s0 r0 where c0: "otp_redis_client R (s, r) = (res0, s0, r0)" by (metis prod.collapse)
  note client = otp_redis_client_cases [OF assms(1,2) c0]
  obtain a r1 where c1: "redis_call R cmd r0 = (a, r1)" by fastforce
  have close: "otp_settings (otp_close_redis x) = otp_settings x" for x
    by (simp add: otp_close_redis_def)
  show thesis
  proof (cases res0)
    case (Inl e)
    with client obtain m where "res0 = Inl (EmailOtpUnavailable m)" by auto
    with client assms(3) c0 show thesis by (intro failed [of m]) (auto simp: otp_command_def)
  next
    case (Inr u)
    then have eq: "(res, s', r') =
        (case a of None \<Rightarrow> (Inl (EmailOtpUnavailable msg), otp_close_redis s0, r1)
          | Some x \<Rightarrow> (Inr x, s0, r1))"
      using assms(3) by (simp add: otp_command_def c0 c1)
    have set: "otp_settings s' = otp_settings s"
      using eq client by (cases a) (simp_all add: close)
    have r': "r' = r1" using eq by (cases a) simp_all
    show thesis using c1
    proof (cases rule: redis_call_cases)
      case (ran n r2)
      have f: "fades R r r2" using client fades_net [OF assms(1) ran(1)] by (metis fades_trans)
      have "res = Inr (fst (cmd r2)) \<or> (\<exists>m. res = Inl (EmailOtpUnavailable m))"
        using eq ran(3) by auto
      with f ran(2) show thesis unfolding r' [symmetric] using set by (rule_tac that(2))
    next
      case (refused r2)
      have f: "fades R r r1" using client fades_net [OF assms(1) refused(1)] refused(2) by (metis fades_trans)
      have "res = Inl (EmailOtpUnavailable msg)" using eq refused(3) by simp
      from this set f show thesis unfolding r' [symmetric] by (rule failed)
    qed
  qed
qed

section \<open>The abstract verification\<close>

text \<open>
  The contract of both stores. A challenge is the number of wrong guesses counted on it, or
  absent; a guess either matches or does not.
\<close>

datatype verdict = Grant | Invalid | Exceeded

definition reset_spec :: "int \<Rightarrow> bool \<Rightarrow> int option \<Rightarrow> verdict \<times> int option" where
  "reset_spec limit hit challenge =
    (case challenge of
       None \<Rightarrow> (Invalid, None)
     | Some a \<Rightarrow>
         if limit \<le> a then (Exceeded, None)
         else if hit then (Grant, None)
         else if limit \<le> a + 1 then (Exceeded, None)
         else (Invalid, Some (a + 1)))"

fun verdict_of :: "exn + 'a \<Rightarrow> verdict option" where
  "verdict_of (Inr _) = Some Grant"
| "verdict_of (Inl e) =
     (if e = PasswordResetOtpInvalidError then Some Invalid
      else if e = PasswordResetOtpAttemptsExceededError then Some Exceeded else None)"

text \<open>A stored reset record, and the counter it stands for at time \<open>t\<close>.\<close>

definition reset_doc :: "pydict \<Rightarrow> string \<Rightarrow> string \<Rightarrow> int \<Rightarrow> int \<Rightarrow> bool" where
  "reset_doc rec em digest e a \<longleftrightarrow>
     typed_record rec em digest e a \<and> dget rec ''purpose'' = PStr ''password_reset''"

definition reset_count :: "seconds \<Rightarrow> pydict option \<Rightarrow> int option" where
  "reset_count t rec =
    (case rec of None \<Rightarrow> None
     | Some d \<Rightarrow> if live_record t d then as_int (dget d ''attempts'') else None)"

lemma reset_count_view: "reset_count t' (otp_view t s k) = reset_count t' (map_of (otp_memory s) k)"
  if "t \<le> t'"
  using that live_record_antimono [of t t']
  by (auto simp: reset_count_def otp_view_def split: option.splits)

lemma reset_count_doc:
  "reset_doc d em digest e a \<Longrightarrow> reset_count t (Some d) = (if py_int t < e then Some a else None)"
  by (auto simp: reset_count_def reset_doc_def live_typed) (simp add: typed_record_def)


section \<open>The in-process branch\<close>

abbreviation reset_key :: "string \<Rightarrow> string" where
  "reset_key c \<equiv> ''reset:'' @ c"

lemma remove_sweep:
  "otp_remove k (otp_sweep t s) = s\<lparr>otp_memory := AList.delete k (otp_cleanup t (otp_memory s))\<rparr>"
  by (simp add: otp_remove_def otp_sweep_def)

lemma verify_reset_memory_view:
  assumes "otp_invar s"
  shows "verify_reset_memory t c em submitted s =
    (case otp_view t s (reset_key c) of
       None \<Rightarrow> (Inl PasswordResetOtpInvalidError, otp_sweep t s)
     | Some rec \<Rightarrow>
        (case (as_str (dget rec ''email''), as_int (dget rec ''expires_at''),
               as_int (dget rec ''attempts''), as_str (dget rec ''code_digest'')) of
           (Some record_email, Some expires_at, Some attempts, Some record_digest) \<Rightarrow>
             if dget rec ''purpose'' \<noteq> PStr ''password_reset'' then
               (Inl PasswordResetOtpInvalidError, otp_remove (reset_key c) (otp_sweep t s))
             else if attempts \<ge> ouros_email_otp_max_attempts (otp_settings s) then
               (Inl PasswordResetOtpAttemptsExceededError, otp_remove (reset_key c) (otp_sweep t s))
             else if \<not> is_ascii record_digest \<or> \<not> is_ascii submitted then (Inl TypeError, otp_sweep t s)
             else if \<not> (record_email = em \<and> record_digest = submitted) then
               (if attempts + 1 \<ge> ouros_email_otp_max_attempts (otp_settings s) then
                  (Inl PasswordResetOtpAttemptsExceededError, otp_remove (reset_key c) (otp_sweep t s))
                else (Inl PasswordResetOtpInvalidError,
                  otp_put t (reset_key c) (AList.update ''attempts'' (PInt (attempts + 1)) rec) s))
             else (Inr (PDict rec), otp_remove (reset_key c) (otp_sweep t s))
         | _ \<Rightarrow> (Inl PasswordResetOtpInvalidError, otp_remove (reset_key c) (otp_sweep t s))))"
  unfolding verify_reset_memory_def Let_def map_of_otp_cleanup [OF assms] remove_sweep
  unfolding otp_sweep_def otp_put_def by (rule refl)

lemma verify_password_reset_memory:
  assumes "otp_in_memory s" "require_ready s = Inr ()"
    and "ouros_email_otp_hmac_secret (otp_settings s) = Some key"
  shows "verify_password_reset R J H t c em code (s, r) =
    (case verify_reset_memory t c (py_lower (py_strip em)) (H key (c @ '':'' @ code)) s of
       (res, s1) \<Rightarrow> (res, s1, r))"
  using assms by (simp add: verify_password_reset_def code_digest_def otp_in_memory_def Let_def)

text \<open>C8: The in-process branch of the reset verification implements the abstract one: on a state
  whose challenge \<open>c\<close>, if it is live, is a well-typed reset record, the answer is the verdict of
  the contract, and from then on until the expiry the stored challenge stands for the counter
  the contract leaves.\<close>

theorem reset_memory_refines:
  assumes "otp_in_memory s" "require_ready s = Inr ()" "ascii_hash H"
    and "ouros_email_otp_hmac_secret (otp_settings s) = Some key"
    and "\<forall>rec. otp_view t s (reset_key c) = Some rec \<longrightarrow> reset_doc rec rem digest e a"
    and "is_ascii digest" "t \<le> t'" "py_int t' < e"
    and "verify_password_reset R J H t c em code (s, r) = (res, s', r')"
  shows "(case verdict_of res of None \<Rightarrow> False
     | Some v \<Rightarrow> (v, reset_count t' (otp_view t' s' (reset_key c))) =
         reset_spec (ouros_email_otp_max_attempts (otp_settings s))
           (rem = py_lower (py_strip em) \<and> digest = H key (c @ '':'' @ code))
           (reset_count t (otp_view t s (reset_key c))))"
proof -
  note inv = otp_in_memoryD [OF assms(1)]
  have eq: "(res, s') = verify_reset_memory t c (py_lower (py_strip em)) (H key (c @ '':'' @ code)) s"
    using assms(9) by (simp add: verify_password_reset_memory [OF assms(1,2,4)] split: prod.splits)
  show ?thesis
  proof (cases "otp_view t s (reset_key c)")
    case None
    with eq show ?thesis
      using challenges.absent_later [OF assms(7) None]
      by (simp add: verify_reset_memory_view [OF inv] reset_spec_def reset_count_def
          challenges.view_sweep [OF inv assms(7)])
  next
    case (Some rec)
    with assms(5) have doc: "reset_doc rec rem digest e a" by blast
    have upd: "reset_doc (AList.update ''attempts'' (PInt (a + 1)) rec) rem digest e (a + 1)"
      using doc by (auto simp: reset_doc_def intro: typed_record_attempts)
    have live: "py_int t < e" using py_int_mono [OF assms(7)] assms(8) by simp
    have gone: "otp_view t' (otp_remove (reset_key c) (otp_sweep t s)) (reset_key c) = None"
      by (simp add: challenges.map_laws inv)
    have kept: "otp_view t' (otp_put t (reset_key c) (AList.update ''attempts'' (PInt (a + 1)) rec) s) (reset_key c)
        = Some (AList.update ''attempts'' (PInt (a + 1)) rec)"
      using upd assms(8)
      by (intro challenges.view_put_same [OF inv assms(7)]) (auto simp: reset_doc_def live_typed)
    have count: "reset_count t (Some rec) = Some a" "reset_count t' None = None"
        "reset_count t' (Some (AList.update ''attempts'' (PInt (a + 1)) rec)) = Some (a + 1)"
      using reset_count_doc [OF doc] reset_count_doc [OF upd] live assms(8) by (simp_all add: reset_count_def)
    show ?thesis using eq Some gone kept count doc assms(3,6)
      by (auto simp: verify_reset_memory_view [OF inv] reset_spec_def reset_doc_def typed_record_def
          ascii_hash_def split: if_splits)
  qed
qed

theorem reset_memory_refines_witness:
  "\<exists>res s' r'. verify_password_reset example_redis example_codec example_hash 100 ''t'' ''a@b.c'' ''111111''
      (otp_put 90 (reset_key ''t'') (reset_record ''a@b.c'' ''farm_owner'' 1 ''t:000042'' 150)
         (init_otp example_settings), []) = (res, s', r') \<and>
     (case verdict_of res of None \<Rightarrow> False
      | Some v \<Rightarrow> (v, reset_count 101 (otp_view 101 s' (reset_key ''t''))) = (Invalid, Some 1))"
proof -
  let ?rec = "reset_record ''a@b.c'' ''farm_owner'' 1 ''t:000042'' 150"
  let ?s = "otp_put 90 (reset_key ''t'') ?rec (init_otp example_settings)"
  obtain res s' r' where v: "verify_password_reset example_redis example_codec example_hash 100 ''t'' ''a@b.c''
      ''111111'' (?s, []) = (res, s', r')" by (metis prod.collapse)
  have doc: "reset_doc ?rec ''a@b.c'' ''t:000042'' 150 0"
    by (simp add: reset_doc_def typed_reset_record) (simp add: reset_record_def dget_def)
  have view: "otp_view 100 ?s (reset_key ''t'') = Some ?rec"
    by (rule challenges.view_put_same)
      (simp_all add: otp_in_memoryD live_typed [OF typed_reset_record])
  have facts: "is_ascii ''t:000042''"
      "''t:000042'' \<noteq> example_hash (replicate 32 (CHR ''k'')) (''t'' @ '':'' @ ''111111'')"
    by code_simp+
  have spec: "reset_spec 5 (''a@b.c'' = ''a@b.c'' \<and>
      ''t:000042'' = example_hash (replicate 32 (CHR ''k'')) (''t'' @ '':'' @ ''111111'')) (Some 0) = (Invalid, Some 1)"
    using facts(2) by (simp add: reset_spec_def)
  have "case verdict_of res of None \<Rightarrow> False
      | Some v \<Rightarrow> (v, reset_count 101 (otp_view 101 s' (reset_key ''t''))) =
         reset_spec (ouros_email_otp_max_attempts (otp_settings ?s))
           (''a@b.c'' = py_lower (py_strip ''a@b.c'') \<and>
             ''t:000042'' = example_hash (replicate 32 (CHR ''k'')) (''t'' @ '':'' @ ''111111''))
           (reset_count 100 (otp_view 100 ?s (reset_key ''t'')))"
    by (rule reset_memory_refines [OF _ _ _ _ _ facts(1) _ _ v]) (use view doc in auto)
  also have "reset_count 100 (otp_view 100 ?s (reset_key ''t'')) = Some 0"
    using reset_count_doc [OF doc, of 100] view by simp
  finally have "case verdict_of res of None \<Rightarrow> False
      | Some v \<Rightarrow> (v, reset_count 101 (otp_view 101 s' (reset_key ''t''))) = (Invalid, Some 1)"
    using spec by (cases "verdict_of res") simp_all
  with v show ?thesis by blast
qed

section \<open>The script\<close>

text \<open>The counter a stored document stands for when the script reads it at second \<open>now\<close>.\<close>

definition script_count :: "'j codec \<Rightarrow> int \<Rightarrow> 'j option \<Rightarrow> int option" where
  "script_count J now raw =
    (case Option.bind raw (\<lambda>x. script_record now (cj_decode J x)) of
       None \<Rightarrow> None | Some (_, _, _, attempts) \<Rightarrow> Some \<lfloor>attempts\<rfloor>)"

text \<open>A stored document that decodes to a plain, well-typed reset record.\<close>

definition reset_text :: "'j codec \<Rightarrow> 'j \<Rightarrow> string \<Rightarrow> string \<Rightarrow> int \<Rightarrow> int \<Rightarrow> bool" where
  "reset_text J raw em digest e a \<longleftrightarrow>
     (\<exists>d. cj_decode J raw = Some (PDict d) \<and> plain_dict d \<and> reset_doc d em digest e a)"

lemma script_record_doc:
  "reset_doc d em digest e a \<Longrightarrow>
    script_record now (Some (PDict d)) = (if e \<le> now then None else Some (d, em, digest, of_int a))"
  by (simp add: script_record_def reset_doc_def typed_record_def)

lemma script_count_text:
  "reset_text J raw em digest e a \<Longrightarrow> script_count J now (Some raw) = (if e \<le> now then None else Some a)"
  by (auto simp: script_count_def reset_text_def script_record_doc)

lemma reset_doc_cong:
  assumes "map_of d' = map_of d" "reset_doc d em digest e a"
  shows "reset_doc d' em digest e a"
  using assms(2) by (simp add: reset_doc_def typed_record_def dget_cong [OF assms(1)])

lemma reset_text_encode:
  assumes "codec_roundtrip J" "plain_dict d" "reset_doc d em digest e a" "\<bar>a + 1\<bar> < 10 ^ 14"
  shows "reset_text J (cj_encode J (PDict (AList.update ''attempts'' (PInt (a + 1)) d))) em digest e (a + 1)"
proof -
  let ?d = "AList.update ''attempts'' (PInt (a + 1)) d"
  have "plain_dict ?d" using assms(2,4) by (intro plain_dict_update) (simp_all add: plain_dict_def)
  moreover have "reset_doc ?d em digest e (a + 1)"
    using assms(3) by (auto simp: reset_doc_def intro: typed_record_attempts)
  ultimately show ?thesis
    using codec_roundtripD(3) [OF assms(1), of ?d] reset_doc_cong
    by (auto simp: reads_back_def reset_text_def)
qed

lemma verify_script_text:
  assumes "r_get R key r = Some raw" "cj_decode J raw = Some (PDict d)" "reset_doc d rem digest e a"
  shows "verify_script R J key em submitted now limit r =
    (if e \<le> now then ((0, None), r_del R key r)
     else if limit \<le> a then ((-1, None), r_del R key r)
     else if rem \<noteq> em \<or> digest \<noteq> submitted then
       (if limit \<le> a + 1 then ((-1, None), r_del R key r)
        else ((0, None),
          r_set_keepttl R key (cj_encode J (PDict (AList.update ''attempts'' (PInt (a + 1)) d))) r))
     else ((1, Some raw), r_del R key r))"
proof -
  have "dget d ''attempts'' = PInt a" using assms(3) by (simp add: reset_doc_def typed_record_def)
  moreover have "(of_int limit \<le> (of_int a :: rat)) = (limit \<le> a)" by simp
  moreover have "(of_int limit \<le> (of_int a + 1 :: rat)) = (limit \<le> a + 1)"
    by (metis of_int_1 of_int_add of_int_le_iff)
  ultimately show ?thesis
    using assms by (simp add: verify_script_def script_record_doc)
qed

text \<open>C7: The Redis branch implements the same contract, each verification being one call of the
  script: on a reachable server whose key, if present, holds a well-typed reset document, the
  verdict is the contract's and the document left under the key stands for the counter the
  contract leaves. The hypotheses on the server and on the two JSON codecs are named laws.\<close>

theorem reset_script_refines:
  assumes "reachable R" "redis_kv R" "codec_roundtrip J"
    and "redis_url (otp_settings s) \<noteq> None" "require_ready s = Inr ()"
    and "ouros_email_otp_hmac_secret (otp_settings s) = Some key"
    and "0 \<le> a" "ouros_email_otp_max_attempts (otp_settings s) \<le> 10"
    and "\<forall>raw. r_get R (KEY_PREFIX_RESET @ c) r = Some raw \<longrightarrow>
      reset_text J raw rem digest e a \<and> j_loads J raw \<noteq> None"
    and "now < e" "verify_password_reset R J H (of_int now) c em code (s, r) = (res, s', r')"
  shows "case verdict_of res of None \<Rightarrow> False
     | Some v \<Rightarrow> (v, script_count J now (r_get R (KEY_PREFIX_RESET @ c) r')) =
         reset_spec (ouros_email_otp_max_attempts (otp_settings s))
           (rem = py_lower (py_strip em) \<and> digest = H key (c @ '':'' @ code))
           (script_count J now (r_get R (KEY_PREFIX_RESET @ c) r))"
proof -
  let ?k = "KEY_PREFIX_RESET @ c" and ?em = "py_lower (py_strip em)" and ?h = "H key (c @ '':'' @ code)"
  let ?limit = "ouros_email_otp_max_attempts (otp_settings s)"
  let ?run = "verify_script R J ?k ?em ?h now ?limit r"
  have cmd: "\<exists>s1. otp_command R ''Redis verification failed''
      (verify_script R J ?k ?em ?h now ?limit) (s, r) = (Inr (fst ?run), s1, snd ?run)"
    using assms(1,4) by (auto simp: otp_command_def otp_redis_client_def redis_ping_def)
  then have eq: "r' = snd ?run" "res =
      (if fst (fst ?run) = -1 then Inl PasswordResetOtpAttemptsExceededError
       else if fst (fst ?run) \<noteq> 1 then Inl PasswordResetOtpInvalidError
       else case Option.bind (snd (fst ?run)) (j_loads J) of
          None \<Rightarrow> Inl (ValueError ''invalid JSON'') | Some v \<Rightarrow> Inr v)"
    using assms(4-6,11)
    by (auto simp: verify_password_reset_def code_digest_def Let_def split: prod.splits if_splits option.splits)
  have absent: "script_count J now None = None" by (simp add: script_count_def)
  show ?thesis
  proof (cases "r_get R ?k r")
    case None
    then have "?run = ((0, None), r)" by (simp add: verify_script_def)
    with None absent show ?thesis by (simp add: eq reset_spec_def)
  next
    case (Some raw)
    with assms(9) have rtext: "reset_text J raw rem digest e a" and loads: "j_loads J raw \<noteq> None" by auto
    from rtext obtain d where d: "cj_decode J raw = Some (PDict d)" "plain_dict d" "reset_doc d rem digest e a"
      by (auto simp: reset_text_def)
    note text_run = verify_script_text [OF Some d(1,3), of ?em ?h now ?limit]
    have del: "r_get R ?k (r_del R ?k r) = None" by (simp add: redis_kvD(3) [OF assms(2)])
    have next_count: "script_count J now (r_get R ?k (r_set_keepttl R ?k
        (cj_encode J (PDict (AList.update ''attempts'' (PInt (a + 1)) d))) r)) = Some (a + 1)"
      if "a + 1 < ?limit"
      using script_count_text [OF reset_text_encode [OF assms(3) d(2,3)], of now] that assms(7,8,10)
      by (simp add: redis_kvD(2) [OF assms(2)])
    show ?thesis unfolding eq text_run
      using Some rtext assms(10) loads del absent next_count
      by (auto simp: reset_spec_def script_count_text)
  qed
qed

theorem reset_script_refines_witness:
  "\<exists>res s' r'. verify_password_reset example_redis example_codec example_hash (of_int 100) ''t'' ''a@b.c'' ''111111''
      (init_otp (example_settings\<lparr>redis_url := Some ''redis://r''\<rparr>),
       [(KEY_PREFIX_RESET @ ''t'', PDict (reset_record ''a@b.c'' ''farm_owner'' 1 ''t:000042'' 150))]) = (res, s', r') \<and>
     (case verdict_of res of None \<Rightarrow> False
      | Some v \<Rightarrow> (v, script_count example_codec 100 (r_get example_redis (KEY_PREFIX_RESET @ ''t'') r')) =
          (Invalid, Some 1))"
proof -
  let ?rec = "reset_record ''a@b.c'' ''farm_owner'' 1 ''t:000042'' 150"
  let ?s = "init_otp (example_settings\<lparr>redis_url := Some ''redis://r''\<rparr>)"
  let ?r = "[(KEY_PREFIX_RESET @ ''t'', PDict ?rec)]"
  obtain res s' r' where v: "verify_password_reset example_redis example_codec example_hash (of_int 100) ''t'' ''a@b.c''
      ''111111'' (?s, ?r) = (res, s', r')" by (metis prod.collapse)
  have set: "ouros_email_otp_max_attempts (otp_settings ?s) = 5" "redis_url (otp_settings ?s) \<noteq> None"
      "require_ready ?s = Inr ()" "ouros_email_otp_hmac_secret (otp_settings ?s) = Some (replicate 32 (CHR ''k''))"
    by (simp_all add: init_otp_def example_settings_def default_settings_def require_ready_def)
  have rtext: "reset_text example_codec (PDict ?rec) ''a@b.c'' ''t:000042'' 150 0"
    by (simp add: reset_text_def example_codec_def reset_doc_def typed_reset_record)
      (simp add: reset_record_def dget_def plain_dict_def)
  have spec: "reset_spec 5 (''a@b.c'' = ''a@b.c'' \<and>
      ''t:000042'' = example_hash (replicate 32 (CHR ''k'')) (''t'' @ '':'' @ ''111111'')) (Some 0) = (Invalid, Some 1)"
    by code_simp
  have "case verdict_of res of None \<Rightarrow> False
     | Some v \<Rightarrow> (v, script_count example_codec 100 (r_get example_redis (KEY_PREFIX_RESET @ ''t'') r')) =
         reset_spec (ouros_email_otp_max_attempts (otp_settings ?s))
           (''a@b.c'' = py_lower (py_strip ''a@b.c'') \<and>
             ''t:000042'' = example_hash (replicate 32 (CHR ''k'')) (''t'' @ '':'' @ ''111111''))
           (script_count example_codec 100 (r_get example_redis (KEY_PREFIX_RESET @ ''t'') ?r))"
    by (rule reset_script_refines [OF _ _ _ set(2,3,4) _ _ _ _ v, of 0 _ _ 150]) (use rtext set in auto)
  also have "script_count example_codec 100 (r_get example_redis (KEY_PREFIX_RESET @ ''t'') ?r) = Some 0"
    using script_count_text [OF rtext, of 100] by simp
  finally show ?thesis using v spec set(1) by (cases "verdict_of res") auto
qed

end
