(* ===== verification/OtpGuesses.thy ===== *)
theory OtpGuesses
  imports OtpReset
begin

text \<open>
  The four verifications as providers of the bounded-guess contract: login and password-reset
  challenges, in the process and over Redis. The guesses of a challenge come one after the
  other; interleaved ones are the subject of the theory OtpRace.
\<close>

section \<open>Guesses\<close>

definition login_guess ::
  "('r, 'j) redis \<Rightarrow> 'j codec \<Rightarrow> (string \<Rightarrow> string \<Rightarrow> string) \<Rightarrow> string \<Rightarrow> guess
    \<Rightarrow> otp \<times> 'r \<Rightarrow> (exn, otp \<times> 'r, unit) outcome" where
  "login_guess R J H c = (\<lambda>(ts, em, code). otp_verify R J H ts c em code)"

definition reset_guess ::
  "('r, 'j) redis \<Rightarrow> 'j codec \<Rightarrow> (string \<Rightarrow> string \<Rightarrow> string) \<Rightarrow> string \<Rightarrow> seconds \<times> string \<times> string
    \<Rightarrow> otp \<times> 'r \<Rightarrow> (exn, otp \<times> 'r, pyval) outcome" where
  "reset_guess R J H c = (\<lambda>(t, em, code). verify_password_reset R J H t c em code)"

definition attempts_left :: "otp \<Rightarrow> pydict \<Rightarrow> nat" where
  "attempts_left s rec =
    (case as_int (dget rec ''attempts'') of None \<Rightarrow> 0
     | Some a \<Rightarrow> nat (ouros_email_otp_max_attempts (otp_settings s) - a))"

lemma attempts_left_update:
  "attempts_left s (AList.update ''attempts'' (PInt a) rec) = nat (ouros_email_otp_max_attempts (otp_settings s) - a)"
  by (simp add: attempts_left_def)

lemma attempts_left_cong: "otp_settings s' = otp_settings s \<Longrightarrow> attempts_left s' = attempts_left s"
  by (rule ext) (simp add: attempts_left_def split: option.splits)

lemma verify_decide_Save:
  assumes "verify_decide H s c em code t_now rec = Reject_save rec' ttl"
  obtains a where "as_int (dget rec ''attempts'') = Some a" "rec' = AList.update ''attempts'' (PInt (a + 1)) rec"
    "a + 1 < ouros_email_otp_max_attempts (otp_settings s)"
  using assms
  by (auto simp: verify_decide_def Let_def split: option.splits if_splits sum.splits)

lemma verify_decide_Accept_left:
  "verify_decide H s c em code t_now rec = Accept \<Longrightarrow> 0 < attempts_left s rec"
  using verify_decide_Accept [of H s c em code t_now rec] by (auto simp: attempts_left_def)

lemma verify_decide_Save_left:
  assumes "verify_decide H s c em code t_now rec = Reject_save rec' ttl"
  shows "attempts_left s rec' = attempts_left s rec - 1"
  using assms
  by (elim verify_decide_Save) (simp add: attempts_left_update, simp add: attempts_left_def nat_diff_distrib)

lemma verify_decide_Escape:
  "verify_decide H s c em code t_now rec = Escape e \<Longrightarrow> \<not> uses_guess (Inl e :: exn + 'a)"
  by (auto simp: verify_decide_def code_digest_def compare_digest_str_def Let_def
      split: option.splits if_splits sum.splits)

section \<open>In the process\<close>

definition slot_left :: "string \<Rightarrow> otp \<times> 'r \<Rightarrow> nat" where
  "slot_left k st =
    (case map_of (otp_memory (fst st)) k of None \<Rightarrow> 0 | Some rec \<Rightarrow> attempts_left (fst st) rec)"

definition memory_guess_invar :: "otp \<times> 'r \<Rightarrow> bool" where
  "memory_guess_invar st \<longleftrightarrow> otp_in_memory (fst st) \<and> require_ready (fst st) = Inr ()"

lemma slot_left_ops:
  assumes "otp_invar s"
  shows "slot_left k (otp_sweep t s, r) =
      (case otp_view t s k of None \<Rightarrow> 0 | Some rec \<Rightarrow> attempts_left s rec)"
    "slot_left k (otp_remove k s, r) = 0" "slot_left k (otp_put t k rec s, r) = attempts_left s rec"
    "(case otp_view t s k of None \<Rightarrow> 0 | Some rec \<Rightarrow> attempts_left s rec) \<le> slot_left k (s, r)"
  using map_of_otp_cleanup [OF assms, of t k] attempts_left_cong [of "otp_sweep t s" s]
    attempts_left_cong [of "otp_put t k rec s" s]
  by (simp_all add: slot_left_def otp_sweep_def otp_remove_def otp_put_def otp_view_def
      delete_conv' update_conv' split: option.splits)

lemma login_guess_memory_step:
  assumes "memory_guess_invar (s, r)" "login_guess R J H c g (s, r) = (res, s', r')"
  shows "memory_guess_invar (s', r') \<and> slot_left c (s', r') \<le> slot_left c (s, r) \<and>
    (uses_guess res \<longrightarrow> slot_left c (s', r') \<le> slot_left c (s, r) - 1) \<and>
    (granted res \<longrightarrow> 0 < slot_left c (s, r) \<and> slot_left c (s', r') = 0)"
proof -
  obtain t_load t_now t_save em code where g: "g = ((t_load, t_now, t_save), em, code)"
    by (metis prod.collapse)
  have s: "otp_in_memory s" "require_ready s = Inr ()" and inv: "otp_invar s"
    using assms(1) by (simp_all add: memory_guess_invar_def otp_in_memoryD)
  then have swept: "otp_invar (otp_sweep t_load s)" by (simp add: challenges.map_laws)
  note run = assms(2) [unfolded login_guess_def g, simplified, unfolded otp_verify_memory [OF s]]
  note left = slot_left_ops [OF inv, where r = r] slot_left_ops(2,3) [OF swept, where r = r]
  note same = attempts_left_cong [of "otp_sweep t_load s" s, simplified]
  show ?thesis
  proof (cases "otp_view t_load s c")
    case None
    with run s left(1) show ?thesis by (auto simp: memory_guess_invar_def)
  next
    case (Some rec)
    with left(4) [of t_load c] have le: "attempts_left s rec \<le> slot_left c (s, r)" by simp
    show ?thesis
    proof (cases "verify_decide H s c em code t_now rec")
      case Reject_delete
      with Some run s left show ?thesis by (auto simp: memory_guess_invar_def)
    next
      case (Reject_save rec' ttl)
      with Some run s left same le show ?thesis
        by (auto simp: memory_guess_invar_def verify_decide_Save_left [OF Reject_save])
    next
      case Accept
      with Some run s left le show ?thesis
        using verify_decide_Accept_left [OF Accept] by (auto simp: memory_guess_invar_def)
    next
      case (Escape e)
      with Some run s left(1) [of c t_load] le show ?thesis
        using verify_decide_Escape [OF Escape] by (auto simp: memory_guess_invar_def)
    qed
  qed
qed

interpretation login_memory:
  guess_limiter "login_guess R J H c" "slot_left c :: otp \<times> 'r \<Rightarrow> nat" "memory_guess_invar :: otp \<times> 'r \<Rightarrow> bool"
  for R :: "('r, 'j) redis" and J H c
proof
  fix st st' :: "otp \<times> 'r" and g and res
  assume "memory_guess_invar st" "login_guess R J H c g st = (res, st')"
  then have "memory_guess_invar st' \<and> slot_left c st' \<le> slot_left c st \<and>
      (uses_guess res \<longrightarrow> slot_left c st' \<le> slot_left c st - 1) \<and>
      (granted res \<longrightarrow> 0 < slot_left c st \<and> slot_left c st' = 0)"
    by (metis login_guess_memory_step prod.collapse)
  then show "memory_guess_invar st'" "slot_left c st' \<le> slot_left c st"
    "uses_guess res \<Longrightarrow> slot_left c st' \<le> slot_left c st - 1"
    "granted res \<Longrightarrow> 0 < slot_left c st \<and> slot_left c st' = 0" by blast+
qed

lemma reset_guess_memory_step:
  assumes "memory_guess_invar (s, r)" "reset_guess R J H c g (s, r) = (res, s', r')"
  shows "memory_guess_invar (s', r') \<and> slot_left (reset_key c) (s', r') \<le> slot_left (reset_key c) (s, r) \<and>
    (uses_guess res \<longrightarrow> slot_left (reset_key c) (s', r') \<le> slot_left (reset_key c) (s, r) - 1) \<and>
    (granted res \<longrightarrow> 0 < slot_left (reset_key c) (s, r) \<and> slot_left (reset_key c) (s', r') = 0)"
proof -
  obtain t em code where g: "g = (t, em, code)" by (metis prod.collapse)
  have s: "otp_in_memory s" "require_ready s = Inr ()" and inv: "otp_invar s"
    using assms(1) by (simp_all add: memory_guess_invar_def otp_in_memoryD)
  then have swept: "otp_invar (otp_sweep t s)" by (simp add: challenges.map_laws)
  obtain key where key: "ouros_email_otp_hmac_secret (otp_settings s) = Some key"
    using require_ready_secret [OF s(2)] by blast
  obtain em' h where run: "(res, s') = verify_reset_memory t c em' h s" "r' = r"
    using assms(2) by (simp add: reset_guess_def g verify_password_reset_memory [OF s key] split: prod.splits) metis
  note left = slot_left_ops [OF inv, where r = r] slot_left_ops(2,3) [OF swept, where r = r]
  have keep: "memory_guess_invar (otp_sweep t s, r)" "memory_guess_invar (otp_remove k (otp_sweep t s), r)"
      "memory_guess_invar (otp_put t k rec s, r)" for k rec
    using s by (simp_all add: memory_guess_invar_def)
  show ?thesis
  proof (cases "otp_view t s (reset_key c)")
    case None
    with run keep left(1) show ?thesis by (simp add: verify_reset_memory_view [OF inv])
  next
    case (Some rec)
    with left(4) [of t "reset_key c"] left(1) [of "reset_key c" t]
    have le: "attempts_left s rec \<le> slot_left (reset_key c) (s, r)"
        "slot_left (reset_key c) (otp_sweep t s, r) = attempts_left s rec" by simp_all
    note v = verify_reset_memory_view [OF inv, of t c em' h]
    show ?thesis
    proof (cases "as_int (dget rec ''attempts'')")
      case None
      with run keep left Some show ?thesis by (auto simp: v split: option.splits)
    next
      case (Some a)
      have al: "attempts_left s rec = nat (ouros_email_otp_max_attempts (otp_settings s) - a)"
        by (simp add: attempts_left_def Some)
      from Some run keep left(2,3,5,6) \<open>otp_view t s (reset_key c) = Some rec\<close> le al show ?thesis
        by (auto simp: v attempts_left_update split: option.splits if_splits)
    qed
  qed
qed

interpretation reset_memory:
  guess_limiter "reset_guess R J H c" "slot_left (reset_key c) :: otp \<times> 'r \<Rightarrow> nat"
    "memory_guess_invar :: otp \<times> 'r \<Rightarrow> bool"
  for R :: "('r, 'j) redis" and J H c
proof
  fix st st' :: "otp \<times> 'r" and g and res
  assume "memory_guess_invar st" "reset_guess R J H c g st = (res, st')"
  then have "memory_guess_invar st' \<and> slot_left (reset_key c) st' \<le> slot_left (reset_key c) st \<and>
      (uses_guess res \<longrightarrow> slot_left (reset_key c) st' \<le> slot_left (reset_key c) st - 1) \<and>
      (granted res \<longrightarrow> 0 < slot_left (reset_key c) st \<and> slot_left (reset_key c) st' = 0)"
    by (metis reset_guess_memory_step prod.collapse)
  then show "memory_guess_invar st'" "slot_left (reset_key c) st' \<le> slot_left (reset_key c) st"
    "uses_guess res \<Longrightarrow> slot_left (reset_key c) st' \<le> slot_left (reset_key c) st - 1"
    "granted res \<Longrightarrow> 0 < slot_left (reset_key c) st \<and> slot_left (reset_key c) st' = 0" by blast+
qed

section \<open>Over Redis\<close>

definition key_left :: "('r, 'j) redis \<Rightarrow> ('j \<Rightarrow> pyval option) \<Rightarrow> string \<Rightarrow> otp \<times> 'r \<Rightarrow> nat" where
  "key_left R decode k st =
    (case r_get R k (snd st) of
       None \<Rightarrow> 0
     | Some raw \<Rightarrow>
         (case decode raw of Some (PDict d) \<Rightarrow> attempts_left (fst st) d | _ \<Rightarrow> 0))"

definition redis_guess_invar ::
  "('r, 'j) redis \<Rightarrow> 'j codec \<Rightarrow> ('j \<Rightarrow> pyval option) \<Rightarrow> string \<Rightarrow> otp \<times> 'r \<Rightarrow> bool" where
  "redis_guess_invar R J decode k st \<longleftrightarrow>
     redis_kv R \<and> codec_roundtrip J \<and> redis_url (otp_settings (fst st)) \<noteq> None \<and>
     require_ready (fst st) = Inr () \<and> ouros_email_otp_max_attempts (otp_settings (fst st)) \<le> 10 \<and>
     (\<forall>raw d. r_get R k (snd st) = Some raw \<longrightarrow> decode raw = Some (PDict d) \<longrightarrow> plain_dict d)"

lemma key_left_fades:
  assumes "fades R r r'" "otp_settings s' = otp_settings s"
  shows "key_left R decode k (s', r') \<le> key_left R decode k (s, r)"
  using assms(1) [unfolded fades_def, rule_format, of k]
  by (auto simp: key_left_def attempts_left_cong [OF assms(2)] split: option.splits pyval.splits)

lemma key_left_absent: "r_get R k r = None \<Longrightarrow> key_left R decode k (s, r) = 0"
  by (simp add: key_left_def)

lemma redis_guess_invar_fades:
  assumes "redis_guess_invar R J decode k (s, r)" "fades R r r'" "otp_settings s' = otp_settings s"
  shows "redis_guess_invar R J decode k (s', r')"
  using assms(1,3) assms(2) [unfolded fades_def, rule_format, of k] require_ready_cong [OF assms(3)]
  by (auto simp: redis_guess_invar_def)

lemma plain_attempts:
  assumes "plain_dict d" "dget d ''attempts'' = v"
  shows "(\<exists>a. v = PInt a \<and> \<bar>a\<bar> < 10 ^ 14) \<or> (\<exists>x. v = PStr x) \<or> v = PNone"
proof (cases "map_of d ''attempts''")
  case None
  with assms(2) show ?thesis by (simp add: dget_def)
next
  case (Some w)
  then have "w \<in> snd ` set d" by (metis map_of_SomeD image_eqI snd_conv)
  then have "case w of PStr _ \<Rightarrow> True | PInt i \<Rightarrow> \<bar>i\<bar> < 10 ^ 14 | _ \<Rightarrow> False"
    using assms(1) unfolding plain_dict_def by blast
  with assms(2) Some show ?thesis by (cases w) (auto simp: dget_def)
qed

text \<open>Storing the record with one more attempt.\<close>

lemma key_left_stored:
  assumes "reads_back decode raw (AList.update ''attempts'' (PInt (a + 1)) d)" "r_get R k r = Some raw"
    and "as_int (dget d ''attempts'') = Some a" "otp_settings s' = otp_settings s"
  shows "key_left R decode k (s', r) = attempts_left s d - 1"
    "r_get R k r = Some raw' \<Longrightarrow> decode raw' = Some (PDict d'') \<Longrightarrow> plain_dict d''"
proof -
  obtain d' where d': "decode raw = Some (PDict d')" "plain_dict d'"
      "map_of d' = map_of (AList.update ''attempts'' (PInt (a + 1)) d)"
    using assms(1) by (auto simp: reads_back_def)
  have "attempts_left s d' = nat (ouros_email_otp_max_attempts (otp_settings s) - (a + 1))"
    by (simp add: attempts_left_def dget_cong [OF d'(3)])
  then show "key_left R decode k (s', r) = attempts_left s d - 1"
    using assms(2,3) d'(1) by (simp add: key_left_def attempts_left_cong [OF assms(4)])
      (simp add: attempts_left_def nat_diff_distrib)
  show "r_get R k r = Some raw' \<Longrightarrow> decode raw' = Some (PDict d'') \<Longrightarrow> plain_dict d''"
    using assms(2) d' by simp
qed

text \<open>The store operations over Redis: what each leaves, whether its reply arrives or not.\<close>

lemma otp_delete_redis:
  assumes "redis_kv R" "redis_url (otp_settings s) \<noteq> None" "otp_delete R pre c (s, r) = (res, s', r')"
  shows "otp_settings s' = otp_settings s" "fades R r r'"
    "(res = Inr () \<and> r_get R (full_key pre c) r' = None) \<or> (\<exists>m. res = Inl (EmailOtpUnavailable m))"
proof -
  have run: "otp_command R ''Redis delete failed'' (\<lambda>r. ((), r_del R (full_key pre c) r)) (s, r) = (res, s', r')"
    using assms(2,3) by (simp add: otp_delete_def)
  have gone: "r_get R (full_key pre c) (r_del R (full_key pre c) x) = None" for x
    by (simp add: redis_kvD(3) [OF assms(1)])
  from assms(1,2) run have "otp_settings s' = otp_settings s \<and> fades R r r' \<and>
    ((res = Inr () \<and> r_get R (full_key pre c) r' = None) \<or> (\<exists>m. res = Inl (EmailOtpUnavailable m)))"
  proof (cases rule: otp_command_cases)
    case (ran r1)
    then have "fades R r r'" using fades_trans fades_del [OF assms(1)] by (metis snd_conv)
    with ran gone show ?thesis by auto
  qed auto
  then show "otp_settings s' = otp_settings s" "fades R r r'"
    "(res = Inr () \<and> r_get R (full_key pre c) r' = None) \<or> (\<exists>m. res = Inl (EmailOtpUnavailable m))"
    by blast+
qed

lemma otp_save_redis:
  assumes "redis_kv R" "redis_url (otp_settings s) \<noteq> None" "otp_save R J pre c rec ttl t (s, r) = (res, s', r')"
  obtains (failed) m where "otp_settings s' = otp_settings s" "fades R r r'" "res = Inl (EmailOtpUnavailable m)"
    | (stored) r1 where "otp_settings s' = otp_settings s" "fades R r r1"
        "r' = r_set_ex R (full_key pre c) (j_dumps J (PDict rec)) (max ttl 1) r1"
        "res = Inr () \<or> (\<exists>m. res = Inl (EmailOtpUnavailable m))"
proof -
  have run: "otp_command R ''Redis write failed''
      (\<lambda>r. ((), r_set_ex R (full_key pre c) (j_dumps J (PDict rec)) (max ttl 1) r)) (s, r) = (res, s', r')"
    using assms(2,3) by (simp add: otp_save_def)
  from assms(1,2) run show thesis
  proof (cases rule: otp_command_cases)
    case (failed m)
    show thesis by (rule that(1) [OF failed(2,3,1)])
  next
    case (ran r1)
    show thesis by (rule that(2) [OF ran(3,1)]) (use ran(2,4) in simp_all)
  qed
qed

lemma otp_load_redis:
  assumes "redis_kv R" "redis_url (otp_settings s) \<noteq> None" "otp_load R J pre c t (s, r) = (res, s', r')"
  shows "otp_settings s' = otp_settings s \<and> fades R r r' \<and>
    (case res of
       Inl e \<Rightarrow> \<exists>m. e = EmailOtpUnavailable m
     | Inr None \<Rightarrow> key_left R (j_loads J) (full_key pre c) (s', r') = 0
     | Inr (Some d) \<Rightarrow> \<exists>raw. r_get R (full_key pre c) r = Some raw \<and> j_loads J raw = Some (PDict d))"
proof -
  let ?k = "full_key pre c"
  obtain res1 s1 r1 where c1: "otp_command R ''Redis read failed'' (\<lambda>r. (r_get R ?k r, r)) (s, r) = (res1, s1, r1)"
    by (rule prod_cases3)
  from assms(1,2) c1 have one: "otp_settings s1 = otp_settings s \<and> fades R r r1 \<and>
      (res1 = Inr (r_get R ?k r1) \<or> (\<exists>m. res1 = Inl (EmailOtpUnavailable m)))"
  proof (cases rule: otp_command_cases)
    case (failed m)
    then show ?thesis by blast
  next
    case (ran r2)
    then have "r1 = r2" by simp
    with ran show ?thesis by simp
  qed
  show ?thesis
  proof (cases res1)
    case (Inl e)
    with one c1 assms(2,3) show ?thesis by (auto simp: otp_load_def)
  next
    case (Inr raw)
    with one have raw: "raw = r_get R ?k r1" by auto
    show ?thesis
    proof (cases raw)
      case None
      with Inr raw one c1 assms(2,3) show ?thesis by (auto simp: otp_load_def key_left_absent)
    next
      case (Some x)
      with raw one have present: "r_get R ?k r = Some x" by (metis fades_absent not_Some_eq fades_def)
      show ?thesis
      proof (cases "j_loads J x")
        case None
        then have del: "and_then (otp_delete R pre c (s1, r1)) (\<lambda>_ st. (Inr None, st)) = (res, s', r')"
          using assms(2,3) c1 Inr Some by (simp add: otp_load_def)
        obtain res2 s2 r2 where d: "otp_delete R pre c (s1, r1) = (res2, s2, r2)" by (metis prod.collapse)
        have url: "redis_url (otp_settings s1) \<noteq> None" using one assms(2) by simp
        note two = otp_delete_redis [OF assms(1) url d]
        show ?thesis
          using del d two one fades_trans [of R r r1 r2] by (cases res2) (auto simp: key_left_absent)
      next
        case (Some v)
        note loaded = this
        have here: "r_get R ?k r1 = Some x" using raw \<open>raw = Some x\<close> by simp
        have eq: "(res, s', r') = (case v of PDict d \<Rightarrow> Inr (Some d) | _ \<Rightarrow> Inr None, s1, r1)"
          using assms(2,3) c1 Inr \<open>raw = Some x\<close> Some by (cases v) (simp_all add: otp_load_def)
        show ?thesis
          using eq conjunct1 [OF one] conjunct1 [OF conjunct2 [OF one]] present loaded here
          by (cases v) (simp_all add: key_left_def)
      qed
    qed
  qed
qed


lemma key_left_loaded:
  "r_get R k r = Some raw \<Longrightarrow> decode raw = Some (PDict d) \<Longrightarrow> key_left R decode k (s, r) = attempts_left s d"
  by (simp add: key_left_def)

lemma redis_guess_invar_stored:
  assumes "redis_guess_invar R J decode k (s, r)" "otp_settings s' = otp_settings s"
    and "\<And>raw d. r_get R k r' = Some raw \<Longrightarrow> decode raw = Some (PDict d) \<Longrightarrow> plain_dict d"
  shows "redis_guess_invar R J decode k (s', r')"
  using assms(1,2,3) require_ready_cong [OF assms(2)] by (auto simp: redis_guess_invar_def)

lemma login_guess_redis_step:
  assumes "redis_guess_invar R J (j_loads J) (full_key None c) (s, r)" "login_guess R J H c g (s, r) = (res, s', r')"
  shows "redis_guess_invar R J (j_loads J) (full_key None c) (s', r') \<and>
    key_left R (j_loads J) (full_key None c) (s', r') \<le> key_left R (j_loads J) (full_key None c) (s, r) \<and>
    (uses_guess res \<longrightarrow> key_left R (j_loads J) (full_key None c) (s', r')
        \<le> key_left R (j_loads J) (full_key None c) (s, r) - 1) \<and>
    (granted res \<longrightarrow> 0 < key_left R (j_loads J) (full_key None c) (s, r) \<and>
        key_left R (j_loads J) (full_key None c) (s', r') = 0)"
    (is "?I s' r' \<and> ?L s' r' \<le> ?L s r \<and> (_ \<longrightarrow> _) \<and> (_ \<longrightarrow> _)")
proof -
  let ?k = "full_key None c"
  obtain t_load t_now t_save em code where g: "g = ((t_load, t_now, t_save), em, code)"
    by (metis prod.collapse)
  have kv: "redis_kv R" and url: "redis_url (otp_settings s) \<noteq> None" and ready: "require_ready s = Inr ()"
      and cod: "codec_roundtrip J" and lim: "ouros_email_otp_max_attempts (otp_settings s) \<le> 10"
    using assms(1) by (simp_all add: redis_guess_invar_def)
  obtain res1 s1 r1 where ld: "otp_load R J None c t_load (s, r) = (res1, s1, r1)" by (rule prod_cases3)
  note load = otp_load_redis [OF kv url ld]
  then have set1: "otp_settings s1 = otp_settings s" and f1: "fades R r r1" by blast+
  have url1: "redis_url (otp_settings s1) \<noteq> None" using url set1 by simp
  note mono1 = key_left_fades [OF f1 set1, of "j_loads J" ?k]
  note inv1 = redis_guess_invar_fades [OF assms(1) f1 set1]
  have run: "(res, s', r') = and_then (res1, s1, r1) (\<lambda>loaded st. case loaded of
      None \<Rightarrow> (Inl EmailOtpInvalidError, st)
    | Some rec \<Rightarrow> verify_act R J c t_save (verify_decide H (fst st) c em code t_now rec) st)"
    using assms(2) ready by (simp add: login_guess_def g otp_verify_def ld)
  have gone: "?I s2 r2 \<and> ?L s2 r2 \<le> ?L s r" if "otp_settings s2 = otp_settings s1" "fades R r1 r2" for s2 r2
    using key_left_fades [OF that(2,1), of "j_loads J" ?k] mono1 redis_guess_invar_fades [OF inv1 that(2,1)] by simp
  show ?thesis
  proof (cases res1)
    case (Inl e)
    with run load inv1 mono1 show ?thesis by auto
  next
    case (Inr loaded)
    show ?thesis
    proof (cases loaded)
      case None
      with run load inv1 mono1 Inr show ?thesis by simp
    next
      case (Some d)
      obtain raw where raw: "r_get R ?k r = Some raw" "j_loads J raw = Some (PDict d)"
        using load Inr Some by auto
      then have left0: "?L s r = attempts_left s d" and plain: "plain_dict d"
        using assms(1) by (auto simp: key_left_def redis_guess_invar_def)
      have act: "verify_act R J c t_save (verify_decide H s1 c em code t_now d) (s1, r1) = (res, s', r')"
        using run Inr Some by simp
      have al: "attempts_left s1 = attempts_left s" by (rule attempts_left_cong [OF set1])
      show ?thesis
      proof (cases "verify_decide H s1 c em code t_now d")
        case Reject_delete
        obtain x s2 r2 where d2: "otp_delete R None c (s1, r1) = (x, s2, r2)" by (rule prod_cases3)
        note del = otp_delete_redis [OF kv url1 d2]
        show ?thesis
          using act Reject_delete d2 del(3) gone [OF del(1,2)]
          by (cases x) (auto simp: verify_act_def key_left_absent)
      next
        case Accept
        then have d2: "otp_delete R None c (s1, r1) = (res, s', r')" using act by (simp add: verify_act_def)
        note del = otp_delete_redis [OF kv url1 d2]
        show ?thesis
          using del(3) gone [OF del(1,2)] verify_decide_Accept_left [OF Accept] left0 al
          by (auto simp: key_left_absent)
      next
        case (Escape e)
        then show ?thesis
          using act inv1 mono1 verify_decide_Escape [OF Escape] by (auto simp: verify_act_def)
      next
        case (Reject_save rec' ttl)
        obtain x s2 r2 where sv: "otp_save R J None c rec' ttl t_save (s1, r1) = (x, s2, r2)" by (rule prod_cases3)
        have step: "and_then (x, s2, r2) (\<lambda>_ st. (Inl EmailOtpInvalidError, st)) = (res, s', r')"
          using act unfolding Reject_save verify_act_def verify_action.case sv .
        have end_state: "s' = s2 \<and> r' = r2 \<and> res = (case x of Inl e \<Rightarrow> Inl e | Inr _ \<Rightarrow> Inl EmailOtpInvalidError)"
          using step by (cases x) auto
        from kv url1 sv show ?thesis
        proof (cases rule: otp_save_redis)
          case (failed m)
          with gone [OF failed(1,2)] end_state show ?thesis by simp
        next
          case (stored r3)
          obtain a where a: "as_int (dget d ''attempts'') = Some a"
              "rec' = AList.update ''attempts'' (PInt (a + 1)) d"
              and "a + 1 < ouros_email_otp_max_attempts (otp_settings s1)"
            using Reject_save by (rule verify_decide_Save)
          then have "a + 1 < 10" using lim set1 by simp
          have "\<bar>a + 1\<bar> < 10 ^ 14" using plain_attempts [OF plain refl] a(1) \<open>a + 1 < 10\<close> by auto
          then have "plain_dict rec'"
            unfolding a(2) using plain by (intro plain_dict_update) (simp_all add: plain_dict_def)
          then have reads: "reads_back (j_loads J) (j_dumps J (PDict rec')) rec'"
            by (rule codec_roundtripD(1) [OF cod])
          have here: "r_get R ?k r2 = Some (j_dumps J (PDict rec'))"
            by (simp add: stored(3) redis_kvD(1) [OF kv])
          have set2: "otp_settings s2 = otp_settings s" using stored(1) set1 by simp
          note ls = key_left_stored [OF reads [unfolded a(2)] here [unfolded a(2)] a(1) set2]
          have "?I s2 r2" by (rule redis_guess_invar_stored [OF assms(1) set2]) (rule ls(2))
          with ls(1) left0 end_state stored(4) show ?thesis by auto
        qed
      qed
    qed
  qed
qed

lemma reset_guess_redis_step:
  assumes "redis_guess_invar R J (cj_decode J) (KEY_PREFIX_RESET @ c) (s, r)"
    and "reset_guess R J H c g (s, r) = (res, s', r')"
  shows "redis_guess_invar R J (cj_decode J) (KEY_PREFIX_RESET @ c) (s', r') \<and>
    key_left R (cj_decode J) (KEY_PREFIX_RESET @ c) (s', r')
      \<le> key_left R (cj_decode J) (KEY_PREFIX_RESET @ c) (s, r) \<and>
    (uses_guess res \<longrightarrow> key_left R (cj_decode J) (KEY_PREFIX_RESET @ c) (s', r')
        \<le> key_left R (cj_decode J) (KEY_PREFIX_RESET @ c) (s, r) - 1) \<and>
    (granted res \<longrightarrow> 0 < key_left R (cj_decode J) (KEY_PREFIX_RESET @ c) (s, r) \<and>
        key_left R (cj_decode J) (KEY_PREFIX_RESET @ c) (s', r') = 0)"
    (is "?I s' r' \<and> ?L s' r' \<le> ?L s r \<and> (_ \<longrightarrow> _) \<and> (_ \<longrightarrow> _)")
proof -
  let ?k = "KEY_PREFIX_RESET @ c" and ?limit = "ouros_email_otp_max_attempts (otp_settings s)"
  obtain t em code where g: "g = (t, em, code)" by (metis prod.collapse)
  have kv: "redis_kv R" and url: "redis_url (otp_settings s) \<noteq> None" and ready: "require_ready s = Inr ()"
      and cod: "codec_roundtrip J" and lim: "?limit \<le> 10"
    using assms(1) by (simp_all add: redis_guess_invar_def)
  obtain key where key: "ouros_email_otp_hmac_secret (otp_settings s) = Some key"
    using require_ready_secret [OF ready] by blast
  define h where "h = H key (c @ '':'' @ code)"
  define em' where "em' = py_lower (py_strip em)"
  define cmd where "cmd = verify_script R J ?k em' h (py_int t) ?limit"
  obtain x s1 r1 where c1: "otp_command R ''Redis verification failed'' cmd (s, r) = (x, s1, r1)"
    by (rule prod_cases3)
  have run: "(res, s', r') = and_then (x, s1, r1) (\<lambda>(verdict, raw) st.
      if verdict = -1 then (Inl PasswordResetOtpAttemptsExceededError, st)
      else if verdict \<noteq> 1 then (Inl PasswordResetOtpInvalidError, st)
      else (case Option.bind raw (j_loads J) of
              None \<Rightarrow> (Inl (ValueError ''invalid JSON''), st) | Some v \<Rightarrow> (Inr v, st)))"
    using assms(2) ready key url
    by (simp add: reset_guess_def g verify_password_reset_def code_digest_def Let_def c1 [symmetric]
        cmd_def h_def em'_def)
  from kv url c1 show ?thesis
  proof (cases rule: otp_command_cases)
    case (failed m)
    with run show ?thesis
      using key_left_fades [OF failed(3,2), of "cj_decode J" ?k] redis_guess_invar_fades [OF assms(1) failed(3,2)]
      by simp
  next
    case (ran r0)
    then have st: "s' = s1" "r' = snd (cmd r0)" "otp_settings s1 = otp_settings s"
      using run by (auto split: prod.splits if_splits option.splits elim!: and_then_InrE)
    have res: "uses_guess res \<Longrightarrow> \<not> granted res \<or> fst (fst (cmd r0)) = 1"
        "granted res \<Longrightarrow> fst (fst (cmd r0)) = 1"
      using run ran(4) by (auto split: prod.splits if_splits option.splits)
    note f = key_left_fades [OF ran(1) st(3), of "cj_decode J" ?k] redis_guess_invar_fades [OF assms(1) ran(1) st(3)]
    have al: "attempts_left s1 = attempts_left s" by (rule attempts_left_cong [OF st(3)])
    have gone: ?thesis if "snd (cmd r0) = r_del R ?k r0" "fst (fst (cmd r0)) \<noteq> 1 \<or> 0 < ?L s r"
    proof -
      have "r_get R ?k r' = None" using st(2) that(1) by (simp add: redis_kvD(3) [OF kv])
      moreover have "?I s' r'"
        using redis_guess_invar_fades [OF f(2) fades_del [OF kv] refl, of ?k] st that(1) by simp
      ultimately show ?thesis using res that(2) by (auto simp: key_left_absent)
    qed
    show ?thesis
    proof (cases "r_get R ?k r0")
      case None
      then have "cmd r0 = ((0, None), r0)" by (simp add: cmd_def verify_script_def)
      with st f None res show ?thesis by (auto simp: key_left_absent)
    next
      case (Some raw)
      note present = Some
      show ?thesis
      proof (cases "script_record (py_int t) (cj_decode J raw)")
        case None
        with Some show ?thesis by (intro gone) (simp_all add: cmd_def verify_script_def)
      next
        case (Some rec)
        then obtain d rem digest q where rec: "rec = (d, rem, digest, q)" "cj_decode J raw = Some (PDict d)"
            "lua_number (dget d ''attempts'') = Some q"
          by (auto simp: script_record_def split: option.splits pyval.splits if_splits)
        have plain: "plain_dict d" using f(2) present rec(2) by (auto simp: redis_guess_invar_def)
        obtain a where a: "dget d ''attempts'' = PInt a" "q = of_int a" "\<bar>a\<bar> < 10 ^ 14"
          using plain_attempts [OF plain refl] rec(3) by auto
        have L: "?L s1 r0 = nat (?limit - a)"
          using key_left_loaded [where s = s1 and decode = "cj_decode J", OF present rec(2)] st(3) by (simp add: attempts_left_def a(1))
        have cmp: "(of_int ?limit \<le> q) = (?limit \<le> a)" "(of_int ?limit \<le> q + 1) = (?limit \<le> a + 1)"
          unfolding a(2) by (simp, metis of_int_1 of_int_add of_int_le_iff)
        let ?d = "AList.update ''attempts'' (PInt (a + 1)) d"
        have eq: "cmd r0 = (if ?limit \<le> a then ((-1, None), r_del R ?k r0)
            else if rem \<noteq> em' \<or> digest \<noteq> h then
              (if ?limit \<le> a + 1 then ((-1, None), r_del R ?k r0)
               else ((0, None), r_set_keepttl R ?k (cj_encode J (PDict ?d)) r0))
            else ((1, Some raw), r_del R ?k r0))"
          using present Some by (simp add: cmd_def verify_script_def rec cmp a(1))
        show ?thesis
        proof (cases "\<not> ?limit \<le> a + 1 \<and> (rem \<noteq> em' \<or> digest \<noteq> h)")
          case False
          with eq L f(1) show ?thesis by (intro gone) auto
        next
          case True
          then have upd: "cmd r0 = ((0, None), r_set_keepttl R ?k (cj_encode J (PDict ?d)) r0)"
            using eq by auto
          have "\<bar>a + 1\<bar> < 10 ^ 14" using a(3) True lim by auto
          then have "plain_dict ?d" using plain by (intro plain_dict_update) (simp_all add: plain_dict_def)
          then have reads: "reads_back (cj_decode J) (cj_encode J (PDict ?d)) ?d"
            by (rule codec_roundtripD(3) [OF cod])
          have here: "r_get R ?k r' = Some (cj_encode J (PDict ?d))"
            using st(2) upd by (simp add: redis_kvD(2) [OF kv])
          have set': "otp_settings s' = otp_settings s1" "otp_settings s' = otp_settings s" using st by simp_all
          have "as_int (dget d ''attempts'') = Some a" by (simp add: a(1))
          note ls = key_left_stored [OF reads here this set'(1)]
          have "attempts_left s1 d = ?L s1 r0" using L st(3) by (simp add: attempts_left_def a(1))
          moreover have "?I s' r'" by (rule redis_guess_invar_stored [OF assms(1) set'(2)]) (rule ls(2))
          ultimately show ?thesis using ls(1) f(1) res upd by auto
        qed
      qed
    qed
  qed
qed

interpretation login_redis:
  guess_limiter "login_guess R J H c" "key_left R (j_loads J) (full_key None c)"
    "redis_guess_invar R J (j_loads J) (full_key None c)"
  for R :: "('r, 'j) redis" and J H c
proof
  fix st st' :: "otp \<times> 'r" and g and res
  let ?inv = "redis_guess_invar R J (j_loads J) (full_key None c)"
    and ?left = "key_left R (j_loads J) (full_key None c)"
  assume "?inv st" "login_guess R J H c g st = (res, st')"
  then have "?inv st' \<and> ?left st' \<le> ?left st \<and> (uses_guess res \<longrightarrow> ?left st' \<le> ?left st - 1) \<and>
      (granted res \<longrightarrow> 0 < ?left st \<and> ?left st' = 0)"
    by (metis login_guess_redis_step prod.collapse)
  then show "?inv st'" "?left st' \<le> ?left st" "uses_guess res \<Longrightarrow> ?left st' \<le> ?left st - 1"
    "granted res \<Longrightarrow> 0 < ?left st \<and> ?left st' = 0" by blast+
qed

interpretation reset_redis:
  guess_limiter "reset_guess R J H c" "key_left R (cj_decode J) (KEY_PREFIX_RESET @ c)"
    "redis_guess_invar R J (cj_decode J) (KEY_PREFIX_RESET @ c)"
  for R :: "('r, 'j) redis" and J H c
proof
  fix st st' :: "otp \<times> 'r" and g and res
  let ?inv = "redis_guess_invar R J (cj_decode J) (KEY_PREFIX_RESET @ c)"
    and ?left = "key_left R (cj_decode J) (KEY_PREFIX_RESET @ c)"
  assume "?inv st" "reset_guess R J H c g st = (res, st')"
  then have "?inv st' \<and> ?left st' \<le> ?left st \<and> (uses_guess res \<longrightarrow> ?left st' \<le> ?left st - 1) \<and>
      (granted res \<longrightarrow> 0 < ?left st \<and> ?left st' = 0)"
    by (metis reset_guess_redis_step prod.collapse)
  then show "?inv st'" "?left st' \<le> ?left st" "uses_guess res \<Longrightarrow> ?left st' \<le> ?left st - 1"
    "granted res \<Longrightarrow> 0 < ?left st \<and> ?left st' = 0" by blast+
qed

lemma plain_login_record: "\<bar>e\<bar> < 10 ^ 14 \<Longrightarrow> plain_dict (login_record digest em e)"
  by (simp add: plain_dict_def login_record_def)

lemma plain_reset_record:
  "\<bar>e\<bar> < 10 ^ 14 \<Longrightarrow> \<bar>i\<bar> < 10 ^ 14 \<Longrightarrow> plain_dict (reset_record em account_type i digest e)"
  by (simp add: plain_dict_def reset_record_def)

section \<open>Properties\<close>

text \<open>C28: Over Redis, with any pattern of refused calls and lost replies and with keys expiring at
  any moment, a sequence of verifications of one login challenge is granted at most once, and
  once as many of them were answered as attempts were left, the next one is not granted.\<close>

theorem login_guesses_redis:
  assumes "redis_kv R" "codec_roundtrip J" "redis_url (otp_settings s) \<noteq> None"
    and "require_ready s = Inr ()" "ouros_email_otp_max_attempts (otp_settings s) \<le> 10"
    and "r_get R (full_key None c) r = Some raw" "j_loads J raw = Some (PDict d)" "plain_dict d"
    and "run_all (login_guess R J H c) gs (s, r) = (rs, st')"
  shows "length (filter granted rs) \<le> 1 \<and>
    (attempts_left s d \<le> length (filter uses_guess rs) \<longrightarrow> \<not> granted (fst (login_guess R J H c g st')))"
  using login_redis.bounded_guessing [OF _ assms(9), of g] assms(1-8)
  by (simp add: redis_guess_invar_def key_left_loaded)

theorem login_guesses_redis_witness:
  "\<exists>rs st'. run_all (login_guess example_redis example_codec example_hash ''t'')
      [((100, 100, 100), ''a@b.c'', ''111111''), ((101, 101, 101), ''a@b.c'', ''000042'')]
      (init_otp (example_settings\<lparr>redis_url := Some ''redis://r''\<rparr>),
       [(full_key None ''t'', PDict (login_record ''t:000042'' ''a@b.c'' 150))]) = (rs, st') \<and>
    length (filter granted rs) \<le> 1 \<and>
    (attempts_left (init_otp (example_settings\<lparr>redis_url := Some ''redis://r''\<rparr>))
        (login_record ''t:000042'' ''a@b.c'' 150) \<le> length (filter uses_guess rs) \<longrightarrow>
      \<not> granted (fst (login_guess example_redis example_codec example_hash ''t''
        ((102, 102, 102), ''a@b.c'', ''000042'') st')))"
proof -
  let ?s = "init_otp (example_settings\<lparr>redis_url := Some ''redis://r''\<rparr>)"
  let ?r = "[(full_key None ''t'', PDict (login_record ''t:000042'' ''a@b.c'' 150))]"
  obtain rs st' where run: "run_all (login_guess example_redis example_codec example_hash ''t'')
      [((100, 100, 100), ''a@b.c'', ''111111''), ((101, 101, 101), ''a@b.c'', ''000042'')] (?s, ?r) = (rs, st')"
    by (rule prod.exhaust)
  show ?thesis
    by (intro exI conjI; (rule run | rule login_guesses_redis [where d = "login_record ''t:000042'' ''a@b.c'' 150", OF _ _ _ _ _ _ _ _ run, THEN conjunct1]
          | rule login_guesses_redis [where d = "login_record ''t:000042'' ''a@b.c'' 150", OF _ _ _ _ _ _ _ _ run, THEN conjunct2]))
      (simp_all add: init_otp_def example_settings_def default_settings_def require_ready_def
        plain_login_record)
qed

text \<open>C29: Over Redis, with any pattern of refused calls and lost replies and with keys expiring at
  any moment, a sequence of verifications of one password-reset challenge, each one call of the
  script, is granted at most once, and once as many of them were answered as attempts were left,
  the next one is not granted.\<close>

theorem reset_guesses_redis:
  assumes "redis_kv R" "codec_roundtrip J" "redis_url (otp_settings s) \<noteq> None"
    and "require_ready s = Inr ()" "ouros_email_otp_max_attempts (otp_settings s) \<le> 10"
    and "r_get R (KEY_PREFIX_RESET @ c) r = Some raw" "cj_decode J raw = Some (PDict d)" "plain_dict d"
    and "run_all (reset_guess R J H c) gs (s, r) = (rs, st')"
  shows "length (filter granted rs) \<le> 1 \<and>
    (attempts_left s d \<le> length (filter uses_guess rs) \<longrightarrow> \<not> granted (fst (reset_guess R J H c g st')))"
  using reset_redis.bounded_guessing [OF _ assms(9), of g] assms(1-8)
  by (simp add: redis_guess_invar_def key_left_loaded)

theorem reset_guesses_redis_witness:
  "\<exists>rs st'. run_all (reset_guess example_redis example_codec example_hash ''t'')
      [(100, ''a@b.c'', ''111111''), (101, ''a@b.c'', ''000042'')]
      (init_otp (example_settings\<lparr>redis_url := Some ''redis://r''\<rparr>),
       [(KEY_PREFIX_RESET @ ''t'', PDict (reset_record ''a@b.c'' ''farm_owner'' 1 ''t:000042'' 150))]) = (rs, st') \<and>
    length (filter granted rs) \<le> 1 \<and>
    (attempts_left (init_otp (example_settings\<lparr>redis_url := Some ''redis://r''\<rparr>))
        (reset_record ''a@b.c'' ''farm_owner'' 1 ''t:000042'' 150) \<le> length (filter uses_guess rs) \<longrightarrow>
      \<not> granted (fst (reset_guess example_redis example_codec example_hash ''t'' (102, ''a@b.c'', ''000042'') st')))"
proof -
  let ?s = "init_otp (example_settings\<lparr>redis_url := Some ''redis://r''\<rparr>)"
  let ?r = "[(KEY_PREFIX_RESET @ ''t'', PDict (reset_record ''a@b.c'' ''farm_owner'' 1 ''t:000042'' 150))]"
  obtain rs st' where run: "run_all (reset_guess example_redis example_codec example_hash ''t'')
      [(100, ''a@b.c'', ''111111''), (101, ''a@b.c'', ''000042'')] (?s, ?r) = (rs, st')"
    by (rule prod.exhaust)
  show ?thesis
    by (intro exI conjI; (rule run | rule reset_guesses_redis [where d = "reset_record ''a@b.c'' ''farm_owner'' 1 ''t:000042'' 150", OF _ _ _ _ _ _ _ _ run, THEN conjunct1]
          | rule reset_guesses_redis [where d = "reset_record ''a@b.c'' ''farm_owner'' 1 ''t:000042'' 150", OF _ _ _ _ _ _ _ _ run, THEN conjunct2]))
      (simp_all add: init_otp_def example_settings_def default_settings_def require_ready_def
        plain_reset_record)
qed

text \<open>C27: A password-reset challenge of the in-process store is granted at most once by any sequence of
  verifications, at whatever times and with whatever emails and codes; and once as many of them
  were answered as attempts were left, granted or refused, the next one is not granted.\<close>

theorem reset_guesses_memory:
  assumes "otp_in_memory s" "require_ready s = Inr ()" "map_of (otp_memory s) (reset_key c) = Some d"
    and "run_all (reset_guess R J H c) gs (s, r) = (rs, st')"
  shows "length (filter granted rs) \<le> 1 \<and>
    (attempts_left s d \<le> length (filter uses_guess rs) \<longrightarrow> \<not> granted (fst (reset_guess R J H c g st')))"
proof -
  have "memory_guess_invar (s, r)" using assms(1,2) by (simp add: memory_guess_invar_def)
  moreover have "slot_left (reset_key c) (s, r) = attempts_left s d" using assms(3) by (simp add: slot_left_def)
  ultimately show ?thesis using reset_memory.bounded_guessing [OF _ assms(4), of g] by metis
qed

theorem reset_guesses_memory_witness:
  "\<exists>rs st'. run_all (reset_guess example_redis example_codec example_hash ''t'')
      [(100, ''a@b.c'', ''111111''), (101, ''a@b.c'', ''000042'')]
      (otp_put 90 (reset_key ''t'') (reset_record ''a@b.c'' ''farm_owner'' 1 ''t:000042'' 150)
         (init_otp example_settings), []) = (rs, st') \<and>
    length (filter granted rs) \<le> 1"
proof -
  let ?s = "otp_put 90 (reset_key ''t'') (reset_record ''a@b.c'' ''farm_owner'' 1 ''t:000042'' 150)
         (init_otp example_settings)"
  obtain rs st' where run: "run_all (reset_guess example_redis example_codec example_hash ''t'')
      [(100, ''a@b.c'', ''111111''), (101, ''a@b.c'', ''000042'')] (?s, []) = (rs, st')"
    by (rule prod.exhaust)
  have "map_of (otp_memory ?s) (reset_key ''t'') = Some (reset_record ''a@b.c'' ''farm_owner'' 1 ''t:000042'' 150)"
    by (simp add: otp_put_def update_conv')
  from reset_guesses_memory [OF _ _ this run] run show ?thesis by simp
qed

end
