(* ===== verification/OtpRace.thy ===== *)
theory OtpRace
  imports OtpGuesses
begin

text \<open>
  Login verifications that interleave. Over Redis a verification reads the challenge in one
  await and writes or deletes it in a later one, and the event loop may run another request
  in between. A request is a process of two steps, a schedule is the sequence of the
  processes' turns; a process that takes both its turns in a row is the verification of
  \<open>EmailOtp\<close>. Over the in-process store the awaits do not suspend (the lock is never held
  across a suspension), and the reset verification is one script call, so neither has
  intermediate states.
\<close>

section \<open>Processes and schedules\<close>

datatype vproc =
    Waiting guess
  | Decided seconds verify_action
  | Finished "exn + unit"

fun verify_step ::
  "('r, 'j) redis \<Rightarrow> 'j codec \<Rightarrow> (string \<Rightarrow> string \<Rightarrow> string) \<Rightarrow> string \<Rightarrow> vproc \<Rightarrow> otp \<times> 'r
    \<Rightarrow> vproc \<times> otp \<times> 'r" where
  "verify_step R J H c (Waiting ((t_load, t_now, t_save), em, code)) st =
     (case require_ready (fst st) of
        Inl e \<Rightarrow> (Finished (Inl e), st)
      | Inr _ \<Rightarrow>
         (case otp_load R J None c t_load st of
            (Inl e, st1) \<Rightarrow> (Finished (Inl e), st1)
          | (Inr None, st1) \<Rightarrow> (Finished (Inl EmailOtpInvalidError), st1)
          | (Inr (Some rec), st1) \<Rightarrow>
              (Decided t_save (verify_decide H (fst st1) c em code t_now rec), st1)))"
| "verify_step R J H c (Decided t_save act) st =
     (case verify_act R J c t_save act st of (res, st1) \<Rightarrow> (Finished res, st1))"
| "verify_step R J H c (Finished res) st = (Finished res, st)"

fun run_schedule ::
  "('r, 'j) redis \<Rightarrow> 'j codec \<Rightarrow> (string \<Rightarrow> string \<Rightarrow> string) \<Rightarrow> string \<Rightarrow> nat list
    \<Rightarrow> vproc list \<Rightarrow> otp \<times> 'r \<Rightarrow> vproc list \<times> otp \<times> 'r" where
  "run_schedule R J H c [] procs st = (procs, st)"
| "run_schedule R J H c (i # is) procs st =
     (if i < length procs then
        (case verify_step R J H c (procs ! i) st of
           (p, st1) \<Rightarrow> run_schedule R J H c is (procs[i := p]) st1)
      else run_schedule R J H c is procs st)"

text \<open>A request that takes its two turns in a row computes the verification: the process
  finishes with its result and leaves its state.\<close>

lemma turns_in_a_row:
  "run_schedule R J H c [0, 0] [Waiting g] st =
     (case login_guess R J H c g st of (res, st1) \<Rightarrow> ([Finished res], st1))"
proof -
  obtain t_load t_now t_save em code where g: "g = ((t_load, t_now, t_save), em, code)"
    by (metis prod.collapse)
  show ?thesis
  proof (cases "require_ready (fst st)")
    case (Inl e)
    then show ?thesis by (simp add: g login_guess_def otp_verify_def)
  next
    case (Inr u)
    obtain res st1 where ld: "otp_load R J None c t_load st = (res, st1)" by (rule prod.exhaust)
    show ?thesis
    proof (cases res)
      case (Inr loaded)
      then show ?thesis using \<open>require_ready (fst st) = Inr u\<close> ld
        by (cases loaded) (auto simp: g login_guess_def otp_verify_def split: prod.splits)
    qed (use Inr ld in \<open>simp add: g login_guess_def otp_verify_def\<close>)
  qed
qed

section \<open>Two requests at once\<close>

definition connected :: "otp \<Rightarrow> otp" where
  "connected s = s\<lparr>otp_redis := True\<rparr>"

lemma connected_simps [simp]:
  "otp_settings (connected s) = otp_settings s" "require_ready (connected s) = require_ready s"
  "otp_redis (connected s)" "connected (connected s) = connected s"
  by (simp_all add: connected_def require_ready_def)

lemma verify_decide_connected [simp]: "verify_decide H (connected s) = verify_decide H s"
  by (intro ext) (simp only: verify_decide_def code_digest_def connected_simps)

lemma otp_command_reachable:
  "reachable R \<Longrightarrow> redis_url (otp_settings s) \<noteq> None \<Longrightarrow>
     otp_command R msg cmd (s, r) = (Inr (fst (cmd r)), connected s, snd (cmd r))"
  by (cases "otp_redis s") (auto simp: otp_command_def otp_redis_client_def redis_ping_def connected_def)

lemma otp_load_reachable:
  "reachable R \<Longrightarrow> redis_url (otp_settings s) \<noteq> None \<Longrightarrow> r_get R (full_key pre c) r = Some raw \<Longrightarrow>
    j_loads J raw = Some (PDict d) \<Longrightarrow> otp_load R J pre c t (s, r) = (Inr (Some d), connected s, r)"
  by (simp add: otp_load_def otp_command_reachable)

lemma otp_delete_reachable:
  "reachable R \<Longrightarrow> redis_url (otp_settings s) \<noteq> None \<Longrightarrow>
    otp_delete R pre c (s, r) = (Inr (), connected s, r_del R (full_key pre c) r)"
  by (simp add: otp_delete_def otp_command_reachable)

lemma otp_save_reachable:
  "reachable R \<Longrightarrow> redis_url (otp_settings s) \<noteq> None \<Longrightarrow> otp_save R J pre c rec ttl t (s, r) =
    (Inr (), connected s, r_set_ex R (full_key pre c) (j_dumps J (PDict rec)) (max ttl 1) r)"
  by (simp add: otp_save_def otp_command_reachable)

text \<open>C34: Single use fails over Redis when two requests overlap: two verifications of one challenge
  that both read it before either deletes it are both granted, where the second of two
  consecutive ones is refused.\<close>

theorem overlapping_logins_both_granted:
  assumes "reachable R" "redis_kv R" "redis_url (otp_settings s) \<noteq> None" "require_ready s = Inr ()"
    and "r_get R (full_key None c) r = Some raw" "j_loads J raw = Some (PDict d)"
    and "verify_decide H s c em code t1 d = Accept" "verify_decide H s c em' code' t2 d = Accept"
  shows "fst (run_schedule R J H c [0, 1, 0, 1]
      [Waiting ((t1, t1, t1), em, code), Waiting ((t2, t2, t2), em', code')] (s, r))
      = [Finished (Inr ()), Finished (Inr ())] \<and>
    fst (run_schedule R J H c [0, 0, 1, 1]
      [Waiting ((t1, t1, t1), em, code), Waiting ((t2, t2, t2), em', code')] (s, r))
      = [Finished (Inr ()), Finished (Inl EmailOtpInvalidError)]"
proof -
  let ?k = "full_key None c"
  have gone: "r_get R ?k (r_del R ?k r) = None" by (simp add: redis_kvD(3) [OF assms(2)])
  then have none: "otp_load R J None c t2 (connected s, r_del R ?k r) =
      (Inr None, connected s, r_del R ?k r)"
    using assms(1,3) by (simp add: otp_load_def otp_command_reachable)
  show ?thesis using assms gone none
    by (simp add: otp_load_reachable otp_delete_reachable verify_act_def)
qed

theorem overlapping_logins_both_granted_witness:
  "fst (run_schedule example_redis example_codec example_hash ''t'' [0, 1, 0, 1]
      [Waiting ((100, 100, 100), ''a@b.c'', ''000042''), Waiting ((100, 100, 100), ''a@b.c'', ''000042'')]
      (init_otp (example_settings\<lparr>redis_url := Some ''redis://r''\<rparr>),
       [(full_key None ''t'', PDict (login_record ''t:000042'' ''a@b.c'' 150))]))
    = [Finished (Inr ()), Finished (Inr ())]"
proof -
  let ?s = "init_otp (example_settings\<lparr>redis_url := Some ''redis://r''\<rparr>)"
  let ?d = "login_record ''t:000042'' ''a@b.c'' 150"
  have acc: "verify_decide example_hash ?s ''t'' ''a@b.c'' ''000042'' 100 ?d = Accept"
    by (simp add: verify_decide_def code_digest_def compare_digest_str_def Let_def dget_def init_otp_def
        example_settings_def default_settings_def login_record_def example_hash_def) (simp add: is_ascii_def)
  show ?thesis
    by (rule conjunct1 [OF overlapping_logins_both_granted [where d = ?d, OF _ _ _ _ _ _ acc acc]])
      (simp_all add: init_otp_def example_settings_def default_settings_def require_ready_def)
qed

text \<open>C35: Counting fails in the same way: two overlapping wrong guesses both write the counter one
  above the value they read, so the challenge has counted one attempt for two guesses.\<close>

theorem overlapping_guesses_counted_once:
  assumes "reachable R" "redis_kv R" "redis_url (otp_settings s) \<noteq> None" "require_ready s = Inr ()"
    and "r_get R (full_key None c) r = Some raw" "j_loads J raw = Some (PDict d)"
    and "as_int (dget d ''attempts'') = Some a"
    and "verify_decide H s c em code t1 d = Reject_save d1 ttl1"
    and "verify_decide H s c em' code' t2 d = Reject_save d2 ttl2"
    and "run_schedule R J H c [0, 1, 0, 1]
      [Waiting ((t1, t1, t1), em, code), Waiting ((t2, t2, t2), em', code')] (s, r) = (procs, s', r')"
  shows "procs = [Finished (Inl EmailOtpInvalidError), Finished (Inl EmailOtpInvalidError)] \<and>
    r_get R (full_key None c) r' =
      Some (j_dumps J (PDict (AList.update ''attempts'' (PInt (a + 1)) d)))"
proof -
  have d: "d1 = AList.update ''attempts'' (PInt (a + 1)) d" "d2 = AList.update ''attempts'' (PInt (a + 1)) d"
    using assms(7-9) by (auto elim!: verify_decide_Save)
  have "procs = [Finished (Inl EmailOtpInvalidError), Finished (Inl EmailOtpInvalidError)]"
    "r' = r_set_ex R (full_key None c) (j_dumps J (PDict d2)) (max ttl2 1)
      (r_set_ex R (full_key None c) (j_dumps J (PDict d1)) (max ttl1 1) r)"
    using assms(10) assms(1,3-6,8,9)
    by (simp_all add: otp_load_reachable otp_save_reachable verify_act_def)
  then show ?thesis by (simp add: redis_kvD(1) [OF assms(2)] d)
qed

theorem overlapping_guesses_counted_once_witness:
  "r_get example_redis (full_key None ''t'') (snd (snd
     (run_schedule example_redis example_codec example_hash ''t'' [0, 1, 0, 1]
      [Waiting ((100, 100, 100), ''a@b.c'', ''000001''), Waiting ((100, 100, 100), ''a@b.c'', ''000002'')]
      (init_otp (example_settings\<lparr>redis_url := Some ''redis://r''\<rparr>),
       [(full_key None ''t'', PDict (login_record ''t:000042'' ''a@b.c'' 150))]))))
    = Some (PDict (AList.update ''attempts'' (PInt 1) (login_record ''t:000042'' ''a@b.c'' 150)))"
proof -
  let ?s = "init_otp (example_settings\<lparr>redis_url := Some ''redis://r''\<rparr>)"
  let ?d = "login_record ''t:000042'' ''a@b.c'' 150"
  have rej: "verify_decide example_hash ?s ''t'' ''a@b.c'' code 100 ?d =
      Reject_save (AList.update ''attempts'' (PInt 1) ?d) 50"
    if "code = ''000001'' \<or> code = ''000002''" for code
    using that
    by (auto simp: verify_decide_def code_digest_def compare_digest_str_def Let_def dget_def init_otp_def
        example_settings_def default_settings_def login_record_def example_hash_def) (simp_all add: is_ascii_def)
  obtain procs s' r' where run: "run_schedule example_redis example_codec example_hash ''t'' [0, 1, 0, 1]
      [Waiting ((100, 100, 100), ''a@b.c'', ''000001''), Waiting ((100, 100, 100), ''a@b.c'', ''000002'')]
      (?s, [(full_key None ''t'', PDict ?d)]) = (procs, s', r')"
    by (rule prod_cases3)
  have a: "as_int (dget ?d ''attempts'') = Some 0" by (simp add: dget_def login_record_def)
  from overlapping_guesses_counted_once [OF _ _ _ _ _ _ a rej rej run] run show ?thesis
    by (simp add: init_otp_def example_settings_def default_settings_def require_ready_def)
qed

end
