(* ===== verification/Repository.thy ===== *)
theory Repository
  imports Config Identity
begin

text \<open>
  \<open>app/core/database.py\<close> and \<open>app/repositories/identity_repository.py\<close>: the lazily created
  pool, connections, the readiness probe, and the two identity queries over the three tables.
  Parameters: what creating the pool and running a statement answer, the tables' contents,
  and PostgreSQL's \<open>lower\<close>. A \<open>DatabaseError\<close> stands for \<open>PostgresError\<close> and \<open>OSError\<close>.
\<close>

section \<open>Tables and connections\<close>

record farm_owner_row =
  fo_id :: int
  fo_email :: string
  fo_password :: string
  fo_name :: "string option"
  fo_id_farm :: "int option"
  fo_first_access :: "bool option"

record company_employee_row =
  ce_id :: int
  ce_email :: string
  ce_password :: string
  ce_name :: "string option"
  ce_id_enterprise :: "int option"

record adm_row =
  ad_id :: int
  ad_email :: string
  ad_password :: string
  ad_name :: "string option"

record tables =
  farm_owners :: "farm_owner_row list"
  company_employees :: "company_employee_row list"
  adms :: "adm_row list"

text \<open>
  The server side of one use of the database: the answers to creating a pool and to running
  statements on an acquired connection, the tables, and \<open>lower\<close>.
\<close>

record postgres =
  pg_create_pool :: "exn + unit"
  pg_statement :: "exn + unit"
  pg_tables :: tables
  pg_lower :: "string \<Rightarrow> string"

record database =
  db_settings :: settings
  db_pool :: bool

definition init_database :: "settings \<Rightarrow> database" where
  "init_database cfg = \<lparr>db_settings = cfg, db_pool = False\<rparr>"

definition db_connect :: "postgres \<Rightarrow> database \<Rightarrow> (exn, database, unit) outcome" where
  "db_connect pg s =
    (if db_pool s then (Inr (), s)
     else if str_falsy (database_url (db_settings s)) then (Inl DatabaseNotConfiguredError, s)
     else (case pg_create_pool pg of
             Inl e \<Rightarrow> (Inl e, s)
           | Inr _ \<Rightarrow> (Inr (), s\<lparr>db_pool := True\<rparr>)))"

definition db_close :: "database \<Rightarrow> database" where
  "db_close s = (if db_pool s then s\<lparr>db_pool := False\<rparr> else s)"

text \<open>\<open>connection()\<close> around a read-only body, which is a function of the tables.\<close>

definition db_connection :: "postgres \<Rightarrow> (tables \<Rightarrow> 'a) \<Rightarrow> database \<Rightarrow> (exn, database, 'a) outcome" where
  "db_connection pg body s =
    and_then (if db_pool s then (Inr (), s) else db_connect pg s) (\<lambda>_ s1.
      if \<not> db_pool s1 then (Inl (RuntimeError ''Database pool is not initialized''), s1)
      else (case pg_statement pg of
              Inl e \<Rightarrow> (Inl e, s1)
            | Inr _ \<Rightarrow> (Inr (body (pg_tables pg)), s1)))"

text \<open>\<open>ping\<close>: the listed exceptions mean not available; any other escapes.\<close>

definition db_ping :: "postgres \<Rightarrow> database \<Rightarrow> (exn, database, bool) outcome" where
  "db_ping pg s =
    (case db_connection pg (\<lambda>_. (1 :: int)) s of
       (Inr v, s1) \<Rightarrow> (Inr (v = 1), s1)
     | (Inl e, s1) \<Rightarrow>
         (case e of
            DatabaseError \<Rightarrow> (Inr False, s1)
          | DatabaseNotConfiguredError \<Rightarrow> (Inr False, s1)
          | RuntimeError _ \<Rightarrow> (Inr False, s1)
          | ValueError _ \<Rightarrow> (Inr False, s1)
          | _ \<Rightarrow> (Inl e, s1)))"

section \<open>The queries\<close>

record identity_row =
  row_database_id :: int
  row_email :: string
  row_password_hash :: string
  row_account_type :: string
  row_name :: "string option"
  row_farm_id :: "int option"
  row_enterprise_id :: "int option"
  row_first_access :: "bool option"

definition select_farm_owner :: "farm_owner_row \<Rightarrow> identity_row" where
  "select_farm_owner x = \<lparr>row_database_id = fo_id x, row_email = fo_email x,
     row_password_hash = fo_password x, row_account_type = ''farm_owner'', row_name = fo_name x,
     row_farm_id = fo_id_farm x, row_enterprise_id = None, row_first_access = fo_first_access x\<rparr>"

definition select_company_employee :: "company_employee_row \<Rightarrow> identity_row" where
  "select_company_employee x = \<lparr>row_database_id = ce_id x, row_email = ce_email x,
     row_password_hash = ce_password x, row_account_type = ''company_employee'', row_name = ce_name x,
     row_farm_id = None, row_enterprise_id = ce_id_enterprise x, row_first_access = None\<rparr>"

definition select_adm :: "adm_row \<Rightarrow> identity_row" where
  "select_adm x = \<lparr>row_database_id = ad_id x, row_email = ad_email x,
     row_password_hash = ad_password x, row_account_type = ''admin'', row_name = ad_name x,
     row_farm_id = None, row_enterprise_id = None, row_first_access = None\<rparr>"

text \<open>The union of the three selects, the optional filter, and the ordering.\<close>

definition union_rows :: "(string \<Rightarrow> string) \<Rightarrow> string \<Rightarrow> tables \<Rightarrow> identity_row list" where
  "union_rows lower arg t =
     map select_farm_owner (filter (\<lambda>x. lower (fo_email x) = arg) (farm_owners t)) @
     map select_company_employee (filter (\<lambda>x. lower (ce_email x) = arg) (company_employees t)) @
     map select_adm (filter (\<lambda>x. lower (ad_email x) = arg) (adms t))"

definition find_identities_sql ::
  "(string \<Rightarrow> string) \<Rightarrow> string \<Rightarrow> string option \<Rightarrow> tables \<Rightarrow> identity_row list" where
  "find_identities_sql lower arg1 arg2 t =
     sort_key (\<lambda>row. (row_account_type row, row_database_id row))
       (filter (\<lambda>row. arg2 = None \<or> arg2 = Some (row_account_type row)) (union_rows lower arg1 t))"

fun find_by_id_sql :: "account_type \<Rightarrow> int \<Rightarrow> tables \<Rightarrow> identity_row list" where
  "find_by_id_sql FARM_OWNER i t = map select_farm_owner (filter (\<lambda>x. fo_id x = i) (farm_owners t))"
| "find_by_id_sql COMPANY_EMPLOYEE i t =
     map select_company_employee (filter (\<lambda>x. ce_id x = i) (company_employees t))"
| "find_by_id_sql ADMIN i t = map select_adm (filter (\<lambda>x. ad_id x = i) (adms t))"

definition row_to_identity :: "identity_row \<Rightarrow> exn + stored_identity" where
  "row_to_identity row =
    (case account_of_value (row_account_type row) of
       None \<Rightarrow> Inl (ValueError ''not a valid AccountType'')
     | Some a \<Rightarrow> Inr \<lparr>si_database_id = row_database_id row, si_email = row_email row,
         si_password_hash = row_password_hash row, si_account_type = a, si_name = row_name row,
         si_farm_id = row_farm_id row, si_enterprise_id = row_enterprise_id row,
         si_first_access = row_first_access row\<rparr>)"

fun rows_to_identities :: "identity_row list \<Rightarrow> exn + stored_identity list" where
  "rows_to_identities [] = Inr []"
| "rows_to_identities (row # rows) =
     (case row_to_identity row of
        Inl e \<Rightarrow> Inl e
      | Inr i \<Rightarrow> (case rows_to_identities rows of Inl e \<Rightarrow> Inl e | Inr is \<Rightarrow> Inr (i # is)))"

definition find_by_email ::
  "postgres \<Rightarrow> string \<Rightarrow> account_type option \<Rightarrow> database \<Rightarrow> (exn, database, stored_identity list) outcome" where
  "find_by_email pg em account_type s =
    and_then
      (db_connection pg
        (find_identities_sql (pg_lower pg) (py_lower (py_strip em)) (map_option account_value account_type)) s)
      (\<lambda>rows s1. (rows_to_identities rows, s1))"

definition find_by_external_id ::
  "postgres \<Rightarrow> account_type \<Rightarrow> int \<Rightarrow> database \<Rightarrow> (exn, database, stored_identity option) outcome" where
  "find_by_external_id pg account_type i s =
    and_then (db_connection pg (find_by_id_sql account_type i) s) (\<lambda>rows s1.
      case rows of
        [] \<Rightarrow> (Inr None, s1)
      | row # _ \<Rightarrow>
          (case row_to_identity row of Inl e \<Rightarrow> (Inl e, s1) | Inr i \<Rightarrow> (Inr (Some i), s1)))"

section \<open>Lemmas\<close>

text \<open>The identity a selected row stands for.\<close>

definition row_identity :: "identity_row \<Rightarrow> stored_identity" where
  "row_identity row = (case row_to_identity row of Inr i \<Rightarrow> i)"

definition known_type :: "identity_row \<Rightarrow> bool" where
  "known_type row \<longleftrightarrow> (\<exists>a. row_account_type row = account_value a)"

lemma known_select [simp]:
  "known_type (select_farm_owner x)" "known_type (select_company_employee y)" "known_type (select_adm z)"
  unfolding known_type_def select_farm_owner_def select_company_employee_def select_adm_def
  by (rule exI [of _ FARM_OWNER], simp, rule exI [of _ COMPANY_EMPLOYEE], simp, rule exI [of _ ADMIN], simp)

lemma row_to_identity_known: "known_type row \<Longrightarrow> row_to_identity row = Inr (row_identity row)"
  by (auto simp: known_type_def row_to_identity_def row_identity_def)

lemma rows_to_identities_known:
  "\<forall>row \<in> set rows. known_type row \<Longrightarrow> rows_to_identities rows = Inr (map row_identity rows)"
  by (induction rows) (auto simp: row_to_identity_known)

lemma row_identity_fields:
  "known_type row \<Longrightarrow> account_value (si_account_type (row_identity row)) = row_account_type row \<and>
     si_database_id (row_identity row) = row_database_id row \<and> si_email (row_identity row) = row_email row \<and>
     si_password_hash (row_identity row) = row_password_hash row"
  by (auto simp: known_type_def row_to_identity_def row_identity_def)

lemma known_union: "row \<in> set (union_rows lower arg t) \<Longrightarrow> known_type row"
  by (auto simp: union_rows_def)

lemma known_sql: "row \<in> set (find_identities_sql lower arg ty t) \<Longrightarrow> known_type row"
  by (auto simp: find_identities_sql_def dest: known_union)

lemma find_by_id_known: "row \<in> set (find_by_id_sql a i t) \<Longrightarrow> known_type row"
  by (cases a) auto

text \<open>What \<open>find_by_email\<close> answers on a working database.\<close>

definition found_identities :: "postgres \<Rightarrow> string \<Rightarrow> account_type option \<Rightarrow> stored_identity list" where
  "found_identities pg em ty = map row_identity
     (find_identities_sql (pg_lower pg) (py_lower (py_strip em)) (map_option account_value ty) (pg_tables pg))"

lemma find_by_email_working:
  assumes "db_pool s" "pg_statement pg = Inr ()"
  shows "find_by_email pg em ty s = (Inr (found_identities pg em ty), s)"
  using assms rows_to_identities_known [of "find_identities_sql (pg_lower pg) (py_lower (py_strip em))
      (map_option account_value ty) (pg_tables pg)"]
  by (simp add: find_by_email_def db_connection_def known_sql found_identities_def)

lemma find_by_email_cases:
  obtains (failed) e s' where "find_by_email pg em ty s = (Inl e, s')"
    | (found) s' where "find_by_email pg em ty s = (Inr (found_identities pg em ty), s')"
proof -
  obtain res s1 where c: "db_connection pg
      (find_identities_sql (pg_lower pg) (py_lower (py_strip em)) (map_option account_value ty)) s = (res, s1)"
    by (rule prod.exhaust)
  show thesis
  proof (cases res)
    case (Inl e)
    with c failed show thesis by (simp add: find_by_email_def)
  next
    case (Inr rows)
    then have "rows = find_identities_sql (pg_lower pg) (py_lower (py_strip em))
        (map_option account_value ty) (pg_tables pg)"
      using c by (auto simp: db_connection_def split: sum.splits if_splits elim!: and_then_InrE)
    then show thesis using c Inr found rows_to_identities_known [of rows]
      by (simp add: find_by_email_def known_sql found_identities_def)
  qed
qed

text \<open>The tables name a row by its id.\<close>

definition distinct_ids :: "tables \<Rightarrow> bool" where
  "distinct_ids t \<longleftrightarrow> distinct (map fo_id (farm_owners t)) \<and> distinct (map ce_id (company_employees t)) \<and>
     distinct (map ad_id (adms t))"

definition row_key :: "identity_row \<Rightarrow> string \<times> int" where
  "row_key row = (row_account_type row, row_database_id row)"

lemma distinct_union_keys:
  assumes "distinct_ids t"
  shows "distinct (map row_key (union_rows lower arg t))"
proof -
  have sub: "distinct (map f xs) \<Longrightarrow> distinct (map (\<lambda>x. (c, f x)) (filter P xs))" for f :: "'x \<Rightarrow> int" and c :: string and P xs
    by (induction xs) auto
  show ?thesis using assms
    by (auto simp: union_rows_def distinct_ids_def row_key_def select_farm_owner_def
        select_company_employee_def select_adm_def comp_def sub)
qed

lemma distinct_map_filter_key: "distinct (map f xs) \<Longrightarrow> distinct (map f (filter P xs))"
  by (rule distinct_map_filter)

lemma sorted_distinct_found:
  assumes "distinct_ids (pg_tables pg)"
  shows "sorted (map (\<lambda>i. (si_account_type i, si_database_id i)) (found_identities pg em ty))"
    and "distinct (map (\<lambda>i. (si_account_type i, si_database_id i)) (found_identities pg em ty))"
proof -
  let ?rows = "find_identities_sql (pg_lower pg) (py_lower (py_strip em)) (map_option account_value ty) (pg_tables pg)"
  let ?k = "\<lambda>i. (si_account_type i, si_database_id i)"
  have known: "\<forall>row \<in> set ?rows. known_type row" by (simp add: known_sql)
  have key: "row_key row = (account_value (fst (?k (row_identity row))), snd (?k (row_identity row)))"
    if "known_type row" for row
    using row_identity_fields [OF that] by (simp add: row_key_def)
  have le: "row_key x \<le> row_key y \<longleftrightarrow> ?k (row_identity x) \<le> ?k (row_identity y)"
    if "known_type x" "known_type y" for x y
    using key [OF that(1)] key [OF that(2)]
    by (auto simp: less_eq_prod_def less_account_type_def less_eq_account_type_def)
  have "sorted (map row_key ?rows)"
    unfolding find_identities_sql_def row_key_def by (rule sorted_sort_key)
  then show "sorted (map ?k (found_identities pg em ty))"
    using known le by (simp add: found_identities_def sorted_map comp_def)
      (metis (no_types, lifting) sorted_wrt_mono_rel)
  have "distinct (map row_key ?rows)"
    using distinct_map_filter_key [OF distinct_union_keys [OF assms]]
    by (simp add: find_identities_sql_def distinct_map)
  then have "inj_on row_key (set ?rows)" "distinct ?rows" by (simp_all add: distinct_map)
  moreover have "inj_on (\<lambda>row. ?k (row_identity row)) (set ?rows)"
    using \<open>inj_on row_key (set ?rows)\<close> known key by (auto simp: inj_on_def)
  ultimately show "distinct (map ?k (found_identities pg em ty))"
    by (simp add: found_identities_def comp_def distinct_map)
qed

lemma selected_email:
  "si_email (row_identity (select_farm_owner x)) = fo_email x"
  "si_email (row_identity (select_company_employee y)) = ce_email y"
  "si_email (row_identity (select_adm z)) = ad_email z"
  using row_identity_fields [OF known_select(1), of x] row_identity_fields [OF known_select(2), of y]
    row_identity_fields [OF known_select(3), of z]
  by (simp_all add: select_farm_owner_def select_company_employee_def select_adm_def)

lemma image_of_union:
  assumes "\<And>x. q (r (f x)) = p1 x" "\<And>x. q (r (g x)) = p2 x" "\<And>x. q (r (h x)) = p3 x"
  shows "r ` {row \<in> f ` {x \<in> A. p1 x} \<union> (g ` {x \<in> B. p2 x} \<union> h ` {x \<in> C. p3 x}). keep (r row)} =
    {i. (\<exists>x \<in> A. i = r (f x)) \<or> (\<exists>x \<in> B. i = r (g x)) \<or> (\<exists>x \<in> C. i = r (h x))} \<inter> {i. q i \<and> keep i}"
  unfolding assms [symmetric] by blast

text \<open>C30: The identity query answers, in the order of account type and id and without repetition,
  exactly the rows of the three tables whose lower-cased email is the normalised argument and
  whose account type is the requested one, if one is requested.\<close>

theorem find_by_email_exact:
  assumes "db_pool s" "pg_statement pg = Inr ()" "distinct_ids (pg_tables pg)"
  shows "\<exists>ids. find_by_email pg em ty s = (Inr ids, s) \<and>
    sorted (map (\<lambda>i. (si_account_type i, si_database_id i)) ids) \<and>
    distinct (map (\<lambda>i. (si_account_type i, si_database_id i)) ids) \<and>
    set ids = {i. (\<exists>x \<in> set (farm_owners (pg_tables pg)). i = row_identity (select_farm_owner x)) \<or>
                  (\<exists>x \<in> set (company_employees (pg_tables pg)). i = row_identity (select_company_employee x)) \<or>
                  (\<exists>x \<in> set (adms (pg_tables pg)). i = row_identity (select_adm x))} \<inter>
      {i. pg_lower pg (si_email i) = py_lower (py_strip em) \<and> (ty = None \<or> ty = Some (si_account_type i))}"
proof -
  have ty: "(map_option account_value ty = None \<or> map_option account_value ty = Some (row_account_type row))
      = (ty = None \<or> ty = Some (si_account_type (row_identity row)))" if "known_type row" for row
    using row_identity_fields [OF that] by (cases ty) (auto, metis account_value_inject)
  have "set (found_identities pg em ty) = row_identity ` {row \<in> set (union_rows (pg_lower pg) (py_lower (py_strip em)) (pg_tables pg)).
      ty = None \<or> ty = Some (si_account_type (row_identity row))}"
  proof -
    have "{row \<in> set (union_rows (pg_lower pg) (py_lower (py_strip em)) (pg_tables pg)).
        map_option account_value ty = None \<or> map_option account_value ty = Some (row_account_type row)} =
      {row \<in> set (union_rows (pg_lower pg) (py_lower (py_strip em)) (pg_tables pg)).
        ty = None \<or> ty = Some (si_account_type (row_identity row))}"
      using ty known_union by blast
    then show ?thesis by (simp add: found_identities_def find_identities_sql_def)
  qed
  also have "\<dots> = {i. (\<exists>x \<in> set (farm_owners (pg_tables pg)). i = row_identity (select_farm_owner x)) \<or>
                  (\<exists>x \<in> set (company_employees (pg_tables pg)). i = row_identity (select_company_employee x)) \<or>
                  (\<exists>x \<in> set (adms (pg_tables pg)). i = row_identity (select_adm x))} \<inter>
      {i. pg_lower pg (si_email i) = py_lower (py_strip em) \<and> (ty = None \<or> ty = Some (si_account_type i))}"
    unfolding union_rows_def set_append set_map set_filter
    by (rule image_of_union) (simp_all add: selected_email)
  finally show ?thesis
    by (intro exI [of _ "found_identities pg em ty"] conjI find_by_email_working [OF assms(1,2)]
        sorted_distinct_found [OF assms(3)])
qed


text \<open>A small database for the witnesses.\<close>

definition example_tables :: tables where
  "example_tables = \<lparr>
     farm_owners = [\<lparr>fo_id = 7, fo_email = ''Ana@farm.br'', fo_password = ''h1'', fo_name = None,
       fo_id_farm = Some 3, fo_first_access = Some False\<rparr>],
     company_employees = [\<lparr>ce_id = 7, ce_email = ''ana@farm.br'', ce_password = ''h2'', ce_name = None,
       ce_id_enterprise = Some 4\<rparr>],
     adms = [\<lparr>ad_id = 1, ad_email = ''root@farm.br'', ad_password = ''h3'', ad_name = None\<rparr>]\<rparr>"

definition example_postgres :: postgres where
  "example_postgres = \<lparr>pg_create_pool = Inr (), pg_statement = Inr (), pg_tables = example_tables,
     pg_lower = py_lower\<rparr>"

lemma example_postgres_working [simp]:
  "pg_statement example_postgres = Inr ()" "distinct_ids (pg_tables example_postgres)"
  by (simp_all add: example_postgres_def example_tables_def distinct_ids_def)

theorem find_by_email_exact_witness:
  "\<exists>ids. find_by_email example_postgres ''ANA@farm.br '' None \<lparr>db_settings = default_settings, db_pool = True\<rparr>
      = (Inr ids, \<lparr>db_settings = default_settings, db_pool = True\<rparr>) \<and>
    sorted (map (\<lambda>i. (si_account_type i, si_database_id i)) ids) \<and>
    row_identity (select_farm_owner (hd (farm_owners example_tables))) \<in> set ids"
proof -
  have "pg_lower example_postgres (si_email (row_identity (select_farm_owner (hd (farm_owners example_tables)))))
      = py_lower (py_strip ''ANA@farm.br '')"
    by code_simp
  moreover have "hd (farm_owners example_tables) \<in> set (farm_owners (pg_tables example_postgres))"
    by (simp add: example_postgres_def example_tables_def)
  ultimately show ?thesis
    using find_by_email_exact [where s = "\<lparr>db_settings = default_settings, db_pool = True\<rparr>"
        and pg = example_postgres and em = "''ANA@farm.br ''" and ty = None]
    by auto
qed

end
