(* ===== verification/AuthService.thy ===== *)
theory AuthService
  imports Repository Schemas
begin

text \<open>
  \<open>app/core/security.py\<close> and \<open>app/services/auth_service.py\<close>: bcrypt comparison of legacy
  hashes, credential verification, and the two lookups. bcrypt is a parameter
  \<open>checkpw password hash\<close>, which may raise; the state of a credential verification carries the
  list of the hashes compared so far, which stands for the time the request takes.
\<close>

section \<open>Passwords\<close>

definition normalize_bcrypt_prefix :: "string \<Rightarrow> string" where
  "normalize_bcrypt_prefix encoded =
    (if starts_with ''$2y$'' encoded then ''$2b$'' @ drop 4 encoded else encoded)"

definition verify_password :: "(string \<Rightarrow> string \<Rightarrow> exn + bool) \<Rightarrow> string \<Rightarrow> string \<Rightarrow> exn + bool" where
  "verify_password checkpw raw_password encoded_password =
    (case checkpw raw_password (normalize_bcrypt_prefix encoded_password) of
       Inr b \<Rightarrow> Inr b
     | Inl (ValueError _) \<Rightarrow> Inr False
     | Inl TypeError \<Rightarrow> Inr False
     | Inl e \<Rightarrow> Inl e)"

text \<open>A comparison in a thread: its outcome, with the hash added to the list of comparisons.\<close>

definition compare_in_thread ::
  "(string \<Rightarrow> string \<Rightarrow> exn + bool) \<Rightarrow> string \<Rightarrow> string \<Rightarrow> database \<times> string list
    \<Rightarrow> (exn, database \<times> string list, bool) outcome" where
  "compare_in_thread checkpw raw encoded = (\<lambda>(db, work). (verify_password checkpw raw encoded, db, work @ [encoded]))"

definition burn_dummy_password_check ::
  "(string \<Rightarrow> string \<Rightarrow> exn + bool) \<Rightarrow> string \<Rightarrow> string \<Rightarrow> database \<times> string list
    \<Rightarrow> (exn, database \<times> string list, unit) outcome" where
  "burn_dummy_password_check checkpw dummy raw st =
    and_then (compare_in_thread checkpw raw dummy st) (\<lambda>_ st. (Inr (), st))"

section \<open>The service\<close>

fun matching_identities ::
  "(string \<Rightarrow> string \<Rightarrow> exn + bool) \<Rightarrow> string \<Rightarrow> stored_identity list \<Rightarrow> database \<times> string list
    \<Rightarrow> (exn, database \<times> string list, stored_identity list) outcome" where
  "matching_identities checkpw raw [] st = (Inr [], st)"
| "matching_identities checkpw raw (i # is) st =
     and_then (compare_in_thread checkpw raw (si_password_hash i) st) (\<lambda>is_match st.
       and_then (matching_identities checkpw raw is st) (\<lambda>rest st.
         (Inr (if is_match then i # rest else rest), st)))"

definition verify_credentials ::
  "postgres \<Rightarrow> (string \<Rightarrow> string \<Rightarrow> exn + bool) \<Rightarrow> string \<Rightarrow> credential_request
    \<Rightarrow> database \<times> string list \<Rightarrow> (exn, database \<times> string list, credential_response) outcome" where
  "verify_credentials pg checkpw dummy request = (\<lambda>(db, work).
    and_then
      (case find_by_email pg (cr_email request) (cr_account_type request) db of (res, db1) \<Rightarrow> (res, db1, work))
      (\<lambda>identities st.
         if identities = [] then
           and_then (burn_dummy_password_check checkpw dummy (cr_password request) st)
             (\<lambda>_ st. (Inl InvalidCredentialsError, st))
         else
           and_then (matching_identities checkpw (cr_password request) identities st) (\<lambda>matches st.
             case matches of
               [] \<Rightarrow> (Inl InvalidCredentialsError, st)
             | [i] \<Rightarrow> (Inr \<lparr>cp_authenticated = True, cp_identity = from_identity i\<rparr>, st)
             | _ \<Rightarrow> (Inl AmbiguousIdentityError, st))))"

definition lookup_identity_by_email ::
  "postgres \<Rightarrow> string \<Rightarrow> database \<Rightarrow> (exn, database, identity_response option) outcome" where
  "lookup_identity_by_email pg em db =
    and_then (find_by_email pg em None db) (\<lambda>identities db1.
      case identities of
        [] \<Rightarrow> (Inr None, db1)
      | [i] \<Rightarrow> (Inr (Some (from_identity i)), db1)
      | _ \<Rightarrow> (Inl AmbiguousIdentityError, db1))"

definition lookup_identity_by_external_id ::
  "postgres \<Rightarrow> account_type \<Rightarrow> int \<Rightarrow> database \<Rightarrow> (exn, database, identity_response option) outcome" where
  "lookup_identity_by_external_id pg account_type i db =
    and_then (find_by_external_id pg account_type i db) (\<lambda>identity db1.
      (Inr (map_option from_identity identity), db1))"

section \<open>Lemmas\<close>

text \<open>bcrypt raises nothing but the two exceptions the code catches.\<close>

definition bcrypt_total :: "(string \<Rightarrow> string \<Rightarrow> exn + bool) \<Rightarrow> bool" where
  "bcrypt_total checkpw \<longleftrightarrow>
     (\<forall>p h. case checkpw p h of Inr _ \<Rightarrow> True | Inl e \<Rightarrow> e = TypeError \<or> (\<exists>m. e = ValueError m))"

definition password_matches :: "(string \<Rightarrow> string \<Rightarrow> exn + bool) \<Rightarrow> string \<Rightarrow> string \<Rightarrow> bool" where
  "password_matches checkpw raw encoded \<longleftrightarrow> checkpw raw (normalize_bcrypt_prefix encoded) = Inr True"

lemma verify_password_total:
  "bcrypt_total checkpw \<Longrightarrow> verify_password checkpw raw encoded = Inr (password_matches checkpw raw encoded)"
  using spec [of _ raw, THEN spec [of _ "normalize_bcrypt_prefix encoded"], of "\<lambda>p h. case checkpw p h of
      Inr _ \<Rightarrow> True | Inl e \<Rightarrow> e = TypeError \<or> (\<exists>m. e = ValueError m)"]
  by (auto simp: verify_password_def password_matches_def bcrypt_total_def split: sum.splits exn.splits)

lemma matching_identities_total:
  "bcrypt_total checkpw \<Longrightarrow> matching_identities checkpw raw is (db, work) =
     (Inr (filter (\<lambda>i. password_matches checkpw raw (si_password_hash i)) is),
      db, work @ map si_password_hash is)"
  by (induction "is" arbitrary: work) (auto simp: compare_in_thread_def verify_password_total)

lemma verify_credentials_no_match:
  assumes "bcrypt_total checkpw" "db_pool db" "pg_statement pg = Inr ()"
    and "filter (\<lambda>i. password_matches checkpw (cr_password request) (si_password_hash i))
      (found_identities pg (cr_email request) (cr_account_type request)) = []"
  shows "\<exists>work'. verify_credentials pg checkpw dummy request (db, work) = (Inl InvalidCredentialsError, db, work')"
  using assms
  by (cases "found_identities pg (cr_email request) (cr_account_type request) = []")
    (simp_all add: verify_credentials_def find_by_email_working burn_dummy_password_check_def
      compare_in_thread_def verify_password_total matching_identities_total)

lemma verify_credentials_one_match:
  assumes "bcrypt_total checkpw" "db_pool db" "pg_statement pg = Inr ()"
    and "filter (\<lambda>i. password_matches checkpw (cr_password request) (si_password_hash i))
      (found_identities pg (cr_email request) (cr_account_type request)) = [i]"
  shows "\<exists>work'. verify_credentials pg checkpw dummy request (db, work) =
    (Inr \<lparr>cp_authenticated = True, cp_identity = from_identity i\<rparr>, db, work')"
proof -
  have "found_identities pg (cr_email request) (cr_account_type request) \<noteq> []" using assms(4) by auto
  then show ?thesis using assms
    by (simp add: verify_credentials_def find_by_email_working matching_identities_total)
qed

text \<open>C11: Credential verification on a working database: every identity found for the email and
  account type has its hash compared, none is skipped after a match, and one dummy comparison
  is made when there is no identity; the answer is the identity whose password matches when
  there is exactly one, the generic refusal when there is none, the ambiguity error when there
  are several.\<close>

theorem verify_credentials_outcome:
  assumes "bcrypt_total checkpw" "db_pool db" "pg_statement pg = Inr ()"
  shows "verify_credentials pg checkpw dummy request (db, work) =
    (let found = found_identities pg (cr_email request) (cr_account_type request);
         matches = filter (\<lambda>i. password_matches checkpw (cr_password request) (si_password_hash i)) found
     in ((if length matches = 1
          then Inr \<lparr>cp_authenticated = True, cp_identity = from_identity (hd matches)\<rparr>
          else if matches = [] then Inl InvalidCredentialsError else Inl AmbiguousIdentityError),
         db, work @ (if found = [] then [dummy] else map si_password_hash found)))"
proof -
  let ?found = "found_identities pg (cr_email request) (cr_account_type request)"
  let ?matches = "filter (\<lambda>i. password_matches checkpw (cr_password request) (si_password_hash i)) ?found"
  have one: "(case ms of [] \<Rightarrow> (Inl InvalidCredentialsError, st)
      | [i] \<Rightarrow> (Inr \<lparr>cp_authenticated = True, cp_identity = from_identity i\<rparr>, st)
      | _ \<Rightarrow> (Inl AmbiguousIdentityError, st)) =
    (if length ms = 1 then Inr \<lparr>cp_authenticated = True, cp_identity = from_identity (hd ms)\<rparr>
     else if ms = [] then Inl InvalidCredentialsError else Inl AmbiguousIdentityError, st)"
    for ms :: "stored_identity list" and st :: "database \<times> string list"
    by (cases ms rule: remdups_adj.cases) auto
  show ?thesis
  proof (cases "?found = []")
    case True
    then show ?thesis using assms
      by (simp add: verify_credentials_def find_by_email_working burn_dummy_password_check_def
          compare_in_thread_def verify_password_total)
  next
    case False
    then show ?thesis using assms
      by (simp add: verify_credentials_def find_by_email_working matching_identities_total one Let_def)
  qed
qed

definition example_checkpw :: "string \<Rightarrow> string \<Rightarrow> exn + bool" where
  "example_checkpw password h = (if starts_with ''$2b$'' h then Inr (h = ''$2b$'' @ password) else Inl (ValueError ''Invalid salt''))"

lemma example_checkpw_total [simp]: "bcrypt_total example_checkpw"
  by (simp add: bcrypt_total_def example_checkpw_def)

theorem verify_credentials_outcome_witness:
  "snd (snd (verify_credentials example_postgres example_checkpw ''dummy''
     \<lparr>cr_email = ''ana@farm.br'', cr_password = ''x'', cr_account_type = None\<rparr>
     (\<lparr>db_settings = default_settings, db_pool = True\<rparr>, []))) = [''h2'', ''h1'']"
proof -
  have found: "map si_password_hash (found_identities example_postgres ''ana@farm.br'' None) = [''h2'', ''h1'']"
    by code_simp
  then have "found_identities example_postgres ''ana@farm.br'' None \<noteq> []" by force
  with found show ?thesis
    by (subst verify_credentials_outcome) (simp_all add: Let_def)
qed

text \<open>A \<open>$2y$\<close> hash of the Spring services is compared as the \<open>$2b$\<close> hash with the same
  parameters, salt and digest, any other hash as it is, and the two spellings always get the
  same answer.\<close>

lemma bcrypt_prefix_equivalent:
  "verify_password checkpw raw (''$2y$'' @ rest) = verify_password checkpw raw (''$2b$'' @ rest) \<and>
   (starts_with ''$2y$'' encoded \<or> normalize_bcrypt_prefix encoded = encoded) \<and>
   length (normalize_bcrypt_prefix encoded) = length encoded"
proof -
  have "length (''$2b$'' @ drop 4 encoded) = length encoded" if pre: "starts_with ''$2y$'' encoded"
    using starts_withD [OF pre] by auto
  then show ?thesis by (auto simp: verify_password_def normalize_bcrypt_prefix_def)
qed

text \<open>The lookup Keycloak uses by email never picks one of several identities: it answers an
  identity only if it is the only one found, none if none is found, and the ambiguity error
  otherwise.\<close>

lemma lookup_by_email_unambiguous:
  assumes "db_pool db" "pg_statement pg = Inr ()"
  shows "lookup_identity_by_email pg em db =
    (let found = found_identities pg em None
     in (if found = [] then Inr None
         else if length found = 1 then Inr (Some (from_identity (hd found)))
         else Inl AmbiguousIdentityError, db))"
  using assms
  by (cases "found_identities pg em None" rule: remdups_adj.cases)
    (auto simp: lookup_identity_by_email_def find_by_email_working)

end
