(* ===== verification/PasswordReset.thy ===== *)
theory PasswordReset
  imports AuthService OtpReset
begin

text \<open>
  \<open>app/services/password_reset_service.py\<close>: the reset flow, the reset token, the list of used
  tokens in the process and in Redis, and the call to ms-spring-api. Parameters: the JWT library
  \<open>W\<close>, the outside world \<open>'r\<close> with the Redis server \<open>R\<close> and the reply of the Spring endpoint
  \<open>post\<close>, the drawn values and the clock readings.
\<close>

section \<open>Conversions\<close>

text \<open>\<open>int(v)\<close> and \<open>str(v)\<close> on a decoded value; \<open>repr\<close> prints the values that have parts.\<close>

fun underscored_digits :: "string \<Rightarrow> bool" where
  "underscored_digits [] = False"
| "underscored_digits [c] = is_digit c"
| "underscored_digits (c # d # cs) =
     (is_digit c \<and> (if d = CHR ''_'' then underscored_digits cs else underscored_digits (d # cs)))"

definition int_of_str :: "string \<Rightarrow> int option" where
  "int_of_str s =
    (let t = py_strip s;
         neg = starts_with ''-'' t;
         body = (if neg \<or> starts_with ''+'' t then tl t else t);
         digits = filter is_digit body
     in if underscored_digits body \<and> length digits \<le> 4300
        then Some (if neg then - int (py_int_of_digits digits) else int (py_int_of_digits digits))
        else None)"

fun py_int_value :: "pyval \<Rightarrow> exn + int" where
  "py_int_value (PInt i) = Inr i"
| "py_int_value (PBool b) = Inr (if b then 1 else 0)"
| "py_int_value (PFloat q) = Inr (py_int q)"
| "py_int_value (PStr s) =
     (case int_of_str s of None \<Rightarrow> Inl (ValueError ''invalid literal for int()'') | Some i \<Rightarrow> Inr i)"
| "py_int_value _ = Inl TypeError"

fun py_str_value :: "(pyval \<Rightarrow> string) \<Rightarrow> pyval \<Rightarrow> string" where
  "py_str_value repr (PStr s) = s"
| "py_str_value repr PNone = ''None''"
| "py_str_value repr (PBool b) = (if b then ''True'' else ''False'')"
| "py_str_value repr (PInt i) = (if i < 0 then ''-'' else []) @ decimal (nat \<bar>i\<bar>)"
| "py_str_value repr v = repr v"

text \<open>\<open>d[k]\<close>.\<close>

definition py_index :: "pydict \<Rightarrow> string \<Rightarrow> exn + pyval" where
  "py_index d k = (case map_of d k of None \<Rightarrow> Inl (KeyError k) | Some v \<Rightarrow> Inr v)"

section \<open>State and parameters\<close>

text \<open>\<open>jwt.encode\<close> and \<open>jwt.decode\<close> with HS256: claims and key; token, key, required claims, time.\<close>

record jwt =
  jw_encode :: "pydict \<Rightarrow> string \<Rightarrow> string"
  jw_decode :: "string \<Rightarrow> string \<Rightarrow> string list \<Rightarrow> seconds \<Rightarrow> pydict option"

datatype http_client = NoClient | OpenClient | ClosedClient

text \<open>\<open>NetworkFailure\<close> stands for httpx's timeouts and network errors, \<open>OtherFailure\<close> for the rest.\<close>

datatype http_reply = NetworkFailure | OtherFailure exn | Status int

record spring_request =
  sp_endpoint :: string
  sp_service_key :: string
  sp_account_type :: string
  sp_id :: int
  sp_new_password :: string

record reset_service =
  ps_settings :: settings
  ps_db :: database
  ps_otp :: otp
  ps_redis :: bool
  ps_blacklist :: "(string \<times> seconds) list"
  ps_http :: http_client

definition init_reset_service :: "settings \<Rightarrow> database \<Rightarrow> otp \<Rightarrow> http_client \<Rightarrow> reset_service" where
  "init_reset_service cfg db s http = \<lparr>ps_settings = cfg, ps_db = db, ps_otp = s, ps_redis = False,
     ps_blacklist = [], ps_http = http\<rparr>"

definition BLACKLIST_PREFIX :: string where
  "BLACKLIST_PREFIX = ''ouros:auth:password-reset:blacklist:''"

definition ps_close :: "reset_service \<Rightarrow> reset_service" where
  "ps_close s =
    (let s1 = (if ps_redis s then s\<lparr>ps_redis := False\<rparr> else s)
     in if ps_http s1 \<noteq> NoClient then s1\<lparr>ps_http := ClosedClient\<rparr> else s1)"

section \<open>Secrets\<close>

definition pick_secret :: "string option list \<Rightarrow> string \<Rightarrow> string" where
  "pick_secret secrets fallback =
    (case List.find (\<lambda>s. case s of None \<Rightarrow> False | Some v \<Rightarrow> 32 \<le> length v) secrets of
       Some (Some v) \<Rightarrow> v
     | _ \<Rightarrow> (case List.find (\<lambda>s. \<not> str_falsy s) secrets of
               Some (Some v) \<Rightarrow> v
             | _ \<Rightarrow> fallback))"

definition get_reset_jwt_secret :: "settings \<Rightarrow> string" where
  "get_reset_jwt_secret cfg = pick_secret
     [password_reset_jwt_secret cfg, ouros_email_otp_hmac_secret cfg, internal_service_secret cfg,
      internal_service_key cfg, spring_jwt_secret cfg]
     ''ouros-dev-password-reset-secret-key-32-chars-minimum''"

definition get_internal_service_secret :: "settings \<Rightarrow> string" where
  "get_internal_service_secret cfg = pick_secret
     [internal_service_secret cfg, internal_service_key cfg, spring_jwt_secret cfg,
      password_reset_jwt_secret cfg, ouros_email_otp_hmac_secret cfg]
     ''ouros-dev-internal-service-secret-key-32-chars-minimum''"

section \<open>Starting and verifying\<close>

definition with_otp ::
  "(otp \<times> 'r \<Rightarrow> (exn, otp \<times> 'r, 'a) outcome) \<Rightarrow> reset_service \<times> 'r \<Rightarrow> (exn, reset_service \<times> 'r, 'a) outcome" where
  "with_otp f = (\<lambda>(s, r). case f (ps_otp s, r) of (res, o1, r1) \<Rightarrow> (res, s\<lparr>ps_otp := o1\<rparr>, r1))"

text \<open>
  \<open>start_reset\<close>: \<open>decoy\<close> is the challenge id drawn for the generic response, \<open>token\<close> and \<open>n\<close>
  what the OTP service draws if there is exactly one eligible identity.
\<close>

definition start_reset ::
  "('r, 'j) redis \<Rightarrow> 'j codec \<Rightarrow> (string \<Rightarrow> string \<Rightarrow> string) \<Rightarrow> postgres \<Rightarrow> string \<Rightarrow> string \<Rightarrow> nat
    \<Rightarrow> seconds \<Rightarrow> seconds \<Rightarrow> reset_start_request \<Rightarrow> reset_service \<times> 'r
    \<Rightarrow> (exn, reset_service \<times> 'r, reset_start_response) outcome" where
  "start_reset R J H pg decoy token n t_exp t_save request = (\<lambda>(s, r).
    let normalized = py_lower (py_strip (rs_email request))
    in case mk_reset_start_response decoy (mask_email normalized) (ouros_email_otp_ttl_seconds (ps_settings s)) of
         Inl e \<Rightarrow> (Inl e, s, r)
       | Inr response \<Rightarrow>
           (case find_by_email pg normalized (rs_account_type request) (ps_db s) of
              (Inl e, db1) \<Rightarrow> (Inl e, s\<lparr>ps_db := db1\<rparr>, r)
            | (Inr identities, db1) \<Rightarrow>
                (case filter (\<lambda>i. si_account_type i \<in> {FARM_OWNER, COMPANY_EMPLOYEE}) identities of
                   [identity] \<Rightarrow>
                     (case with_otp (start_password_reset R J H token n t_exp t_save (si_email identity)
                             (account_value (si_account_type identity)) (si_database_id identity))
                             (s\<lparr>ps_db := db1\<rparr>, r) of
                        (Inr challenge, st) \<Rightarrow> (Inr (response\<lparr>sr_challenge_id := ch_id challenge\<rparr>), st)
                      | (Inl (EmailOtpUnavailable _), st) \<Rightarrow> (Inr response, st)
                      | (Inl e, st) \<Rightarrow> (Inl e, st))
                 | _ \<Rightarrow> (Inr response, s\<lparr>ps_db := db1\<rparr>, r))))"

definition reset_claims :: "settings \<Rightarrow> string \<Rightarrow> string \<Rightarrow> int \<Rightarrow> string \<Rightarrow> seconds \<Rightarrow> pydict" where
  "reset_claims cfg em account_type database_id jti t =
    [(''sub'', PStr em), (''account_type'', PStr account_type), (''database_id'', PInt database_id),
     (''purpose'', PStr ''password_reset''), (''jti'', PStr jti), (''iat'', PInt (py_int t)),
     (''exp'', PInt (py_int t + password_reset_token_ttl_seconds cfg))]"

definition mint_reset_token ::
  "jwt \<Rightarrow> settings \<Rightarrow> string \<Rightarrow> string \<Rightarrow> int \<Rightarrow> string \<Rightarrow> seconds \<Rightarrow> string" where
  "mint_reset_token W cfg em account_type database_id jti t =
     jw_encode W (reset_claims cfg em account_type database_id jti t) (get_reset_jwt_secret cfg)"

definition verify_code ::
  "('r, 'j) redis \<Rightarrow> 'j codec \<Rightarrow> (string \<Rightarrow> string \<Rightarrow> string) \<Rightarrow> jwt \<Rightarrow> (pyval \<Rightarrow> string) \<Rightarrow> string
    \<Rightarrow> seconds \<Rightarrow> seconds \<Rightarrow> reset_verify_request \<Rightarrow> reset_service \<times> 'r
    \<Rightarrow> (exn, reset_service \<times> 'r, reset_verify_response) outcome" where
  "verify_code R J H W repr jti t_verify t_mint request st =
    and_then
      (with_otp (verify_password_reset R J H t_verify (rv_challenge_id request) (rv_email request)
         (rv_code request)) st)
      (\<lambda>record (s, r).
         case record of
           PDict d \<Rightarrow>
             (case (py_index d ''email'', py_index d ''account_type'', py_index d ''database_id'') of
                (Inl e, _, _) \<Rightarrow> (Inl e, s, r)
              | (_, Inl e, _) \<Rightarrow> (Inl e, s, r)
              | (_, _, Inl e) \<Rightarrow> (Inl e, s, r)
              | (Inr em, Inr account_type, Inr database_id) \<Rightarrow>
                  (case py_int_value database_id of
                     Inl e \<Rightarrow> (Inl e, s, r)
                   | Inr i \<Rightarrow>
                       (mk_reset_verify_response
                          (mint_reset_token W (ps_settings s) (py_str_value repr em)
                            (py_str_value repr account_type) i jti t_mint)
                          (password_reset_token_ttl_seconds (ps_settings s)), s, r)))
         | _ \<Rightarrow> (Inl TypeError, s, r))"

section \<open>The list of used tokens\<close>

definition cleanup_blacklist :: "seconds \<Rightarrow> (string \<times> seconds) list \<Rightarrow> (string \<times> seconds) list" where
  "cleanup_blacklist now b = filter (\<lambda>(_, expiry). \<not> expiry \<le> now) b"

definition ps_redis_client ::
  "('r, 'j) redis \<Rightarrow> reset_service \<times> 'r \<Rightarrow> (exn, reset_service \<times> 'r, unit) outcome" where
  "ps_redis_client R = (\<lambda>(s, r).
    if redis_url (ps_settings s) = None then (Inl (PasswordResetUnavailable ''Redis is not configured''), s, r)
    else if ps_redis s then (Inr (), s, r)
    else (case redis_call R redis_ping r of
            (None, r1) \<Rightarrow> (Inl (PasswordResetUnavailable ''Redis is unavailable''), s, r1)
          | (Some _, r1) \<Rightarrow> (Inr (), s\<lparr>ps_redis := True\<rparr>, r1)))"

definition used_token_detail :: string where
  "used_token_detail = ''Token j'' @ [CHR 0xE1] @ '' utilizado ou inv'' @ [CHR 0xE1] @ ''lido.''"

definition reserve_token ::
  "('r, 'j) redis \<Rightarrow> 'j codec \<Rightarrow> string \<Rightarrow> int \<Rightarrow> seconds \<Rightarrow> reset_service \<times> 'r
    \<Rightarrow> (exn, reset_service \<times> 'r, unit) outcome" where
  "reserve_token R J jti ttl now = (\<lambda>(s, r).
    if redis_url (ps_settings s) \<noteq> None then
      and_then (ps_redis_client R (s, r)) (\<lambda>_ (s, r).
        case redis_call R (r_set_nx_ex R (BLACKLIST_PREFIX @ jti) (j_dumps J (PInt 1)) (max ttl 1)) r of
          (None, r1) \<Rightarrow> (Inl (PasswordResetUnavailable ''Redis reservation failed''), ps_close s, r1)
        | (Some reserved, r1) \<Rightarrow>
            if \<not> reserved then (Inl (PasswordResetTokenInvalidError used_token_detail), s, r1)
            else (Inr (), s, r1))
    else
      (let b = cleanup_blacklist now (ps_blacklist s)
       in if jti \<in> fst ` set b then
            (Inl (PasswordResetTokenInvalidError used_token_detail), s\<lparr>ps_blacklist := b\<rparr>, r)
          else (Inr (), s\<lparr>ps_blacklist := AList.update jti (now + of_int ttl) b\<rparr>, r)))"

definition release_token ::
  "('r, 'j) redis \<Rightarrow> string \<Rightarrow> reset_service \<times> 'r \<Rightarrow> (exn, reset_service \<times> 'r, unit) outcome" where
  "release_token R jti = (\<lambda>(s, r).
    if redis_url (ps_settings s) \<noteq> None then
      and_then (ps_redis_client R (s, r)) (\<lambda>_ (s, r).
        case redis_call R (\<lambda>r. ((), r_del R (BLACKLIST_PREFIX @ jti) r)) r of
          (None, r1) \<Rightarrow> (Inl (PasswordResetUnavailable ''Redis reservation release failed''), ps_close s, r1)
        | (Some _, r1) \<Rightarrow> (Inr (), s, r1))
    else (Inr (), s\<lparr>ps_blacklist := AList.delete jti (ps_blacklist s)\<rparr>, r))"

section \<open>The call to ms-spring-api\<close>

definition spring_unavailable_detail :: string where
  "spring_unavailable_detail = ''Servi'' @ [CHR 0xE7] @ ''o de redefini'' @ [CHR 0xE7, CHR 0xE3]
     @ ''o de senha temporariamente indispon'' @ [CHR 0xED] @ ''vel.''"

definition spring_result :: "http_reply \<Rightarrow> exn + unit" where
  "spring_result reply =
    (case reply of
       NetworkFailure \<Rightarrow> Inl (PasswordResetUnavailable spring_unavailable_detail)
     | OtherFailure e \<Rightarrow> Inl e
     | Status code \<Rightarrow>
         if code = 200 then Inr ()
         else if code = 404 then
           Inl (PasswordResetTokenInvalidError (''Usu'' @ [CHR 0xE1] @ ''rio n'' @ [CHR 0xE3]
             @ ''o encontrado para redefini'' @ [CHR 0xE7, CHR 0xE3] @ ''o de senha.''))
         else if code = 400 then
           Inl (PasswordResetTokenInvalidError (''Dados inv'' @ [CHR 0xE1] @ ''lidos para redefini''
             @ [CHR 0xE7, CHR 0xE3] @ ''o de senha.''))
         else if code = 401 then
           Inl (PasswordResetUnavailable (''Erro de autentica'' @ [CHR 0xE7, CHR 0xE3]
             @ ''o interna entre servi'' @ [CHR 0xE7] @ ''os.''))
         else Inl (PasswordResetUnavailable spring_unavailable_detail))"

definition spring_reset_request :: "settings \<Rightarrow> string \<Rightarrow> int \<Rightarrow> string \<Rightarrow> spring_request" where
  "spring_reset_request cfg account_type database_id new_password =
    \<lparr>sp_endpoint = py_rstrip_char (CHR ''/'') (ms_spring_api_url cfg) @ ''/internal/v1/password-reset'',
     sp_service_key = get_internal_service_secret cfg,
     sp_account_type = account_type, sp_id = database_id, sp_new_password = new_password\<rparr>"

text \<open>A client closed by \<open>close\<close> raises \<open>RuntimeError\<close> without sending anything.\<close>

definition call_spring_internal_reset ::
  "(spring_request \<Rightarrow> 'r \<Rightarrow> http_reply \<times> 'r) \<Rightarrow> string \<Rightarrow> int \<Rightarrow> string \<Rightarrow> reset_service \<times> 'r
    \<Rightarrow> (exn, reset_service \<times> 'r, unit) outcome" where
  "call_spring_internal_reset post account_type database_id new_password = (\<lambda>(s, r).
    if ps_http s = ClosedClient then
      (Inl (RuntimeError ''Cannot send a request, as the client has been closed.''), s, r)
    else
      (case post (spring_reset_request (ps_settings s) account_type database_id new_password) r of
         (reply, r1) \<Rightarrow> (spring_result reply, s, r1)))"

section \<open>Confirming\<close>

definition required_reset_claims :: "string list" where
  "required_reset_claims = [''sub'', ''account_type'', ''database_id'', ''purpose'', ''jti'', ''exp'', ''iat'']"

definition reset_token_detail :: string where
  "reset_token_detail = ''Token de recupera'' @ [CHR 0xE7, CHR 0xE3] @ ''o inv'' @ [CHR 0xE1] @ ''lido ou expirado.''"

definition reset_purpose_detail :: string where
  "reset_purpose_detail = ''Token de recupera'' @ [CHR 0xE7, CHR 0xE3] @ ''o com finalidade inv'' @ [CHR 0xE1] @ ''lida.''"

definition reset_account_detail :: string where
  "reset_account_detail = ''Tipo de conta inv'' @ [CHR 0xE1] @ ''lido para redefini'' @ [CHR 0xE7, CHR 0xE3] @ ''o.''"

definition verify_reset_token :: "jwt \<Rightarrow> settings \<Rightarrow> string \<Rightarrow> seconds \<Rightarrow> exn + pydict" where
  "verify_reset_token W cfg token t =
    (case jw_decode W token (get_reset_jwt_secret cfg) required_reset_claims t of
       None \<Rightarrow> Inl (PasswordResetTokenInvalidError reset_token_detail)
     | Some claims \<Rightarrow>
         if dget claims ''purpose'' \<noteq> PStr ''password_reset''
         then Inl (PasswordResetTokenInvalidError reset_purpose_detail)
         else Inr claims)"

text \<open>
  The guards of \<open>confirm_reset\<close> before the reservation, in the order of the code: what the
  request may change, or the exception.
\<close>

record reset_grant =
  rg_jti :: string
  rg_account :: account_type
  rg_id :: int
  rg_exp :: int

definition reset_account :: "pyval \<Rightarrow> account_type option" where
  "reset_account v =
    (case as_str v of
       None \<Rightarrow> None
     | Some value \<Rightarrow>
         (case account_of_value value of
            Some a \<Rightarrow> if a \<in> {FARM_OWNER, COMPANY_EMPLOYEE} then Some a else None
          | None \<Rightarrow> None))"

definition check_confirm :: "jwt \<Rightarrow> settings \<Rightarrow> seconds \<Rightarrow> reset_confirm_request \<Rightarrow> exn + reset_grant" where
  "check_confirm W cfg t request =
    (case verify_reset_token W cfg (rc_reset_token request) t of
       Inl e \<Rightarrow> Inl e
     | Inr claims \<Rightarrow>
        (case py_index claims ''jti'' of
           Inl e \<Rightarrow> Inl e
         | Inr jti \<Rightarrow>
            if \<not> re_fullmatch CREDENTIAL_COMPLEXITY_PATTERN (rc_new_password request)
            then Inl (PasswordResetTokenInvalidError password_complexity_detail)
            else (case py_index claims ''account_type'' of
                Inl e \<Rightarrow> Inl e
              | Inr account_type \<Rightarrow>
                (case py_index claims ''database_id'' of
                   Inl e \<Rightarrow> Inl e
                 | Inr raw_id \<Rightarrow>
                   (case py_int_value raw_id of
                      Inl e \<Rightarrow> Inl e
                    | Inr database_id \<Rightarrow>
                      (case reset_account account_type of
                         None \<Rightarrow> Inl (PasswordResetTokenInvalidError reset_account_detail)
                       | Some a \<Rightarrow>
                         (case py_index claims ''exp'' of
                            Inl e \<Rightarrow> Inl e
                          | Inr raw_exp \<Rightarrow>
                            (case py_int_value raw_exp of
                               Inl e \<Rightarrow> Inl e
                             | Inr expiry \<Rightarrow>
                               (case as_str jti of
                                  None \<Rightarrow> Inl TypeError
                                | Some j \<Rightarrow>
                                    Inr \<lparr>rg_jti = j, rg_account = a, rg_id = database_id, rg_exp = expiry\<rparr>)))))))))"

definition confirm_reset ::
  "('r, 'j) redis \<Rightarrow> 'j codec \<Rightarrow> jwt \<Rightarrow> (spring_request \<Rightarrow> 'r \<Rightarrow> http_reply \<times> 'r)
    \<Rightarrow> seconds \<times> seconds \<times> seconds \<Rightarrow> reset_confirm_request \<Rightarrow> reset_service \<times> 'r
    \<Rightarrow> (exn, reset_service \<times> 'r, string) outcome" where
  "confirm_reset R J W post = (\<lambda>(t_verify, t_now, t_reserve) request st.
    case check_confirm W (ps_settings (fst st)) t_verify request of
      Inl e \<Rightarrow> (Inl e, st)
    | Inr g \<Rightarrow>
        and_then (reserve_token R J (rg_jti g) (max (rg_exp g - py_int t_now) 1) t_reserve st) (\<lambda>_ st1.
          case call_spring_internal_reset post (account_value (rg_account g)) (rg_id g)
                 (rc_new_password request) st1 of
            (Inr _, st2) \<Rightarrow> (Inr ''Senha redefinida com sucesso.'', st2)
          | (Inl e, st2) \<Rightarrow> and_then (release_token R (rg_jti g) st2) (\<lambda>_ st3. (Inl e, st3))))"

end
