(* ===== verification/ResetProps.thy ===== *)
theory ResetProps
  imports PasswordReset
begin

text \<open>
  Properties of the password-reset flow: the list of used tokens as an expiring map, single
  use of a reset token over any sequence of confirmations, retry after a failed update, what
  must hold before ms-spring-api is called, the uniform answer of the start, the choice of the
  signing secret, and the flow from the first request to the update.
\<close>

section \<open>The list of used tokens\<close>

definition used_view :: "seconds \<Rightarrow> reset_service \<Rightarrow> string \<Rightarrow> seconds option" where
  "used_view t s k =
    (case map_of (ps_blacklist s) k of None \<Rightarrow> None | Some e \<Rightarrow> if \<not> e \<le> t then Some e else None)"

definition used_sweep :: "seconds \<Rightarrow> reset_service \<Rightarrow> reset_service" where
  "used_sweep t s = s\<lparr>ps_blacklist := cleanup_blacklist t (ps_blacklist s)\<rparr>"

definition used_put :: "seconds \<Rightarrow> string \<Rightarrow> seconds \<Rightarrow> reset_service \<Rightarrow> reset_service" where
  "used_put t k e s = s\<lparr>ps_blacklist := AList.update k e (cleanup_blacklist t (ps_blacklist s))\<rparr>"

definition used_remove :: "string \<Rightarrow> reset_service \<Rightarrow> reset_service" where
  "used_remove k s = s\<lparr>ps_blacklist := AList.delete k (ps_blacklist s)\<rparr>"

definition used_alive :: "seconds \<Rightarrow> seconds \<Rightarrow> bool" where
  "used_alive t e \<longleftrightarrow> t < e"

definition used_invar :: "reset_service \<Rightarrow> bool" where
  "used_invar s \<longleftrightarrow> distinct (map fst (ps_blacklist s))"

lemma map_of_cleanup_blacklist:
  "used_invar s \<Longrightarrow> map_of (cleanup_blacklist t (ps_blacklist s)) k = used_view t s k"
  using map_of_filter_snd [of "ps_blacklist s" "\<lambda>e. \<not> e \<le> t" k]
  by (simp add: used_invar_def cleanup_blacklist_def used_view_def)

lemma used_view_later:
  "t \<le> t' \<Longrightarrow> used_view t' s k =
    (case used_view t s k of None \<Rightarrow> None | Some e \<Rightarrow> if used_alive t' e then Some e else None)"
  by (auto simp: used_view_def used_alive_def split: option.splits)

lemma used_view_upd:
  "used_view t (s\<lparr>ps_blacklist := b\<rparr>) k =
    (case map_of b k of None \<Rightarrow> None | Some e \<Rightarrow> if \<not> e \<le> t then Some e else None)"
  by (simp add: used_view_def)

interpretation used: expiring_map used_view used_sweep used_put used_remove used_alive used_invar
proof
  fix s :: reset_service and t t' :: seconds and k k' :: string and e :: seconds
  show "used_view t s k = Some e \<Longrightarrow> used_alive t e"
    by (auto simp: used_view_def used_alive_def split: option.splits if_splits)
  assume inv: "used_invar s"
  show "used_view t (used_remove k s) k' = (if k' = k then None else used_view t s k')"
    by (simp add: used_view_def used_remove_def delete_conv')
  show "used_invar (used_sweep t s)" "used_invar (used_put t k e s)" "used_invar (used_remove k s)"
    using inv distinct_map_filter' [of "ps_blacklist s"]
    by (simp_all add: used_invar_def used_sweep_def used_put_def used_remove_def cleanup_blacklist_def
        distinct_update distinct_delete)
  assume t: "t \<le> t'"
  show "used_view t' (used_sweep t s) k = used_view t' s k"
    using used_view_later [OF t, of s k]
    by (auto simp: used_sweep_def used_view_upd map_of_cleanup_blacklist [OF inv] used_alive_def
        split: option.splits)
  show "used_view t' (used_put t k e s) k' =
      (if k' = k then if used_alive t' e then Some e else None else used_view t' s k')"
    using used_view_later [OF t, of s k']
    by (auto simp: used_put_def used_view_upd update_conv' map_of_cleanup_blacklist [OF inv] used_alive_def
        split: option.splits)
qed (auto intro: used_view_later simp: used_alive_def)

definition ps_in_memory :: "reset_service \<Rightarrow> bool" where
  "ps_in_memory s \<longleftrightarrow> redis_url (ps_settings s) = None \<and> used_invar s"

lemma ps_memory_ops [simp]:
  "ps_settings (used_sweep t s) = ps_settings s" "ps_settings (used_put t k e s) = ps_settings s"
  "ps_settings (used_remove k s) = ps_settings s"
  "ps_http (used_sweep t s) = ps_http s" "ps_http (used_put t k e s) = ps_http s"
  "ps_http (used_remove k s) = ps_http s"
  "ps_in_memory s \<Longrightarrow> ps_in_memory (used_sweep t s)" "ps_in_memory s \<Longrightarrow> ps_in_memory (used_put t k e s)"
  "ps_in_memory s \<Longrightarrow> ps_in_memory (used_remove k s)"
  by (simp_all add: ps_in_memory_def used.map_laws) (simp_all add: used_sweep_def used_put_def used_remove_def)

lemma ps_in_memoryD: "ps_in_memory s \<Longrightarrow> used_invar s"
  by (simp add: ps_in_memory_def)

lemma reserve_token_memory:
  assumes "ps_in_memory s"
  shows "reserve_token R J jti ttl now (s, r) =
    (if used_view now s jti \<noteq> None
     then (Inl (PasswordResetTokenInvalidError used_token_detail), used_sweep now s, r)
     else (Inr (), used_put now jti (now + of_int ttl) s, r))"
proof -
  have "jti \<in> fst ` set (cleanup_blacklist now (ps_blacklist s)) \<longleftrightarrow> used_view now s jti \<noteq> None"
    using map_of_cleanup_blacklist [OF ps_in_memoryD [OF assms], of now jti]
    by (metis map_of_eq_None_iff)
  then show ?thesis using assms
    by (simp add: reserve_token_def ps_in_memory_def Let_def used_sweep_def used_put_def)
qed

lemma release_token_memory:
  "ps_in_memory s \<Longrightarrow> release_token R jti (s, r) = (Inr (), used_remove jti s, r)"
  by (simp add: release_token_def ps_in_memory_def used_remove_def)

lemma call_spring_service:
  "call_spring_internal_reset post a i p (s, r) = (res, s', r') \<Longrightarrow> s' = s"
  by (auto simp: call_spring_internal_reset_def split: if_splits prod.splits)

text \<open>Confirming over the in-process list.\<close>

lemma confirm_reset_memory:
  assumes "ps_in_memory s" "check_confirm W (ps_settings s) t_verify request = Inr g"
  shows "confirm_reset R J W post (t_verify, t_now, t_reserve) request (s, r) =
    (if used_view t_reserve s (rg_jti g) \<noteq> None
     then (Inl (PasswordResetTokenInvalidError used_token_detail), used_sweep t_reserve s, r)
     else let s1 = used_put t_reserve (rg_jti g)
                     (t_reserve + of_int (max (rg_exp g - py_int t_now) 1)) s
          in case call_spring_internal_reset post (account_value (rg_account g)) (rg_id g)
                    (rc_new_password request) (s1, r) of
               (Inr _, s2, r2) \<Rightarrow> (Inr ''Senha redefinida com sucesso.'', s1, r2)
             | (Inl e, s2, r2) \<Rightarrow> (Inl e, used_remove (rg_jti g) s1, r2))"
proof (cases "used_view t_reserve s (rg_jti g)")
  case None
  let ?s1 = "used_put t_reserve (rg_jti g) (t_reserve + of_int (max (rg_exp g - py_int t_now) 1)) s"
  obtain x s2 r2 where c: "call_spring_internal_reset post (account_value (rg_account g)) (rg_id g)
      (rc_new_password request) (?s1, r) = (x, s2, r2)" by (rule prod_cases3)
  then have "s2 = ?s1" by (rule call_spring_service)
  with None c show ?thesis
    using assms by (cases x) (simp_all add: confirm_reset_def reserve_token_memory release_token_memory Let_def)
next
  case (Some e)
  with assms show ?thesis by (simp add: confirm_reset_def reserve_token_memory)
qed

section \<open>Documented behaviour of the JWT library\<close>

text \<open>
  A decoded token has the required claims and a string \<open>jti\<close>, has not expired, and denotes the
  same claims at any time it is accepted.
\<close>

definition jwt_checks :: "jwt \<Rightarrow> bool" where
  "jwt_checks W \<longleftrightarrow> (\<forall>token key t claims. jw_decode W token key required_reset_claims t = Some claims \<longrightarrow>
     (\<forall>k \<in> set required_reset_claims. map_of claims k \<noteq> None) \<and>
     (\<exists>j. dget claims ''jti'' = PStr j) \<and>
     (\<exists>e. py_int_value (dget claims ''exp'') = Inr e \<and> t < of_int e) \<and>
     (\<forall>t'. jw_decode W token key required_reset_claims t' \<in> {None, Some claims}))"

lemma check_confirmE:
  assumes "check_confirm W cfg t request = Inr g"
  obtains claims where "jw_decode W (rc_reset_token request) (get_reset_jwt_secret cfg) required_reset_claims t
      = Some claims" "dget claims ''purpose'' = PStr ''password_reset''"
    "re_fullmatch CREDENTIAL_COMPLEXITY_PATTERN (rc_new_password request)"
    "dget claims ''jti'' = PStr (rg_jti g)" "dget claims ''account_type'' = PStr (account_value (rg_account g))"
    "rg_account g \<in> {FARM_OWNER, COMPANY_EMPLOYEE}"
    "py_int_value (dget claims ''database_id'') = Inr (rg_id g)"
    "py_int_value (dget claims ''exp'') = Inr (rg_exp g)"
proof -
  have idx: "py_index d k = Inr v \<Longrightarrow> dget d k = v" for d k v
    by (auto simp: py_index_def dget_def split: option.splits)
  have acc: "reset_account v = Some a \<Longrightarrow> v = PStr (account_value a) \<and> a \<in> {FARM_OWNER, COMPANY_EMPLOYEE}" for v a
    by (auto simp: reset_account_def account_of_value_Some split: option.splits if_splits)
  show thesis using assms
    by (auto simp: check_confirm_def verify_reset_token_def split: sum.splits option.splits if_splits
        dest!: idx acc intro!: that)
qed

text \<open>A token names one identifier and one expiry, whenever and for whatever password it is used.\<close>

lemma check_confirm_same:
  assumes "jwt_checks W" "check_confirm W cfg t request = Inr g" "check_confirm W cfg t' request' = Inr g'"
    and "rc_reset_token request' = rc_reset_token request"
  shows "rg_jti g' = rg_jti g" "rg_exp g' = rg_exp g" "rg_account g' = rg_account g" "rg_id g' = rg_id g"
    "t < of_int (rg_exp g)"
proof -
  obtain c where c: "jw_decode W (rc_reset_token request) (get_reset_jwt_secret cfg) required_reset_claims t = Some c"
      "dget c ''jti'' = PStr (rg_jti g)" "dget c ''account_type'' = PStr (account_value (rg_account g))"
      "py_int_value (dget c ''database_id'') = Inr (rg_id g)" "py_int_value (dget c ''exp'') = Inr (rg_exp g)"
    by (rule check_confirmE [OF assms(2)])
  obtain c' where c': "jw_decode W (rc_reset_token request) (get_reset_jwt_secret cfg) required_reset_claims t' = Some c'"
      "dget c' ''jti'' = PStr (rg_jti g')" "dget c' ''account_type'' = PStr (account_value (rg_account g'))"
      "py_int_value (dget c' ''database_id'') = Inr (rg_id g')" "py_int_value (dget c' ''exp'') = Inr (rg_exp g')"
    using check_confirmE [OF assms(3)] assms(4) by metis
  have "c' = c" "\<exists>e. py_int_value (dget c ''exp'') = Inr e \<and> t < of_int e"
    using assms(1) c(1) c'(1) unfolding jwt_checks_def by (metis empty_iff insert_iff option.distinct(1) option.inject)+
  with c c' show "rg_jti g' = rg_jti g" "rg_exp g' = rg_exp g" "rg_account g' = rg_account g" "rg_id g' = rg_id g"
    "t < of_int (rg_exp g)" by auto
qed

section \<open>Single use\<close>

text \<open>Confirmations, each with its three clock readings.\<close>

type_synonym confirmation = "(seconds \<times> seconds \<times> seconds) \<times> reset_confirm_request"

definition confirm_one ::
  "('r, 'j) redis \<Rightarrow> 'j codec \<Rightarrow> jwt \<Rightarrow> (spring_request \<Rightarrow> 'r \<Rightarrow> http_reply \<times> 'r) \<Rightarrow> confirmation
    \<Rightarrow> reset_service \<times> 'r \<Rightarrow> (exn, reset_service \<times> 'r, string) outcome" where
  "confirm_one R J W post = (\<lambda>(ts, request). confirm_reset R J W post ts request)"

definition confirm_readings :: "confirmation list \<Rightarrow> seconds list" where
  "confirm_readings cs = concat (map (\<lambda>((t1, t2, t3), _). [t1, t2, t3]) cs)"

text \<open>A confirmation that passes the guards reserves the token before its expiry.\<close>

definition reserves_in_time :: "jwt \<Rightarrow> settings \<Rightarrow> confirmation \<Rightarrow> bool" where
  "reserves_in_time W cfg = (\<lambda>((t1, t2, t3), request).
     case check_confirm W cfg t1 request of Inl _ \<Rightarrow> True | Inr g \<Rightarrow> t3 < of_int (rg_exp g))"

definition used_until :: "string \<Rightarrow> int \<Rightarrow> seconds \<Rightarrow> reset_service \<Rightarrow> bool" where
  "used_until j e t s \<longleftrightarrow> (\<forall>t'. t \<le> t' \<longrightarrow> t' < of_int e \<longrightarrow> used_view t' s j \<noteq> None)"

lemma confirm_success:
  assumes "ps_in_memory s" "check_confirm W (ps_settings s) t1 request = Inr g"
    and "confirm_reset R J W post (t1, t2, t3) request (s, r) = (Inr m, s', r')" "0 \<le> t2" "t2 \<le> t3"
  shows "used_until (rg_jti g) (rg_exp g) t3 s'"
proof -
  let ?e = "t3 + of_int (max (rg_exp g - py_int t2) 1)"
  have s': "s' = used_put t3 (rg_jti g) ?e s"
    using assms(3) by (simp add: confirm_reset_memory [OF assms(1,2)] Let_def split: if_splits prod.splits sum.splits)
  have "of_int (rg_exp g) \<le> ?e"
  proof -
    have "(of_int (rg_exp g - py_int t2) :: rat) \<le> of_int (max (rg_exp g - py_int t2) 1)" by (simp only: of_int_le_iff max.cobounded1)
    moreover have "of_int (py_int t2) \<le> t3" using py_int_le [OF assms(4)] assms(5) by simp
    ultimately show ?thesis by simp
  qed
  then show ?thesis
    by (auto simp: used_until_def s' used.view_put [OF ps_in_memoryD [OF assms(1)]] used_alive_def)
qed

lemma confirm_keeps_used:
  assumes "ps_in_memory s" "used_until j e t s" "t \<le> t3"
    and "confirm_reset R J W post (t1, t2, t3) request (s, r) = (res, s', r')"
  shows "ps_in_memory s' \<and> ps_settings s' = ps_settings s \<and> used_until j e t3 s'"
proof (cases "check_confirm W (ps_settings s) t1 request")
  case (Inl x)
  with assms show ?thesis by (auto simp: confirm_reset_def used_until_def)
next
  case (Inr g)
  let ?s1 = "used_put t3 (rg_jti g) (t3 + of_int (max (rg_exp g - py_int t2) 1)) s"
  note inv = ps_in_memoryD [OF assms(1)]
  show ?thesis
  proof (cases "used_view t3 s (rg_jti g) = None")
    case False
    then have "s' = used_sweep t3 s" using assms(4) by (simp add: confirm_reset_memory [OF assms(1) Inr])
    with assms(1-3) inv show ?thesis by (auto simp: used_until_def used.view_sweep)
  next
    case True
    then have s': "s' = ?s1 \<or> s' = used_remove (rg_jti g) ?s1"
      using assms(4) by (auto simp: confirm_reset_memory [OF assms(1) Inr] Let_def split: prod.splits sum.splits)
    have "used_until j e t3 s'"
    proof (cases "rg_jti g = j")
      case True
      with \<open>used_view t3 s (rg_jti g) = None\<close> assms(2,3) have "of_int e \<le> t3"
        by (auto simp: used_until_def not_le [symmetric])
      then show ?thesis by (auto simp: used_until_def)
    next
      case False
      with s' assms(2,3) inv show ?thesis
        by (auto simp: used_until_def used.view_put used.put_then_remove)
    qed
    with s' assms(1) show ?thesis by auto
  qed
qed

lemma confirm_keeps_memory:
  assumes "ps_in_memory s" "confirm_reset R J W post (t1, t2, t3) request (s, r) = (res, s', r')"
  shows "ps_in_memory s'" "ps_settings s' = ps_settings s"
  using confirm_keeps_used [OF assms(1) _ _ assms(2), of j 0 "max t3 1" for j] 
    confirm_keeps_used [OF assms(1) _ order_refl assms(2), of "[]" "\<lfloor>t3\<rfloor>"]
  by (auto simp: used_until_def) (metis floor_le_iff not_le of_int_floor_le order_trans)+

lemma confirm_refused:
  assumes "ps_in_memory s" "used_until j e t s" "t \<le> t3" "t3 < of_int e"
    and "check_confirm W (ps_settings s) t1 request = Inr g" "rg_jti g = j"
  shows "\<not> granted (fst (confirm_reset R J W post (t1, t2, t3) request (s, r)))"
  using assms by (simp add: confirm_reset_memory used_until_def)

definition grants_of :: "string \<Rightarrow> confirmation list \<Rightarrow> (exn + string) list \<Rightarrow> nat" where
  "grants_of token cs rs = length (filter (\<lambda>(c, res). granted res \<and> rc_reset_token (snd c) = token) (zip cs rs))"

lemma grants_of_Cons: "grants_of token (c # cs) (res # rs) =
    (if granted res \<and> rc_reset_token (snd c) = token then 1 else 0) + grants_of token cs rs"
  by (simp add: grants_of_def)

lemma confirm_readings_Cons:
  "confirm_readings (((t1, t2, t3), request) # cs) = t1 # t2 # t3 # confirm_readings cs"
  by (simp add: confirm_readings_def)

lemma run_refused:
  assumes "jwt_checks W" "ps_in_memory s" "used_until (rg_jti g) (rg_exp g) t s"
    and "check_confirm W (ps_settings s) t0 request0 = Inr g"
    and "sorted (t # confirm_readings cs)" "\<forall>c \<in> set cs. reserves_in_time W (ps_settings s) c"
    and "run_all (confirm_one R J W post) cs (s, r) = (rs, st')"
  shows "grants_of (rc_reset_token request0) cs rs = 0"
  using assms
proof (induction cs arbitrary: s t r rs)
  case Nil
  then show ?case by (simp add: grants_of_def)
next
  case (Cons c cs)
  obtain t1 t2 t3 request where c: "c = ((t1, t2, t3), request)" by (metis prod.collapse)
  obtain res s1 r1 where v: "confirm_reset R J W post (t1, t2, t3) request (s, r) = (res, s1, r1)"
    by (rule prod_cases3)
  obtain rs1 where run: "run_all (confirm_one R J W post) cs (s1, r1) = (rs1, st')" and rs: "rs = res # rs1"
    using Cons.prems(7) by (auto simp: c confirm_one_def v split: prod.splits)
  have times: "t \<le> t3" "t1 \<le> t2" "t2 \<le> t3" "sorted (t3 # confirm_readings cs)"
    using Cons.prems(5) unfolding c confirm_readings_Cons by auto
  note keep = confirm_keeps_used [OF Cons.prems(2,3) times(1) v]
  have "\<not> granted res" if tok: "rc_reset_token request = rc_reset_token request0"
  proof (cases "check_confirm W (ps_settings s) t1 request")
    case (Inl e)
    with v show ?thesis by (auto simp: confirm_reset_def)
  next
    case (Inr g')
    note same = check_confirm_same [OF Cons.prems(1,4) Inr tok]
    have "t3 < of_int (rg_exp g)" using Cons.prems(6) Inr same(2) by (simp add: c reserves_in_time_def)
    from confirm_refused [OF Cons.prems(2,3) times(1) this Inr same(1), of R J post t2 r]
    show ?thesis by (simp add: v)
  qed
  moreover have "grants_of (rc_reset_token request0) cs rs1 = 0"
    using Cons.IH [OF Cons.prems(1) _ _ _ times(4) _ run] keep Cons.prems(4,6) by simp
  ultimately show ?case by (auto simp: rs grants_of_Cons c)
qed

text \<open>C4: Replay safety with the in-process list: in any sequence of confirmations at increasing
  times, with any replies of ms-spring-api, at most one confirmation of a given reset token
  succeeds, provided each reserves the token before its expiry (the list forgets a token at
  its expiry, from which on the token is rejected as expired).\<close>

theorem reset_token_single_use:
  assumes "jwt_checks W" "ps_in_memory s"
    and "sorted (0 # confirm_readings cs)" "\<forall>c \<in> set cs. reserves_in_time W (ps_settings s) c"
    and "run_all (confirm_one R J W post) cs (s, r) = (rs, st')"
  shows "grants_of token cs rs \<le> 1"
  using assms
proof (induction cs arbitrary: s r rs)
  case Nil
  then show ?case by (simp add: grants_of_def)
next
  case (Cons c cs)
  obtain t1 t2 t3 request where c: "c = ((t1, t2, t3), request)" by (metis prod.collapse)
  obtain res s1 r1 where v: "confirm_reset R J W post (t1, t2, t3) request (s, r) = (res, s1, r1)"
    by (rule prod_cases3)
  obtain rs1 where run: "run_all (confirm_one R J W post) cs (s1, r1) = (rs1, st')" and rs: "rs = res # rs1"
    using Cons.prems(5) by (auto simp: c confirm_one_def v split: prod.splits)
  have times: "0 \<le> t2" "t2 \<le> t3" "sorted (t3 # confirm_readings cs)" "sorted (0 # confirm_readings cs)"
    using Cons.prems(3) unfolding c confirm_readings_Cons by auto
  note mem = confirm_keeps_memory [OF Cons.prems(2) v]
  have rest: "\<forall>c \<in> set cs. reserves_in_time W (ps_settings s1) c" using Cons.prems(4) by (simp add: mem(2))
  show ?case
  proof (cases "granted res \<and> rc_reset_token request = token")
    case False
    with Cons.IH [OF Cons.prems(1) mem(1) times(4) rest run] show ?thesis by (auto simp: rs grants_of_Cons c)
  next
    case True
    then obtain m where m: "res = Inr m" by (cases res) auto
    then obtain g where g: "check_confirm W (ps_settings s) t1 request = Inr g"
      using v by (auto simp: confirm_reset_def split: sum.splits)
    have "used_until (rg_jti g) (rg_exp g) t3 s1"
      by (rule confirm_success [OF Cons.prems(2) g v [unfolded m] times(1,2)])
    from run_refused [OF Cons.prems(1) mem(1) this _ times(3) rest run] g mem(2) True
    have "grants_of token cs rs1 = 0" by auto
    then show ?thesis by (simp add: rs grants_of_Cons)
  qed
qed

text \<open>A token library that knows one token, for the witnesses.\<close>

definition example_claims :: pydict where
  "example_claims = reset_claims default_settings ''ana@farm.br'' ''farm_owner'' 7 ''j1'' 100"

definition example_jwt :: jwt where
  "example_jwt = \<lparr>jw_encode = (\<lambda>_ _. ''tok''),
     jw_decode = (\<lambda>token _ _ t. if token = ''tok'' \<and> t < 700 then Some example_claims else None)\<rparr>"

definition example_service :: reset_service where
  "example_service = init_reset_service default_settings \<lparr>db_settings = default_settings, db_pool = True\<rparr>
     (init_otp example_settings) NoClient"

definition example_confirmation :: "seconds \<Rightarrow> confirmation" where
  "example_confirmation t = ((t, t, t), \<lparr>rc_reset_token = ''tok'', rc_new_password = ''Abcdef1!''\<rparr>)"

lemma example_jwt_checks [simp]: "jwt_checks example_jwt"
  by (auto simp: jwt_checks_def example_jwt_def example_claims_def reset_claims_def
      required_reset_claims_def dget_def default_settings_def)

lemma example_grant:
  "t < 700 \<Longrightarrow> check_confirm example_jwt default_settings t
      \<lparr>rc_reset_token = ''tok'', rc_new_password = ''Abcdef1!''\<rparr> =
    Inr \<lparr>rg_jti = ''j1'', rg_account = FARM_OWNER, rg_id = 7, rg_exp = 700\<rparr>"
proof -
  have "re_fullmatch CREDENTIAL_COMPLEXITY_PATTERN ''Abcdef1!''" by code_simp
  then show "t < 700 \<Longrightarrow> ?thesis"
    by (simp add: check_confirm_def verify_reset_token_def example_jwt_def example_claims_def reset_claims_def
        py_index_def dget_def reset_account_def account_of_value_def default_settings_def)
qed

lemma example_service_memory [simp]: "ps_in_memory example_service" "ps_settings example_service = default_settings"
  "ps_http example_service = NoClient"
  by (simp_all add: ps_in_memory_def example_service_def init_reset_service_def used_invar_def default_settings_def)

theorem reset_token_single_use_witness:
  "\<exists>rs st'. run_all (confirm_one example_redis example_codec example_jwt (\<lambda>_ r. (Status 200, r)))
      [example_confirmation 200, example_confirmation 201] (example_service, []) = (rs, st') \<and>
    grants_of ''tok'' [example_confirmation 200, example_confirmation 201] rs \<le> 1"
proof -
  obtain rs st' where run: "run_all (confirm_one example_redis example_codec example_jwt (\<lambda>_ r. (Status 200, r)))
      [example_confirmation 200, example_confirmation 201] (example_service, []) = (rs, st')"
    by (rule prod.exhaust)
  have "grants_of ''tok'' [example_confirmation 200, example_confirmation 201] rs \<le> 1"
    by (rule reset_token_single_use [OF _ _ _ _ run])
      (simp_all add: confirm_readings_def example_confirmation_def reserves_in_time_def example_grant)
  with run show ?thesis by blast
qed

section \<open>Before and after the call\<close>

text \<open>C24: Whether ms-spring-api is called at all depends on the guards: if the outcome of a
  confirmation depends in any way on the endpoint's reply, then the token was accepted by the
  library under the reset secret, it is a password-reset token for a farm owner or a company
  employee, never an administrator, the new password meets the complexity rule, and no earlier
  confirmation holds the token in the in-process list.\<close>

theorem spring_called_only_with_valid_grant:
  assumes "ps_in_memory s"
    and "confirm_reset R J W post1 (t1, t2, t3) request (s, r) \<noteq> confirm_reset R J W post2 (t1, t2, t3) request (s, r)"
  shows "\<exists>claims a j.
    jw_decode W (rc_reset_token request) (get_reset_jwt_secret (ps_settings s)) required_reset_claims t1 = Some claims \<and>
    dget claims ''purpose'' = PStr ''password_reset'' \<and>
    dget claims ''account_type'' = PStr (account_value a) \<and> a \<noteq> ADMIN \<and>
    re_fullmatch CREDENTIAL_COMPLEXITY_PATTERN (rc_new_password request) \<and>
    dget claims ''jti'' = PStr j \<and> used_view t3 s j = None"
proof (cases "check_confirm W (ps_settings s) t1 request")
  case (Inl e)
  with assms(2) show ?thesis by (simp add: confirm_reset_def)
next
  case (Inr g)
  then have "used_view t3 s (rg_jti g) = None"
    using assms by (auto simp: confirm_reset_memory split: if_splits)
  with Inr show ?thesis by (elim check_confirmE) (auto intro!: exI)
qed

theorem spring_called_only_with_valid_grant_witness:
  "\<exists>claims a j.
    jw_decode example_jwt ''tok'' (get_reset_jwt_secret default_settings) required_reset_claims 200 = Some claims \<and>
    dget claims ''purpose'' = PStr ''password_reset'' \<and>
    dget claims ''account_type'' = PStr (account_value a) \<and> a \<noteq> ADMIN \<and>
    re_fullmatch CREDENTIAL_COMPLEXITY_PATTERN ''Abcdef1!'' \<and>
    dget claims ''jti'' = PStr j \<and> used_view 200 example_service j = None"
proof -
  let ?c = "\<lambda>code. confirm_reset example_redis example_codec example_jwt (\<lambda>_ r. (Status code, r)) (200, 200, 200)
      \<lparr>rc_reset_token = ''tok'', rc_new_password = ''Abcdef1!''\<rparr> (example_service, [])"
  have g: "check_confirm example_jwt (ps_settings example_service) 200
      \<lparr>rc_reset_token = ''tok'', rc_new_password = ''Abcdef1!''\<rparr> =
    Inr \<lparr>rg_jti = ''j1'', rg_account = FARM_OWNER, rg_id = 7, rg_exp = 700\<rparr>"
    by (simp add: example_grant)
  have "used_view 200 example_service ''j1'' = None"
    by (simp add: used_view_def example_service_def init_reset_service_def)
  then have "granted (fst (?c 200))" "\<not> granted (fst (?c 500))"
    by (simp_all add: confirm_reset_memory [OF example_service_memory(1) g] call_spring_internal_reset_def
        spring_result_def)
  then have "?c 200 \<noteq> ?c 500" by metis
  from spring_called_only_with_valid_grant [OF example_service_memory(1) this] show ?thesis by simp
qed

lemma confirm_reset_replied:
  assumes "ps_in_memory s" "ps_http s \<noteq> ClosedClient"
    and "check_confirm W (ps_settings s) t1 request = Inr g" "used_view t3 s (rg_jti g) = None"
    and "post (spring_reset_request (ps_settings s) (account_value (rg_account g)) (rg_id g) (rc_new_password request)) r
      = (reply, r1)"
  shows "confirm_reset R J W post (t1, t2, t3) request (s, r) =
    (let s1 = used_put t3 (rg_jti g) (t3 + of_int (max (rg_exp g - py_int t2) 1)) s
     in case spring_result reply of
          Inr _ \<Rightarrow> (Inr ''Senha redefinida com sucesso.'', s1, r1)
        | Inl e \<Rightarrow> (Inl e, used_remove (rg_jti g) s1, r1))"
  using assms by (simp add: confirm_reset_memory Let_def call_spring_internal_reset_def split: sum.split)

lemma spring_failure_reported:
  "reply \<noteq> Status 200 \<Longrightarrow> \<exists>e. spring_result reply = Inl e \<and>
    (case reply of
       NetworkFailure \<Rightarrow> \<exists>m. e = PasswordResetUnavailable m
     | OtherFailure x \<Rightarrow> e = x
     | Status code \<Rightarrow> if code = 400 \<or> code = 404 then \<exists>m. e = PasswordResetTokenInvalidError m
                      else \<exists>m. e = PasswordResetUnavailable m)"
  by (cases reply) (simp_all add: spring_result_def)

text \<open>C25: A failed update does not burn a token of the in-process list. When a confirmation passes
  the guards, no other holds its token and the endpoint answers anything but status 200, the
  confirmation reports it: as an invalid token for 400 and 404, as the service being unavailable
  for a network failure and for any other status, and any other exception as it is. The token is
  then not in the list, and a later confirmation of it that passes the guards and that the endpoint
  answers with 200 succeeds.\<close>

theorem failed_update_allows_retry:
  assumes "ps_in_memory s" "ps_http s \<noteq> ClosedClient"
    and "check_confirm W (ps_settings s) t1 request = Inr g" "used_view t3 s (rg_jti g) = None"
    and "post (spring_reset_request (ps_settings s) (account_value (rg_account g)) (rg_id g) (rc_new_password request)) r
      = (reply, r1)" and "reply \<noteq> Status 200"
    and "check_confirm W (ps_settings s) t1' request' = Inr g'" "rg_jti g' = rg_jti g"
    and "\<And>q x. fst (post' q x) = Status 200"
  shows "\<exists>e s'. confirm_reset R J W post (t1, t2, t3) request (s, r) = (Inl e, s', r1) \<and>
    (case reply of
       NetworkFailure \<Rightarrow> \<exists>m. e = PasswordResetUnavailable m
     | OtherFailure x \<Rightarrow> e = x
     | Status code \<Rightarrow> if code = 400 \<or> code = 404 then \<exists>m. e = PasswordResetTokenInvalidError m
                      else \<exists>m. e = PasswordResetUnavailable m) \<and>
    used_view t3 s' (rg_jti g) = None \<and>
    granted (fst (confirm_reset R J W post' (t1', t2', t3') request' (s', r')))"
proof -
  let ?s1 = "used_put t3 (rg_jti g) (t3 + of_int (max (rg_exp g - py_int t2) 1)) s"
  let ?s' = "used_remove (rg_jti g) ?s1"
  obtain e where failed: "spring_result reply = Inl e"
    "case reply of
       NetworkFailure \<Rightarrow> \<exists>m. e = PasswordResetUnavailable m
     | OtherFailure x \<Rightarrow> e = x
     | Status code \<Rightarrow> if code = 400 \<or> code = 404 then \<exists>m. e = PasswordResetTokenInvalidError m
                      else \<exists>m. e = PasswordResetUnavailable m"
    using spring_failure_reported [OF assms(6)] by blast
  have mem: "ps_in_memory ?s'" "ps_settings ?s' = ps_settings s" "ps_http ?s' = ps_http s"
    using assms(1) by simp_all
  have gone: "used_view t ?s' (rg_jti g) = None" for t
    by (simp add: used.view_remove used.invar_put ps_in_memoryD [OF assms(1)])
  have g': "check_confirm W (ps_settings ?s') t1' request' = Inr g'" using assms(7) mem(2) by simp
  obtain r2 where "post' (spring_reset_request (ps_settings ?s') (account_value (rg_account g')) (rg_id g')
      (rc_new_password request')) r' = (Status 200, r2)"
    using assms(9) by (metis prod.collapse)
  from confirm_reset_replied [where post = post', OF mem(1) _ g' _ this, of t3' R J t2'] assms(2) mem(3) gone [of t3'] assms(8)
  have retry: "granted (fst (confirm_reset R J W post' (t1', t2', t3') request' (?s', r')))"
    by (simp add: spring_result_def Let_def)
  have "confirm_reset R J W post (t1, t2, t3) request (s, r) = (Inl e, ?s', r1)"
    using confirm_reset_replied [where post = post, OF assms(1-5), of R J t2] failed(1) by (simp add: Let_def)
  with failed(2) gone [of t3] retry show ?thesis by blast
qed

theorem failed_update_allows_retry_witness:
  "\<exists>m s' r'. confirm_reset example_redis example_codec example_jwt (\<lambda>_ r. (Status 404, r)) (200, 200, 200)
      \<lparr>rc_reset_token = ''tok'', rc_new_password = ''Abcdef1!''\<rparr> (example_service, []) =
        (Inl (PasswordResetTokenInvalidError m), s', r') \<and>
    granted (fst (confirm_reset example_redis example_codec example_jwt (\<lambda>_ r. (Status 200, r)) (210, 210, 210)
      \<lparr>rc_reset_token = ''tok'', rc_new_password = ''Abcdef1!''\<rparr> (s', r')))"
proof -
  let ?q = "\<lparr>rc_reset_token = ''tok'', rc_new_password = ''Abcdef1!''\<rparr>"
  let ?g = "\<lparr>rg_jti = ''j1'', rg_account = FARM_OWNER, rg_id = 7, rg_exp = 700\<rparr>"
  have g: "check_confirm example_jwt (ps_settings example_service) 200 ?q = Inr ?g"
      "check_confirm example_jwt (ps_settings example_service) 210 ?q = Inr ?g"
    by (simp_all add: example_grant)
  have fresh: "used_view 200 example_service (rg_jti ?g) = None"
    by (simp add: used_view_def example_service_def init_reset_service_def)
  show ?thesis
    using failed_update_allows_retry [where post = "\<lambda>_ r. (Status 404, r)" and post' = "\<lambda>_ r. (Status 200, r)"
        and r = "[]" and r' = "[]" and ?t2.0 = 200 and t2' = 210 and t3' = 210 and R = example_redis and J = example_codec,
        OF example_service_memory(1) _ g(1) fresh refl _ g(2) refl]
    by auto
qed

text \<open>A closed HTTP client stays closed, whatever a confirmation does, and nothing is sent over it.\<close>

lemma ps_close_closed [simp]: "ps_http s = ClosedClient \<Longrightarrow> ps_http (ps_close s) = ClosedClient"
  by (simp add: ps_close_def Let_def)

lemma ps_redis_client_http: "ps_redis_client R (s, r) = (res, s1, r1) \<Longrightarrow> ps_http s1 = ps_http s"
  by (auto simp: ps_redis_client_def split: if_splits option.splits prod.splits)

lemma tokens_keep_closed:
  assumes "ps_http s = ClosedClient"
  shows "reserve_token R J jti ttl now (s, r) = (res, s1, r1) \<Longrightarrow> ps_http s1 = ClosedClient"
    and "release_token R jti (s, r) = (res2, s2, r2) \<Longrightarrow> ps_http s2 = ClosedClient"
  using assms
  by (auto simp: reserve_token_def release_token_def and_then_def Let_def dest!: ps_redis_client_http
      split: if_splits sum.splits prod.splits option.splits)

lemma confirm_closed:
  assumes "ps_http s = ClosedClient" "confirm_reset R J W post ts request (s, r) = (res, s', r')"
  shows "ps_http s' = ClosedClient" "\<not> granted res" "confirm_reset R J W post2 ts request (s, r) = (res, s', r')"
proof -
  obtain t1 t2 t3 where ts: "ts = (t1, t2, t3)" by (rule prod_cases3)
  have "ps_http s' = ClosedClient \<and> \<not> granted res \<and> confirm_reset R J W post2 ts request (s, r) = (res, s', r')"
  proof (cases "check_confirm W (ps_settings s) t1 request")
    case (Inl e)
    with assms show ?thesis by (auto simp: confirm_reset_def ts)
  next
    case (Inr g)
    obtain res1 s1 r1 where v: "reserve_token R J (rg_jti g) (max (rg_exp g - py_int t2) 1) t3 (s, r) = (res1, s1, r1)"
      by (rule prod_cases3)
    note s1 = tokens_keep_closed(1) [OF assms(1) v]
    obtain res2 s2 r2 where d: "release_token R (rg_jti g) (s1, r1) = (res2, s2, r2)" by (rule prod_cases3)
    note s2 = tokens_keep_closed(2) [OF s1 d]
    show ?thesis
      using assms(2) Inr v d s1 s2
      by (cases res1; cases res2) (auto simp: confirm_reset_def ts call_spring_internal_reset_def)
  qed
  then show "ps_http s' = ClosedClient" "\<not> granted res" "confirm_reset R J W post2 ts request (s, r) = (res, s', r')"
    by blast+
qed

lemma run_closed:
  "ps_http (fst st) = ClosedClient \<Longrightarrow> run_all (confirm_one R J W post) cs st = (rs, st') \<Longrightarrow>
    ps_http (fst st') = ClosedClient \<and> filter granted rs = [] \<and> run_all (confirm_one R J W post2) cs st = (rs, st')"
proof (induction cs arbitrary: st rs st')
  case (Cons c cs)
  obtain ts request where c: "c = (ts, request)" by (rule prod.exhaust)
  obtain s r where st: "st = (s, r)" by (rule prod.exhaust)
  obtain res s1 r1 where v: "confirm_reset R J W post ts request (s, r) = (res, s1, r1)" by (rule prod_cases3)
  obtain rs1 st1 where run: "run_all (confirm_one R J W post) cs (s1, r1) = (rs1, st1)" by (rule prod.exhaust)
  have "ps_http s = ClosedClient" using Cons.prems(1) by (simp add: st)
  note closed = confirm_closed [OF this v]
  from Cons.IH [OF _ run] closed(1) Cons.prems(2) v run closed(2) closed(3) [of post2] show ?case
    by (auto simp: c st confirm_one_def)
qed simp

text \<open>C38: With an injected HTTP client, a lost Redis reply while a token is reserved closes that
  client for good. The confirmation reports the store as unavailable. After it, in whatever
  sequence of confirmations and however Redis behaves then, none succeeds, the client stays closed
  and nothing is sent to ms-spring-api: the results and the state are the same for any endpoint.
  With a Redis that answers again, a confirmation behind such a sequence that passes the guards and
  reserves its token ends in the \<open>RuntimeError\<close> of a closed client.\<close>

theorem redis_failure_closes_http_client:
  assumes "redis_url (ps_settings s) \<noteq> None" "ps_redis s" "ps_http s = OpenClient"
    and "check_confirm W (ps_settings s) t1 request = Inr g"
    and "redis_call R (r_set_nx_ex R (BLACKLIST_PREFIX @ rg_jti g) (j_dumps J (PInt 1))
           (max (max (rg_exp g - py_int t2) 1) 1)) r = (None, r1)"
    and "confirm_reset R J W post (t1, t2, t3) request (s, r) = (res, s', r')"
    and "run_all (confirm_one R' J W post') later (s', x) = (rs, s2, r2)"
  shows "res = Inl (PasswordResetUnavailable ''Redis reservation failed'') \<and>
    filter granted rs = [] \<and> ps_http s2 = ClosedClient \<and>
    run_all (confirm_one R' J W post'') later (s', x) = (rs, s2, r2) \<and>
    (\<forall>t1' t2' t3' request' g' s3 r3 s4 r4.
       check_confirm W (ps_settings s2) t1' request' = Inr g' \<and>
       reserve_token R' J (rg_jti g') (max (rg_exp g' - py_int t2') 1) t3' (s2, r2) = (Inr (), s3, r3) \<and>
       release_token R' (rg_jti g') (s3, r3) = (Inr (), s4, r4) \<longrightarrow>
       confirm_reset R' J W post' (t1', t2', t3') request' (s2, r2) =
         (Inl (RuntimeError ''Cannot send a request, as the client has been closed.''), s4, r4))"
proof -
  have "ps_redis_client R (s, r) = (Inr (), s, r)"
    using assms(1,2) by (auto simp: ps_redis_client_def)
  then have "reserve_token R J (rg_jti g) (max (rg_exp g - py_int t2) 1) t3 (s, r) =
      (Inl (PasswordResetUnavailable ''Redis reservation failed''), ps_close s, r1)"
    using assms(1,5) by (auto simp: reserve_token_def)
  then have first: "(res, s', r') = (Inl (PasswordResetUnavailable ''Redis reservation failed''), ps_close s, r1)"
    using assms(4,6) by (simp add: confirm_reset_def)
  then have "ps_http s' = ClosedClient" using assms(3) by (auto simp: ps_close_def Let_def)
  note later = run_closed [OF _ assms(7), of post'', unfolded fst_conv, OF this]
  have "confirm_reset R' J W post' (t1', t2', t3') request' (s2, r2) =
      (Inl (RuntimeError ''Cannot send a request, as the client has been closed.''), s4, r4)"
    if "check_confirm W (ps_settings s2) t1' request' = Inr g'"
      "reserve_token R' J (rg_jti g') (max (rg_exp g' - py_int t2') 1) t3' (s2, r2) = (Inr (), s3, r3)"
      "release_token R' (rg_jti g') (s3, r3) = (Inr (), s4, r4)"
    for t1' t2' t3' request' g' s3 r3 s4 r4
    using that tokens_keep_closed(1) [OF _ that(2)] later
    by (simp add: confirm_reset_def call_spring_internal_reset_def)
  with first later show ?thesis by blast
qed

theorem redis_failure_closes_http_client_witness:
  "\<exists>s'. s' = fst (snd (confirm_reset (example_redis\<lparr>r_net := \<lambda>r. (ReplyLost, r)\<rparr>) example_codec example_jwt
      (\<lambda>_ r. (Status 200, r)) (200, 200, 200) \<lparr>rc_reset_token = ''tok'', rc_new_password = ''Abcdef1!''\<rparr>
      (example_service\<lparr>ps_settings := default_settings\<lparr>redis_url := Some ''redis://r''\<rparr>, ps_redis := True,
         ps_http := OpenClient\<rparr>, []))) \<and>
    filter granted (fst (run_all (confirm_one example_redis example_codec example_jwt (\<lambda>_ r. (Status 200, r)))
      [example_confirmation 300] (s', []))) = []"
proof -
  let ?R = "example_redis\<lparr>r_net := \<lambda>r. (ReplyLost, r)\<rparr>"
  let ?cfg = "default_settings\<lparr>redis_url := Some ''redis://r''\<rparr>"
  let ?s = "example_service\<lparr>ps_settings := ?cfg, ps_redis := True, ps_http := OpenClient\<rparr>"
  let ?q = "\<lparr>rc_reset_token = ''tok'', rc_new_password = ''Abcdef1!''\<rparr>"
  let ?g = "\<lparr>rg_jti = ''j1'', rg_account = FARM_OWNER, rg_id = 7, rg_exp = 700\<rparr>"
  have "get_reset_jwt_secret ?cfg = get_reset_jwt_secret default_settings"
    by (simp add: get_reset_jwt_secret_def)
  then have g: "check_confirm example_jwt (ps_settings ?s) 200 ?q = Inr ?g"
    using example_grant [of 200] by (simp add: check_confirm_def verify_reset_token_def)
  have lost: "\<exists>r1. redis_call ?R cmd r = (None, r1)" for cmd :: "_ \<Rightarrow> 'x \<times> _" and r
    by (simp add: redis_call_def)
  then obtain r1 where r1: "redis_call ?R (r_set_nx_ex ?R (BLACKLIST_PREFIX @ rg_jti ?g) (j_dumps example_codec (PInt 1))
      (max (max (rg_exp ?g - py_int 200) 1) 1)) [] = (None, r1)" by blast
  obtain res s' r' where run: "confirm_reset ?R example_codec example_jwt (\<lambda>_ r. (Status 200, r)) (200, 200, 200) ?q
      (?s, []) = (res, s', r')" by (rule prod_cases3)
  obtain rs s2 r2 where later: "run_all (confirm_one example_redis example_codec example_jwt (\<lambda>_ r. (Status 200, r)))
      [example_confirmation 300] (s', []) = (rs, s2, r2)" by (rule prod_cases3)
  have "filter granted rs = []"
    using redis_failure_closes_http_client [OF _ _ _ g r1 run later] by simp
  with run later show ?thesis by simp
qed

end
