(* ===== verification/ResetRace.thy ===== *)
theory ResetRace
  imports ResetProps
begin

text \<open>
  Confirmations of password resets that interleave. A confirmation is a process of up to three
  turns, one per await at which the event loop may run another request: the guards with the
  reservation of the token, the call to ms-spring-api, and the release of the token after a
  failed call. A schedule is the sequence of the processes' turns. The contract of a
  reservation is a locale, with the in-process list and Redis as its providers.
\<close>

section \<open>Processes and schedules\<close>

datatype ('c, 'g) cproc =
    Arriving 'c
  | Holding 'c 'g
  | Failing 'c 'g exn
  | Done 'c "exn + string"

text \<open>The turns of \<open>confirm_reset\<close>.\<close>

definition confirm_reserve ::
  "('r, 'j) redis \<Rightarrow> 'j codec \<Rightarrow> jwt \<Rightarrow> confirmation \<Rightarrow> reset_service \<times> 'r
    \<Rightarrow> (exn, reset_service \<times> 'r, reset_grant) outcome" where
  "confirm_reserve R J W = (\<lambda>((t_verify, t_now, t_reserve), request) st.
    case check_confirm W (ps_settings (fst st)) t_verify request of
      Inl e \<Rightarrow> (Inl e, st)
    | Inr g \<Rightarrow>
        and_then (reserve_token R J (rg_jti g) (max (rg_exp g - py_int t_now) 1) t_reserve st)
          (\<lambda>_ st1. (Inr g, st1)))"

definition confirm_call ::
  "(spring_request \<Rightarrow> 'r \<Rightarrow> http_reply \<times> 'r) \<Rightarrow> confirmation \<Rightarrow> reset_grant \<Rightarrow> reset_service \<times> 'r
    \<Rightarrow> (exn, reset_service \<times> 'r, unit) outcome" where
  "confirm_call post = (\<lambda>(_, request) g st.
     call_spring_internal_reset post (account_value (rg_account g)) (rg_id g) (rc_new_password request) st)"

definition confirm_release ::
  "('r, 'j) redis \<Rightarrow> reset_grant \<Rightarrow> reset_service \<times> 'r \<Rightarrow> (exn, reset_service \<times> 'r, unit) outcome" where
  "confirm_release R g = release_token R (rg_jti g)"

fun confirm_turn ::
  "('c \<Rightarrow> 's \<Rightarrow> (exn, 's, 'g) outcome) \<Rightarrow> ('c \<Rightarrow> 'g \<Rightarrow> 's \<Rightarrow> (exn, 's, unit) outcome)
    \<Rightarrow> ('g \<Rightarrow> 's \<Rightarrow> (exn, 's, unit) outcome) \<Rightarrow> ('c, 'g) cproc \<Rightarrow> 's \<Rightarrow> ('c, 'g) cproc \<times> 's" where
  "confirm_turn reserve call release (Arriving c) st =
     (case reserve c st of (Inl e, st1) \<Rightarrow> (Done c (Inl e), st1) | (Inr g, st1) \<Rightarrow> (Holding c g, st1))"
| "confirm_turn reserve call release (Holding c g) st =
     (case call c g st of
        (Inr _, st1) \<Rightarrow> (Done c (Inr ''Senha redefinida com sucesso.''), st1)
      | (Inl e, st1) \<Rightarrow> (Failing c g e, st1))"
| "confirm_turn reserve call release (Failing c g e) st =
     (case release g st of (Inr _, st1) \<Rightarrow> (Done c (Inl e), st1) | (Inl e', st1) \<Rightarrow> (Done c (Inl e'), st1))"
| "confirm_turn reserve call release (Done c res) st = (Done c res, st)"

fun confirm_schedule ::
  "(('c, 'g) cproc \<Rightarrow> 's \<Rightarrow> ('c, 'g) cproc \<times> 's) \<Rightarrow> nat list \<Rightarrow> ('c, 'g) cproc list \<Rightarrow> 's
    \<Rightarrow> ('c, 'g) cproc list \<times> 's" where
  "confirm_schedule turn [] procs st = (procs, st)"
| "confirm_schedule turn (i # is) procs st =
     (if i < length procs then
        (case turn (procs ! i) st of (p, st1) \<Rightarrow> confirm_schedule turn is (procs[i := p]) st1)
      else confirm_schedule turn is procs st)"

text \<open>Every turn in which a request reserves happens in a state that suits the request.\<close>

fun reserves_timely ::
  "('c \<Rightarrow> 's \<Rightarrow> bool) \<Rightarrow> (('c, 'g) cproc \<Rightarrow> 's \<Rightarrow> ('c, 'g) cproc \<times> 's) \<Rightarrow> nat list \<Rightarrow> ('c, 'g) cproc list
    \<Rightarrow> 's \<Rightarrow> bool" where
  "reserves_timely timely turn [] procs st = True"
| "reserves_timely timely turn (i # is) procs st =
     (if i < length procs then
        (case procs ! i of Arriving c \<Rightarrow> timely c st | _ \<Rightarrow> True) \<and>
        (case turn (procs ! i) st of (p, st1) \<Rightarrow> reserves_timely timely turn is (procs[i := p]) st1)
      else reserves_timely timely turn is procs st)"

text \<open>The turns of the code.\<close>

definition confirm_turns ::
  "('r, 'j) redis \<Rightarrow> 'j codec \<Rightarrow> jwt \<Rightarrow> (spring_request \<Rightarrow> 'r \<Rightarrow> http_reply \<times> 'r)
    \<Rightarrow> (confirmation, reset_grant) cproc \<Rightarrow> reset_service \<times> 'r
    \<Rightarrow> (confirmation, reset_grant) cproc \<times> reset_service \<times> 'r" where
  "confirm_turns R J W post = confirm_turn (confirm_reserve R J W) (confirm_call post) (confirm_release R)"

text \<open>A confirmation that takes its turns in a row computes \<open>confirm_reset\<close>.\<close>

lemma confirm_turns_in_a_row:
  "confirm_schedule (confirm_turns R J W post) [0, 0, 0] [Arriving c] st =
     (case confirm_one R J W post c st of (res, st1) \<Rightarrow> ([Done c res], st1))"
proof -
  obtain t1 t2 t3 request where c: "c = ((t1, t2, t3), request)" by (metis prod.collapse)
  show ?thesis
    by (auto simp: c confirm_turns_def confirm_one_def confirm_reset_def confirm_reserve_def confirm_call_def
        confirm_release_def and_then_def split: sum.split prod.split)
qed

section \<open>The contract of a reservation\<close>

text \<open>A process that is past the reservation of the token \<open>mine\<close> and has not failed.\<close>

fun active :: "('c \<Rightarrow> bool) \<Rightarrow> ('c, 'g) cproc \<Rightarrow> bool" where
  "active mine (Arriving c) = False"
| "active mine (Holding c g) = mine c"
| "active mine (Failing c g e) = mine c"
| "active mine (Done c res) = (mine c \<and> (\<exists>m. res = Inr m))"

lemma length_filter_update:
  "i < length xs \<Longrightarrow>
    length (filter P (xs[i := y])) + of_bool (P (xs ! i)) = length (filter P xs) + of_bool (P y)"
proof (induction xs arbitrary: i)
  case (Cons x xs)
  then show ?case by (cases i) auto
qed simp

locale reservation =
  fixes reserve :: "'c \<Rightarrow> 's \<Rightarrow> (exn, 's, 'g) outcome" and call :: "'c \<Rightarrow> 'g \<Rightarrow> 's \<Rightarrow> (exn, 's, unit) outcome"
    and release :: "'g \<Rightarrow> 's \<Rightarrow> (exn, 's, unit) outcome"
    and mine :: "'c \<Rightarrow> bool" and ours :: "'g \<Rightarrow> bool" and timely :: "'c \<Rightarrow> 's \<Rightarrow> bool"
    and held :: "'s \<Rightarrow> bool" and invar :: "'s \<Rightarrow> bool"
  assumes invar_kept: "invar s \<Longrightarrow> invar (snd (reserve c s))" "invar s \<Longrightarrow> invar (snd (call c g s))"
      "invar s \<Longrightarrow> invar (snd (release g s))"
    and whose: "invar s \<Longrightarrow> timely c s \<Longrightarrow> reserve c s = (Inr g, s') \<Longrightarrow> ours g = mine c"
    and refused: "invar s \<Longrightarrow> held s \<Longrightarrow> mine c \<Longrightarrow> timely c s \<Longrightarrow> reserve c s \<noteq> (Inr g, s')"
    and takes: "invar s \<Longrightarrow> mine c \<Longrightarrow> timely c s \<Longrightarrow> reserve c s = (Inr g, s') \<Longrightarrow> held s'"
    and keeps: "invar s \<Longrightarrow> held s \<Longrightarrow> timely c s \<Longrightarrow> held (snd (reserve c s))"
      "invar s \<Longrightarrow> held s \<Longrightarrow> held (snd (call c g s))"
      "invar s \<Longrightarrow> held s \<Longrightarrow> \<not> ours g \<Longrightarrow> held (snd (release g s))"
begin

fun proper :: "('c, 'g) cproc \<Rightarrow> bool" where
  "proper (Arriving c) = True"
| "proper (Holding c g) = (ours g = mine c)"
| "proper (Failing c g e) = (ours g = mine c)"
| "proper (Done c res) = True"

definition safe :: "('c, 'g) cproc list \<Rightarrow> 's \<Rightarrow> bool" where
  "safe procs s \<longleftrightarrow> invar s \<and> (\<forall>p \<in> set procs. proper p) \<and>
     length (filter (active mine) procs) \<le> 1 \<and> ((\<exists>p \<in> set procs. active mine p) \<longrightarrow> held s)"

text \<open>A turn keeps a held token held, unless it is the token's own failed process that releases it.\<close>

lemma turn_keeps:
  assumes "invar s" "proper p" "case p of Arriving c \<Rightarrow> timely c s | _ \<Rightarrow> True"
    and "confirm_turn reserve call release p s = (p', s')"
  shows "invar s' \<and> proper p'"
    and "held s \<Longrightarrow> active mine p \<and> \<not> active mine p' \<or> held s'"
    and "active mine p' \<Longrightarrow> active mine p \<or> \<not> held s \<and> held s'"
proof -
  have "invar s' \<and> proper p' \<and> (held s \<longrightarrow> active mine p \<and> \<not> active mine p' \<or> held s') \<and>
    (active mine p' \<longrightarrow> active mine p \<or> \<not> held s \<and> held s')"
  proof (cases p)
    case (Arriving c)
    obtain res s1 where r: "reserve c s = (res, s1)" by (rule prod.exhaust)
    have "s' = s1" "p' = (case res of Inl e \<Rightarrow> Done c (Inl e) | Inr g \<Rightarrow> Holding c g)"
      using assms(4) r by (auto simp: Arriving split: sum.splits)
    then show ?thesis
      using assms(1-3) r invar_kept(1) [of s c] keeps(1) [of s c] whose [of s c] refused [of s c] takes [of s c]
      by (cases res) (auto simp: Arriving)
  next
    case (Holding c g)
    obtain res s1 where r: "call c g s = (res, s1)" by (rule prod.exhaust)
    then show ?thesis
      using assms invar_kept(2) [of s c g] keeps(2) [of s c g] by (cases res) (auto simp: Holding)
  next
    case (Failing c g e)
    obtain res s1 where r: "release g s = (res, s1)" by (rule prod.exhaust)
    then show ?thesis
      using assms invar_kept(3) [of s g] keeps(3) [of s g] by (cases res) (auto simp: Failing)
  next
    case (Done c res)
    with assms show ?thesis by auto
  qed
  then show "invar s' \<and> proper p'"
    "held s \<Longrightarrow> active mine p \<and> \<not> active mine p' \<or> held s'"
    "active mine p' \<Longrightarrow> active mine p \<or> \<not> held s \<and> held s'" by blast+
qed

lemma active_one:
  assumes "length (filter P xs) \<le> 1" "i < length xs" "P (xs ! i)" "x \<in> set (xs[i := y])" "P x"
  shows "P y"
proof (rule ccontr)
  assume "\<not> P y"
  have "filter P (xs[i := y]) \<noteq> []" using assms(4,5) by (auto simp: filter_empty_conv)
  then have "1 \<le> length (filter P (xs[i := y]))" by (simp add: Suc_le_eq)
  with length_filter_update [OF assms(2), of P y] assms(1,3) \<open>\<not> P y\<close> show False by simp
qed

lemma safe_turn:
  assumes "safe procs s" "i < length procs" "case procs ! i of Arriving c \<Rightarrow> timely c s | _ \<Rightarrow> True"
    and "confirm_turn reserve call release (procs ! i) s = (p', s')"
  shows "safe (procs[i := p']) s'"
proof -
  let ?p = "procs ! i" and ?procs = "procs[i := p']"
  have s: "invar s" "\<forall>p \<in> set procs. proper p" "length (filter (active mine) procs) \<le> 1"
    "(\<exists>p \<in> set procs. active mine p) \<longrightarrow> held s"
    using assms(1) unfolding safe_def by blast+
  have p: "?p \<in> set procs" using assms(2) by simp
  note turn = turn_keeps [OF s(1) _ assms(3,4)]
  have "proper ?p" using s(2) p by blast
  note turn = turn [OF this]
  have count: "length (filter (active mine) ?procs) + of_bool (active mine ?p)
      = length (filter (active mine) procs) + of_bool (active mine p')"
    by (rule length_filter_update [OF assms(2)])
  have none: "\<not> held s \<Longrightarrow> filter (active mine) procs = []" using s(4) by (auto simp: filter_empty_conv)
  have "length (filter (active mine) ?procs) \<le> 1"
    using count s(3) turn(3) none by (auto simp: of_bool_def split: if_splits)
  moreover have "held s'" if x: "x \<in> set ?procs" "active mine x" for x
  proof (cases "x = p'")
    case True
    with that turn(2,3) s(4) p show ?thesis by blast
  next
    case False
    with x have "x \<in> set procs" using set_update_subset_insert [of procs i p'] by blast
    with x s(4) have "held s" by blast
    with turn(2) show ?thesis using active_one [OF s(3) assms(2) _ x] by blast
  qed
  moreover have "\<forall>p \<in> set ?procs. proper p"
    using s(2) turn(1) set_update_subset_insert [of procs i p'] by blast
  ultimately show ?thesis using turn(1) unfolding safe_def by blast
qed

lemma safe_schedule:
  "safe procs s \<Longrightarrow> reserves_timely timely (confirm_turn reserve call release) is procs s \<Longrightarrow>
    confirm_schedule (confirm_turn reserve call release) is procs s = (procs', s') \<Longrightarrow> safe procs' s'"
proof (induction "is" arbitrary: procs s)
  case (Cons i "is")
  show ?case
  proof (cases "i < length procs")
    case True
    obtain p s1 where turn: "confirm_turn reserve call release (procs ! i) s = (p, s1)" by (rule prod.exhaust)
    have "case procs ! i of Arriving c \<Rightarrow> timely c s | _ \<Rightarrow> True" using Cons.prems(2) True by simp
    from safe_turn [OF Cons.prems(1) True this turn] Cons.IH [of "procs[i := p]" s1] Cons.prems(2,3) True turn
    show ?thesis by simp
  next
    case False
    with Cons show ?thesis by simp
  qed
qed simp

text \<open>From requests that have only arrived, no schedule brings two past the reservation.\<close>

lemma one_active:
  assumes "invar s" "reserves_timely timely (confirm_turn reserve call release) is (map Arriving cs) s"
    and "confirm_schedule (confirm_turn reserve call release) is (map Arriving cs) s = (procs, s')"
  shows "length (filter (active mine) procs) \<le> 1"
proof -
  have "safe (map Arriving cs) s"
    using assms(1) by (auto simp: safe_def filter_empty_conv filter_map o_def)
  from safe_schedule [OF this assms(2,3)] show ?thesis unfolding safe_def by blast
qed

end

section \<open>Its two providers\<close>

text \<open>
  A request for the token with identifier \<open>j\<close> and expiry \<open>e\<close>; requests whose clock readings are in
  order, whose reservation comes before \<open>e\<close>, and for which the identifier names no other expiry.
\<close>

definition asks_for :: "jwt \<Rightarrow> settings \<Rightarrow> string \<Rightarrow> confirmation \<Rightarrow> bool" where
  "asks_for W cfg j = (\<lambda>((t1, _, _), request).
     case check_confirm W cfg t1 request of Inl _ \<Rightarrow> False | Inr g \<Rightarrow> rg_jti g = j)"

definition before_expiry :: "jwt \<Rightarrow> settings \<Rightarrow> string \<Rightarrow> int \<Rightarrow> confirmation \<Rightarrow> bool" where
  "before_expiry W cfg j e = (\<lambda>((t1, t2, t3), request). 0 \<le> t2 \<and> t2 \<le> t3 \<and> t3 < of_int e \<and>
     (case check_confirm W cfg t1 request of Inl _ \<Rightarrow> True | Inr g \<Rightarrow> rg_jti g = j \<longrightarrow> rg_exp g = e))"

lemma call_keeps_service:
  "fst (snd (confirm_call post c g (s, r))) = s"
  by (auto simp: confirm_call_def call_spring_internal_reset_def split: prod.splits)

text \<open>
  A reservation within the lifetime of the token \<open>j\<close>. Over Redis the server's clock counts: it is
  not behind the service's reading \<open>t2\<close>, and the turn ends before the expiry \<open>e\<close> on it.
\<close>

definition timely ::
  "('r, 'j) redis \<Rightarrow> 'j codec \<Rightarrow> jwt \<Rightarrow> settings \<Rightarrow> ('r \<Rightarrow> seconds) \<Rightarrow> string \<Rightarrow> int \<Rightarrow> confirmation
    \<Rightarrow> reset_service \<times> 'r \<Rightarrow> bool" where
  "timely R J W cfg clock j e c st \<longleftrightarrow> before_expiry W cfg j e c \<and>
     (redis_url cfg \<noteq> None \<longrightarrow>
        (case c of ((_, t2, _), _) \<Rightarrow> t2 \<le> clock (snd st)) \<and>
        clock (snd (snd (confirm_reserve R J W c st))) < of_int e)"

definition memory_held :: "string \<Rightarrow> int \<Rightarrow> reset_service \<times> 'r \<Rightarrow> bool" where
  "memory_held j e st \<longleftrightarrow> (\<exists>x. map_of (ps_blacklist (fst st)) j = Some x \<and> of_int e \<le> x)"

definition memory_reset :: "settings \<Rightarrow> reset_service \<times> 'r \<Rightarrow> bool" where
  "memory_reset cfg st \<longleftrightarrow> ps_settings (fst st) = cfg \<and> ps_in_memory (fst st)"

lemma reservation_length: "0 \<le> t2 \<Longrightarrow> t2 \<le> t3 \<Longrightarrow> of_int e \<le> t3 + of_int (max (e - py_int t2) 1)"
proof -
  assume t: "0 \<le> t2" "t2 \<le> t3"
  have "(of_int (e - py_int t2) :: rat) \<le> of_int (max (e - py_int t2) 1)" by (simp only: of_int_le_iff max.cobounded1)
  moreover have "of_int (py_int t2) \<le> t3" using py_int_le [OF t(1)] t(2) by simp
  ultimately show ?thesis by simp
qed

lemma confirm_reserve_memory:
  assumes "memory_reset cfg (s, r)"
  shows "confirm_reserve R J W ((t1, t2, t3), request) (s, r) =
    (case check_confirm W cfg t1 request of
       Inl e \<Rightarrow> (Inl e, s, r)
     | Inr g \<Rightarrow>
         if used_view t3 s (rg_jti g) \<noteq> None
         then (Inl (PasswordResetTokenInvalidError used_token_detail), used_sweep t3 s, r)
         else (Inr g, used_put t3 (rg_jti g) (t3 + of_int (max (rg_exp g - py_int t2) 1)) s, r))"
  using assms
  by (auto simp: memory_reset_def confirm_reserve_def reserve_token_memory split: sum.split)

lemma used_entry_kept:
  "used_invar s \<Longrightarrow> map_of (ps_blacklist s) j = Some x \<Longrightarrow> t < x
    \<Longrightarrow> map_of (cleanup_blacklist t (ps_blacklist s)) j = Some x"
  by (simp add: map_of_cleanup_blacklist used_view_def)

interpretation memory_reservation:
  reservation "confirm_reserve R J W" "confirm_call post" "confirm_release R" "asks_for W cfg j" "\<lambda>g. rg_jti g = j"
    "timely R J W cfg clock j e" "memory_held j e" "memory_reset cfg"
  for R :: "('r, 'j) redis" and J W post cfg clock j e
proof
  fix st st' :: "reset_service \<times> 'r" and c :: confirmation and g
  obtain t1 t2 t3 request where c: "c = ((t1, t2, t3), request)" by (metis prod.collapse)
  obtain s r where st: "st = (s, r)" by (rule prod.exhaust)
  assume inv: "memory_reset cfg st"
  then have mem: "ps_in_memory s" "ps_settings s = cfg" "used_invar s"
    by (auto simp: memory_reset_def st dest: ps_in_memoryD)
  note reserve = confirm_reserve_memory [OF inv [unfolded st], where R = R and J = J and W = W and ?t1.0 = t1 and ?t2.0 = t2 and ?t3.0 = t3
      and request = request, folded c st]
  have asks: "asks_for W cfg j c \<longleftrightarrow> (case check_confirm W cfg t1 request of Inl _ \<Rightarrow> False | Inr g \<Rightarrow> rg_jti g = j)"
    by (simp add: asks_for_def c)
  have before: "before_expiry W cfg j e c \<longleftrightarrow> 0 \<le> t2 \<and> t2 \<le> t3 \<and> t3 < of_int e \<and>
      (case check_confirm W cfg t1 request of Inl _ \<Rightarrow> True | Inr g \<Rightarrow> rg_jti g = j \<longrightarrow> rg_exp g = e)"
    by (simp add: before_expiry_def c)
  have held: "used_view t s j \<noteq> None" "map_of (cleanup_blacklist t (ps_blacklist s)) j \<noteq> None"
    if "memory_held j e st" "t < of_int e" for t
    using that by (auto simp: memory_held_def st used_view_def used_entry_kept [OF mem(3)])
  have in_time: "timely R J W cfg clock j e c st \<Longrightarrow> before_expiry W cfg j e c" by (simp add: timely_def)
  show "memory_reset cfg (snd (confirm_reserve R J W c st))"
    using inv mem by (auto simp: reserve memory_reset_def split: sum.split)
  show "memory_reset cfg (snd (confirm_call post c g st))"
    using inv call_keeps_service [of post c g s r] by (simp add: memory_reset_def st)
  show "memory_reset cfg (snd (confirm_release R g st))"
    using mem by (simp add: confirm_release_def release_token_memory st memory_reset_def)
  show "(rg_jti g = j) = asks_for W cfg j c" if "confirm_reserve R J W c st = (Inr g, st')"
    using that by (auto simp: reserve asks split: sum.splits if_splits)
  show "confirm_reserve R J W c st \<noteq> (Inr g, st')"
    if "memory_held j e st" "asks_for W cfg j c" "timely R J W cfg clock j e c st"
    using that(1,2) in_time [OF that(3)] held(1) [OF that(1), of t3]
    by (auto simp: reserve asks before split: sum.splits if_splits)
  show "memory_held j e st'"
    if "asks_for W cfg j c" "timely R J W cfg clock j e c st" "confirm_reserve R J W c st = (Inr g, st')"
    using that(1,3) in_time [OF that(2)] reservation_length [of t2 t3 e]
    by (auto simp: reserve asks before memory_held_def used_put_def update_conv'
        split: sum.splits if_splits)
  show "memory_held j e (snd (confirm_call post c g st))" if "memory_held j e st"
    using that call_keeps_service [of post c g s r] by (simp add: memory_held_def st)
  show "memory_held j e (snd (confirm_release R g st))" if "memory_held j e st" "rg_jti g \<noteq> j"
    using that mem by (simp add: confirm_release_def release_token_memory st memory_held_def used_remove_def delete_conv')
  show "memory_held j e (snd (confirm_reserve R J W c st))" if h: "memory_held j e st" "timely R J W cfg clock j e c st"
  proof -
    obtain x where x: "map_of (ps_blacklist s) j = Some x" "of_int e \<le> x" using h(1) by (auto simp: memory_held_def st)
    have t3: "t3 < of_int e" using in_time [OF h(2)] by (simp add: before)
    then have "map_of (cleanup_blacklist t3 (ps_blacklist s)) j = Some x" by (intro used_entry_kept [OF mem(3) x(1)]) (use x(2) in simp)
    moreover have "used_view t3 s j \<noteq> None" by (rule held(1) [OF h(1) t3])
    ultimately show ?thesis
      using x h(1) by (auto simp: reserve memory_held_def used_sweep_def used_put_def update_conv' split: sum.split)
  qed
qed

text \<open>
  Documented behaviour of Redis keys that expire, over the server's own clock: a key with a
  deadline is there until the deadline; SET NX EX succeeds exactly on an absent key, whose
  deadline is then the lifetime from now, and otherwise changes nothing; DEL does not touch other
  keys. Waiting for a round trip and the call to ms-spring-api take time, in which a key keeps its
  deadline until that has passed.
\<close>

definition passes :: "('r \<Rightarrow> seconds) \<Rightarrow> (string \<Rightarrow> 'r \<Rightarrow> seconds option) \<Rightarrow> string \<Rightarrow> 'r \<Rightarrow> 'r \<Rightarrow> bool" where
  "passes clock deadline k r r' \<longleftrightarrow> clock r \<le> clock r' \<and>
     (\<forall>d. deadline k r = Some d \<longrightarrow> d \<le> clock r' \<or> deadline k r' = Some d)"

definition expiring_keys ::
  "('r, 'j) redis \<Rightarrow> (spring_request \<Rightarrow> 'r \<Rightarrow> http_reply \<times> 'r) \<Rightarrow> ('r \<Rightarrow> seconds)
    \<Rightarrow> (string \<Rightarrow> 'r \<Rightarrow> seconds option) \<Rightarrow> bool" where
  "expiring_keys R post clock deadline \<longleftrightarrow>
    (\<forall>k r d. deadline k r = Some d \<longrightarrow> clock r < d \<longrightarrow> r_get R k r \<noteq> None) \<and>
    (\<forall>k v ttl r. if r_get R k r = None
       then fst (r_set_nx_ex R k v ttl r) \<and> clock (snd (r_set_nx_ex R k v ttl r)) = clock r \<and>
         deadline k (snd (r_set_nx_ex R k v ttl r)) = Some (clock r + of_int ttl) \<and>
         (\<forall>k'. k' \<noteq> k \<longrightarrow> deadline k' (snd (r_set_nx_ex R k v ttl r)) = deadline k' r)
       else r_set_nx_ex R k v ttl r = (False, r)) \<and>
    (\<forall>k r. clock (r_del R k r) = clock r \<and> (\<forall>k'. k' \<noteq> k \<longrightarrow> deadline k' (r_del R k r) = deadline k' r)) \<and>
    (\<forall>k r. passes clock deadline k r (snd (r_net R r))) \<and>
    (\<forall>k q r. passes clock deadline k r (snd (post q r)))"

lemma passes_refl [simp]: "passes clock deadline k r r"
  by (simp add: passes_def)

lemma passes_trans: "passes clock deadline k r r' \<Longrightarrow> passes clock deadline k r' r'' \<Longrightarrow> passes clock deadline k r r''"
  unfolding passes_def by (meson order_trans)

lemma redis_call_passes:
  assumes "expiring_keys R post clock deadline" "\<And>r. passes clock deadline k r (snd (cmd r))"
    and "redis_call R cmd r = (res, r1)"
  shows "passes clock deadline k r r1"
proof -
  obtain n r2 where n: "r_net R r = (n, r2)" by (rule prod.exhaust)
  then have "passes clock deadline k r r2" using assms(1) unfolding expiring_keys_def by (metis snd_conv)
  with assms(2) [of r2] assms(3) n show ?thesis
    by (cases n) (auto simp: redis_call_def split: prod.splits intro: passes_trans)
qed

lemma set_nx_passes:
  assumes "expiring_keys R post clock deadline"
  shows "passes clock deadline k' r (snd (r_set_nx_ex R k v ttl r))"
proof -
  have alive: "\<And>d. deadline k r = Some d \<Longrightarrow> clock r < d \<Longrightarrow> r_get R k r \<noteq> None"
    using assms unfolding expiring_keys_def by blast
  have set: "if r_get R k r = None
       then fst (r_set_nx_ex R k v ttl r) \<and> clock (snd (r_set_nx_ex R k v ttl r)) = clock r \<and>
         deadline k (snd (r_set_nx_ex R k v ttl r)) = Some (clock r + of_int ttl) \<and>
         (\<forall>k'. k' \<noteq> k \<longrightarrow> deadline k' (snd (r_set_nx_ex R k v ttl r)) = deadline k' r)
       else r_set_nx_ex R k v ttl r = (False, r)"
    using assms unfolding expiring_keys_def by blast
  show ?thesis
  proof (cases "r_get R k r = None")
    case True
    then have "d \<le> clock r" if "deadline k r = Some d" for d using alive [OF that] by (metis not_le)
    with set True show ?thesis by (cases "k' = k") (auto simp: passes_def)
  qed (use set in simp)
qed

definition redis_held :: "('r \<Rightarrow> seconds) \<Rightarrow> (string \<Rightarrow> 'r \<Rightarrow> seconds option) \<Rightarrow> string \<Rightarrow> int \<Rightarrow> reset_service \<times> 'r \<Rightarrow> bool" where
  "redis_held clock deadline j e st \<longleftrightarrow> of_int e \<le> clock (snd st) \<or>
     (\<exists>d. deadline (BLACKLIST_PREFIX @ j) (snd st) = Some d \<and> of_int e \<le> d)"

lemma passes_held:
  "passes clock deadline (BLACKLIST_PREFIX @ j) r r1 \<Longrightarrow> redis_held clock deadline j e (s, r) \<Longrightarrow>
    redis_held clock deadline j e (s1, r1)"
  unfolding passes_def redis_held_def by (metis order_trans snd_conv)

definition redis_reset ::
  "('r, 'j) redis \<Rightarrow> (spring_request \<Rightarrow> 'r \<Rightarrow> http_reply \<times> 'r) \<Rightarrow> settings \<Rightarrow> ('r \<Rightarrow> seconds)
    \<Rightarrow> (string \<Rightarrow> 'r \<Rightarrow> seconds option) \<Rightarrow> reset_service \<times> 'r \<Rightarrow> bool" where
  "redis_reset R post cfg clock deadline st \<longleftrightarrow>
     ps_settings (fst st) = cfg \<and> redis_url cfg \<noteq> None \<and> expiring_keys R post clock deadline"

lemma ps_redis_client_passes:
  assumes "redis_reset R post cfg clock deadline (s, r)" "ps_redis_client R (s, r) = (res, s1, r1)"
  shows "ps_settings s1 = ps_settings s" "passes clock deadline k r r1"
proof -
  have ping: "redis_call R redis_ping r = (x, r2) \<Longrightarrow> passes clock deadline k r r2" for x r2
    by (rule redis_call_passes) (use assms(1) in \<open>auto simp: redis_reset_def redis_ping_def\<close>)
  show "ps_settings s1 = ps_settings s" "passes clock deadline k r r1"
    using assms ping by (auto simp: ps_redis_client_def split: if_splits option.splits prod.splits)
qed

text \<open>A reservation that succeeds has found the key absent, and set it to expire after its lifetime.\<close>

lemma reserve_token_redis:
  assumes "redis_reset R post cfg clock deadline (s, r)" "reserve_token R J jti ttl now (s, r) = (res, s1, r1)"
  shows "ps_settings s1 = ps_settings s" "passes clock deadline k r r1"
    and "res = Inr () \<Longrightarrow> \<exists>r2. passes clock deadline (BLACKLIST_PREFIX @ jti) r r2 \<and> clock r1 = clock r2 \<and>
      r_get R (BLACKLIST_PREFIX @ jti) r2 = None \<and>
      deadline (BLACKLIST_PREFIX @ jti) r1 = Some (clock r2 + of_int (max ttl 1))"
proof -
  let ?key = "BLACKLIST_PREFIX @ jti"
  let ?set = "r_set_nx_ex R ?key (j_dumps J (PInt 1)) (max ttl 1)"
  have url: "redis_url (ps_settings s) \<noteq> None" using assms(1) by (simp add: redis_reset_def)
  have laws: "expiring_keys R post clock deadline" using assms(1) by (simp add: redis_reset_def)
  have pass: "redis_call R ?set r' = (x, r2) \<Longrightarrow> passes clock deadline k r' r2" for x r2 k r'
    by (rule redis_call_passes [OF laws set_nx_passes [OF laws]])
  have taken: "\<exists>r3. passes clock deadline ?key r' r3 \<and> clock r2 = clock r3 \<and> r_get R ?key r3 = None \<and>
      deadline ?key r2 = Some (clock r3 + of_int (max ttl 1))"
    if "redis_call R ?set r' = (Some True, r2)" for r' r2
  proof -
    obtain n r3 where net: "r_net R r' = (n, r3)" by (rule prod.exhaust)
    with that have "n = Delivered" and set: "?set r3 = (True, r2)"
      by (cases n; auto simp: redis_call_def split: prod.splits)+
    with net have n: "r_net R r' = (Delivered, r3)" by simp
    have "if r_get R ?key r3 = None then clock (snd (?set r3)) = clock r3 \<and>
        deadline ?key (snd (?set r3)) = Some (clock r3 + of_int (max ttl 1)) else ?set r3 = (False, r3)"
      using laws unfolding expiring_keys_def by meson
    moreover have "passes clock deadline ?key r' r3" using laws n unfolding expiring_keys_def by (metis snd_conv)
    ultimately show ?thesis using set by (auto split: if_splits)
  qed
  obtain x s2 r2 where c: "ps_redis_client R (s, r) = (x, s2, r2)" by (rule prod_cases3)
  note client = ps_redis_client_passes [OF assms(1) c]
  have close: "ps_settings (ps_close s2) = ps_settings s2" by (simp add: ps_close_def Let_def)
  have result: "(case x of Inl e \<Rightarrow> (Inl e, s2, r2) | Inr _ \<Rightarrow>
      (case redis_call R ?set r2 of
          (None, r1) \<Rightarrow> (Inl (PasswordResetUnavailable ''Redis reservation failed''), ps_close s2, r1)
        | (Some reserved, r1) \<Rightarrow>
            if \<not> reserved then (Inl (PasswordResetTokenInvalidError used_token_detail), s2, r1)
            else (Inr (), s2, r1))) = (res, s1, r1)"
    using assms(2) url by (cases x) (auto simp: reserve_token_def c)
  show "ps_settings s1 = ps_settings s" "passes clock deadline k r r1"
    using result client(1) client(2) [of k] pass [of r2 _ _ k] close
    by (auto split: sum.splits prod.splits option.splits if_splits intro: passes_trans)
  show "\<exists>r2. passes clock deadline ?key r r2 \<and> clock r1 = clock r2 \<and> r_get R ?key r2 = None \<and>
      deadline ?key r1 = Some (clock r2 + of_int (max ttl 1))" if "res = Inr ()"
  proof -
    have "redis_call R ?set r2 = (Some True, r1)"
      using result that by (auto split: sum.splits prod.splits option.splits if_splits)
    from taken [OF this] client(2) [of ?key] show ?thesis by (blast intro: passes_trans)
  qed
qed

lemma release_token_redis:
  assumes "redis_reset R post cfg clock deadline (s, r)" "release_token R jti (s, r) = (res, s1, r1)"
  shows "ps_settings s1 = ps_settings s" "jti \<noteq> j \<Longrightarrow> passes clock deadline (BLACKLIST_PREFIX @ j) r r1"
proof -
  let ?del = "\<lambda>r. ((), r_del R (BLACKLIST_PREFIX @ jti) r)"
  have url: "redis_url (ps_settings s) \<noteq> None" using assms(1) by (simp add: redis_reset_def)
  have laws: "expiring_keys R post clock deadline" using assms(1) by (simp add: redis_reset_def)
  have del: "passes clock deadline (BLACKLIST_PREFIX @ j) r' (r_del R (BLACKLIST_PREFIX @ jti) r')" if "jti \<noteq> j" for r'
    using laws that unfolding expiring_keys_def passes_def by simp
  have pass: "passes clock deadline (BLACKLIST_PREFIX @ j) r' r2" if "redis_call R ?del r' = (x, r2)" "jti \<noteq> j" for x r2 r'
    by (rule redis_call_passes [OF laws _ that(1)]) (simp add: del [OF that(2)])
  obtain x s2 r2 where c: "ps_redis_client R (s, r) = (x, s2, r2)" by (rule prod_cases3)
  note client = ps_redis_client_passes [OF assms(1) c]
  have close: "ps_settings (ps_close s2) = ps_settings s2" by (simp add: ps_close_def Let_def)
  have result: "(case x of Inl e \<Rightarrow> (Inl e, s2, r2) | Inr _ \<Rightarrow>
      (case redis_call R ?del r2 of
          (None, r1) \<Rightarrow> (Inl (PasswordResetUnavailable ''Redis reservation release failed''), ps_close s2, r1)
        | (Some _, r1) \<Rightarrow> (Inr (), s2, r1))) = (res, s1, r1)"
    using assms(2) url by (cases x) (auto simp: release_token_def c)
  show "ps_settings s1 = ps_settings s"
    using result client(1) close by (auto split: sum.splits prod.splits option.splits if_splits)
  show "passes clock deadline (BLACKLIST_PREFIX @ j) r r1" if "jti \<noteq> j"
    using result client(2) [of "BLACKLIST_PREFIX @ j"] pass [OF _ that]
    by (auto split: sum.splits prod.splits option.splits if_splits intro: passes_trans)
qed

lemma confirm_reserve_cases:
  fixes R :: "('r, 'j) redis"
  assumes "ps_settings s = cfg"
  obtains (guard) x where "check_confirm W cfg t1 request = Inl x"
      "confirm_reserve R J W ((t1, t2, t3), request) (s, r) = (Inl x, s, r)"
  | (reserved) g res s1 r1 where "check_confirm W cfg t1 request = Inr g"
      "reserve_token R J (rg_jti g) (max (rg_exp g - py_int t2) 1) t3 (s, r) = (res, s1, r1)"
      "confirm_reserve R J W ((t1, t2, t3), request) (s, r) = (case res of Inl x \<Rightarrow> Inl x | Inr _ \<Rightarrow> Inr g, s1, r1)"
proof (cases "check_confirm W cfg t1 request")
  case (Inl x)
  then show thesis using assms by (intro guard) (simp_all add: confirm_reserve_def)
next
  case (Inr g)
  obtain res s1 r1 where t: "reserve_token R J (rg_jti g) (max (rg_exp g - py_int t2) 1) t3 (s, r) = (res, s1, r1)"
    by (rule prod_cases3)
  show thesis
    by (rule reserved [OF Inr t]) (use Inr t assms in \<open>cases res; simp add: confirm_reserve_def\<close>)
qed

text \<open>A token held at the end of its life cannot be taken while that lasts; taking it holds it that long.\<close>

lemma held_not_taken:
  assumes "redis_reset R post cfg clock deadline (s, r)" "redis_held clock deadline j e (s, r)"
    and "reserve_token R J j ttl now (s, r) = (Inr (), s1, r1)"
  shows "of_int e \<le> clock r1"
proof (rule ccontr)
  assume late: "\<not> of_int e \<le> clock r1"
  obtain r2 where r2: "passes clock deadline (BLACKLIST_PREFIX @ j) r r2" "clock r1 = clock r2"
      "r_get R (BLACKLIST_PREFIX @ j) r2 = None"
    using reserve_token_redis(3) [OF assms(1,3) refl] by blast
  have "redis_held clock deadline j e (s, r2)" by (rule passes_held [OF r2(1) assms(2)])
  then obtain d where "deadline (BLACKLIST_PREFIX @ j) r2 = Some d" "clock r2 < d"
    using late r2(2) by (auto simp: redis_held_def)
  with r2(3) assms(1) show False unfolding redis_reset_def expiring_keys_def by blast
qed

lemma taken_held:
  assumes "redis_reset R post cfg clock deadline (s, r)" "0 \<le> t2" "t2 \<le> clock r"
    and "reserve_token R J j (max (e - py_int t2) 1) now (s, r) = (Inr (), s1, r1)"
  shows "redis_held clock deadline j e (s1, r1)"
proof -
  obtain r2 where r2: "passes clock deadline (BLACKLIST_PREFIX @ j) r r2"
      "deadline (BLACKLIST_PREFIX @ j) r1 = Some (clock r2 + of_int (max (max (e - py_int t2) 1) 1))"
    using reserve_token_redis(3) [OF assms(1,4) refl] by blast
  have "t2 \<le> clock r2" using r2(1) assms(3) by (simp add: passes_def)
  then have "of_int e \<le> clock r2 + of_int (max (max (e - py_int t2) 1) 1)"
    using reservation_length [OF assms(2), of "clock r2" e] by simp
  with r2(2) show ?thesis by (simp add: redis_held_def)
qed

interpretation redis_reservation:
  reservation "confirm_reserve R J W" "confirm_call post" "confirm_release R" "asks_for W cfg j" "\<lambda>g. rg_jti g = j"
    "timely R J W cfg clock j e" "redis_held clock deadline j e" "redis_reset R post cfg clock deadline"
  for R :: "('r, 'j) redis" and J W post cfg clock deadline j e
proof
  fix st st' :: "reset_service \<times> 'r" and c :: confirmation and g
  obtain t1 t2 t3 request where c: "c = ((t1, t2, t3), request)" by (metis prod.collapse)
  obtain s r where st: "st = (s, r)" by (rule prod.exhaust)
  assume inv: "redis_reset R post cfg clock deadline st"
  note inv' = inv [unfolded st]
  have cfg: "ps_settings s = cfg" using inv by (simp add: redis_reset_def st)
  have url: "redis_url cfg \<noteq> None" using inv by (simp add: redis_reset_def)
  have asks: "asks_for W cfg j c \<longleftrightarrow> (case check_confirm W cfg t1 request of Inl _ \<Rightarrow> False | Inr g \<Rightarrow> rg_jti g = j)"
    by (simp add: asks_for_def c)
  have in_time: "0 \<le> t2" "t2 \<le> clock r" "clock (snd (snd (confirm_reserve R J W c st))) < of_int e"
      "check_confirm W cfg t1 request = Inr g' \<Longrightarrow> rg_jti g' = j \<Longrightarrow> rg_exp g' = e"
    if "timely R J W cfg clock j e c st" for g'
    using that url by (auto simp: timely_def before_expiry_def c st)
  have kept: "redis_reset R post cfg clock deadline (snd (confirm_reserve R J W c st)) \<and>
      passes clock deadline k r (snd (snd (confirm_reserve R J W c st)))" for k
    using cfg
  proof (cases rule: confirm_reserve_cases [where R = R and J = J and W = W and ?t1.0 = t1 and request = request
        and ?t2.0 = t2 and ?t3.0 = t3 and r = r])
    case (reserved g res s1 r1)
    with reserve_token_redis(1,2) [OF inv' reserved(2)] inv' show ?thesis by (simp add: c st redis_reset_def)
  qed (use inv' in \<open>simp add: c st redis_reset_def\<close>)
  then show "redis_reset R post cfg clock deadline (snd (confirm_reserve R J W c st))" by blast
  show "redis_held clock deadline j e (snd (confirm_reserve R J W c st))" if "redis_held clock deadline j e st"
    using passes_held [OF conjunct2 [OF kept], where j = j and e = e and s = s
        and ?s1.0 = "fst (snd (confirm_reserve R J W c st))"] that by (simp add: st)
  obtain x s1 r1 where call: "confirm_call post c g st = (x, s1, r1)" by (rule prod_cases3)
  have called: "s1 = s" "passes clock deadline k r r1" for k
  proof -
    have "passes clock deadline k r (snd (post q r))" for q
      using inv unfolding redis_reset_def expiring_keys_def by blast
    then show "s1 = s" "passes clock deadline k r r1"
      using call by (auto simp: confirm_call_def call_spring_internal_reset_def c st split: if_splits prod.splits)
        (metis snd_conv)
  qed
  show "redis_reset R post cfg clock deadline (snd (confirm_call post c g st))"
    using inv' called(1) by (simp add: call redis_reset_def)
  show "redis_held clock deadline j e (snd (confirm_call post c g st))" if "redis_held clock deadline j e st"
    using passes_held [OF called(2), where j = j and e = e and s = s and ?s1.0 = s1] that call by (simp add: st)
  obtain y s2 r2 where release: "release_token R (rg_jti g) (s, r) = (y, s2, r2)" by (rule prod_cases3)
  note released = release_token_redis [OF inv' release]
  show "redis_reset R post cfg clock deadline (snd (confirm_release R g st))"
    using inv' released(1) by (simp add: confirm_release_def st release redis_reset_def)
  show "redis_held clock deadline j e (snd (confirm_release R g st))"
    if "redis_held clock deadline j e st" "rg_jti g \<noteq> j"
    using passes_held [OF released(2) [OF that(2)], where e = e and s = s and ?s1.0 = s2] that(1) by (simp add: confirm_release_def st release)
  have taken: "\<exists>ttl. ttl = max (rg_exp g - py_int t2) 1 \<and> check_confirm W cfg t1 request = Inr g \<and>
      reserve_token R J (rg_jti g) ttl t3 (s, r) = (Inr (), st')"
    if "confirm_reserve R J W c st = (Inr g, st')"
    by (cases rule: confirm_reserve_cases [OF cfg, where R = R and J = J and W = W and ?t1.0 = t1 and request = request
        and ?t2.0 = t2 and ?t3.0 = t3 and r = r]) (use that in \<open>auto simp: c st split: sum.splits\<close>)
  show "(rg_jti g = j) = asks_for W cfg j c" if "confirm_reserve R J W c st = (Inr g, st')"
    using taken [OF that] by (auto simp: asks)
  show "confirm_reserve R J W c st \<noteq> (Inr g, st')"
    if h: "redis_held clock deadline j e st" "asks_for W cfg j c" "timely R J W cfg clock j e c st"
  proof
    assume run: "confirm_reserve R J W c st = (Inr g, st')"
    from taken [OF run] h(2) have "reserve_token R J j (max (rg_exp g - py_int t2) 1) t3 (s, r) = (Inr (), fst st', snd st')"
      by (auto simp: asks)
    from held_not_taken [OF inv' h(1) [unfolded st] this] in_time(3) [OF h(3)] run show False by simp
  qed
  show "redis_held clock deadline j e st'"
    if h: "asks_for W cfg j c" "timely R J W cfg clock j e c st" "confirm_reserve R J W c st = (Inr g, st')"
  proof -
    from taken [OF h(3)] h(1) have g: "check_confirm W cfg t1 request = Inr g" "rg_jti g = j"
      and t: "reserve_token R J j (max (rg_exp g - py_int t2) 1) t3 (s, r) = (Inr (), fst st', snd st')"
      by (auto simp: asks)
    have "rg_exp g = e" by (rule in_time(4) [OF h(2) g])
    from taken_held [OF inv' in_time(1,2) [OF h(2)] t [unfolded this]] show ?thesis by simp
  qed
qed

section \<open>Properties\<close>

text \<open>C5: Overlapping confirmations of a reset token exclude each other within its lifetime, over the
  in-process list and over Redis, whatever the replies of ms-spring-api and whichever round trips
  to Redis fail: under every schedule of any number of requests that reserve before the expiry of
  the token, at most one request for the token is past the reservation and not failed and
  released, so at most one calls ms-spring-api at a time and at most one ever succeeds. Redis may
  expire its keys when their lifetime is over: the reservation outlives the token, provided the
  clock of the service is not ahead of the server's. (From its expiry on the token itself is
  rejected.)\<close>

theorem one_confirmation_at_a_time:
  assumes "redis_url cfg = None \<and> ps_in_memory s \<or> redis_url cfg \<noteq> None \<and> expiring_keys R post clock deadline"
    and "ps_settings s = cfg"
    and "reserves_timely (timely R J W cfg clock j e) (confirm_turns R J W post) is (map Arriving cs) (s, r)"
    and "confirm_schedule (confirm_turns R J W post) is (map Arriving cs) (s, r) = (procs, st')"
  shows "length (filter (active (asks_for W cfg j)) procs) \<le> 1"
  using assms(1)
proof
  assume "redis_url cfg = None \<and> ps_in_memory s"
  then have "memory_reset cfg (s, r)" using assms(2) by (simp add: memory_reset_def)
  from memory_reservation.one_active [OF this assms(3,4) [unfolded confirm_turns_def]] show ?thesis .
next
  assume "redis_url cfg \<noteq> None \<and> expiring_keys R post clock deadline"
  then have "redis_reset R post cfg clock deadline (s, r)" using assms(2) by (simp add: redis_reset_def)
  from redis_reservation.one_active [OF this assms(3,4) [unfolded confirm_turns_def]] show ?thesis .
qed

text \<open>A server with a clock, on which every round trip takes a second.\<close>

type_synonym clocked = "seconds \<times> (string \<times> pyval \<times> seconds) list"

definition clocked_get :: "string \<Rightarrow> clocked \<Rightarrow> pyval option" where
  "clocked_get k = (\<lambda>(t, m). case map_of m k of None \<Rightarrow> None | Some (v, d) \<Rightarrow> if t < d then Some v else None)"

definition clocked_redis :: "(clocked, pyval) redis" where
  "clocked_redis = \<lparr>
     r_net = (\<lambda>(t, m). (Delivered, t + 1, m)),
     r_get = clocked_get,
     r_set_ex = (\<lambda>k v ttl (t, m). (t, AList.update k (v, t + of_int ttl) m)),
     r_set_keepttl = (\<lambda>k v (t, m).
       (t, case map_of m k of None \<Rightarrow> m | Some (_, d) \<Rightarrow> AList.update k (v, d) m)),
     r_set_nx_ex = (\<lambda>k v ttl (t, m).
       if clocked_get k (t, m) \<noteq> None then (False, t, m) else (True, t, AList.update k (v, t + of_int ttl) m)),
     r_del = (\<lambda>k (t, m). (t, AList.delete k m)),
     r_incr = (\<lambda>_ r. (1, r)), r_expire = (\<lambda>_ _ r. r), r_ttl = (\<lambda>_ _. 60)\<rparr>"

definition clocked_deadline :: "string \<Rightarrow> clocked \<Rightarrow> seconds option" where
  "clocked_deadline k r = map_option snd (map_of (snd r) k)"

lemma clocked_expiring_keys: "expiring_keys clocked_redis (\<lambda>_ r. (Status 200, r)) fst clocked_deadline"
  by (auto simp: expiring_keys_def clocked_redis_def clocked_get_def clocked_deadline_def passes_def update_conv' delete_conv'
      split: option.splits)

definition example_overlap ::
  "string option \<Rightarrow> (confirmation, reset_grant) cproc list \<times> reset_service \<times> clocked" where
  "example_overlap url = confirm_schedule (confirm_turns clocked_redis example_codec example_jwt (\<lambda>_ r. (Status 200, r)))
     [0, 1, 0, 1] (map Arriving [example_confirmation 200, example_confirmation 200])
     (example_service\<lparr>ps_settings := default_settings\<lparr>redis_url := url\<rparr>\<rparr>, (200, []))"

theorem one_confirmation_at_a_time_witness:
  "length (filter (active (asks_for example_jwt (default_settings\<lparr>redis_url := None\<rparr>) ''j1''))
     (fst (example_overlap None))) \<le> 1 \<and>
   length (filter (active (asks_for example_jwt (default_settings\<lparr>redis_url := Some ''redis://r''\<rparr>) ''j1''))
     (fst (example_overlap (Some ''redis://r'')))) \<le> 1"
proof -
  have "length (filter (active (asks_for example_jwt (default_settings\<lparr>redis_url := url\<rparr>) ''j1'')) (fst (example_overlap url))) \<le> 1"
    if url: "url = None \<or> url = Some ''redis://r''" for url
  proof -
    let ?cfg = "default_settings\<lparr>redis_url := url\<rparr>" and ?c = "example_confirmation 200"
    let ?s = "example_service\<lparr>ps_settings := ?cfg\<rparr>"
    let ?turns = "confirm_turns clocked_redis example_codec example_jwt (\<lambda>_ r. (Status 200, r))"
    have grant: "check_confirm example_jwt (default_settings\<lparr>redis_url := u\<rparr>) 200
        \<lparr>rc_reset_token = ''tok'', rc_new_password = ''Abcdef1!''\<rparr> =
        Inr \<lparr>rg_jti = ''j1'', rg_account = FARM_OWNER, rg_id = 7, rg_exp = 700\<rparr>" for u
      using example_grant [of 200] by (simp add: check_confirm_def verify_reset_token_def example_jwt_def)
    have before: "before_expiry example_jwt (default_settings\<lparr>redis_url := u\<rparr>) ''j1'' 700 ?c" for u
      by (simp add: before_expiry_def example_confirmation_def grant)
    have fields: "ps_redis example_service = False" "ps_blacklist example_service = []"
      by (simp_all add: example_service_def init_reset_service_def)
    have times: "reserves_timely (timely clocked_redis example_codec example_jwt ?cfg fst ''j1'' 700) ?turns [0, 1, 0, 1]
        (map Arriving [?c, ?c]) (?s, (200, []))"
      using url
      by (auto simp: timely_def before [unfolded example_confirmation_def] confirm_turns_def confirm_reserve_def confirm_call_def example_confirmation_def grant
          reserve_token_def ps_redis_client_def redis_call_def redis_ping_def clocked_redis_def clocked_get_def
          call_spring_internal_reset_def spring_result_def fields cleanup_blacklist_def Let_def split: prod.splits)
    obtain procs st' where run: "example_overlap url = (procs, st')" by (rule prod.exhaust)
    have "length (filter (active (asks_for example_jwt ?cfg ''j1'')) procs) \<le> 1"
      by (rule one_confirmation_at_a_time [OF _ _ times run [unfolded example_overlap_def]])
        (use clocked_expiring_keys url in \<open>auto simp: ps_in_memory_def used_invar_def fields\<close>)
    with run show ?thesis by simp
  qed
  then show ?thesis by blast
qed

end
