(* ===== verification/ResetFlow.thy ===== *)
theory ResetFlow
  imports ResetProps
begin

text \<open>
  The signing secret, the uniform answer of the start of a reset, and the whole flow from the
  first request to the call of ms-spring-api over the in-process stores.
\<close>

section \<open>Secrets\<close>

lemma pick_secret_long:
  assumes "Some v \<in> set secrets" "32 \<le> length v"
  shows "\<exists>w. Some w \<in> set secrets \<and> 32 \<le> length w \<and> pick_secret secrets fallback = w"
proof -
  let ?P = "\<lambda>s. case s of None \<Rightarrow> False | Some v \<Rightarrow> 32 \<le> length v"
  have "List.find ?P secrets \<noteq> None" using assms by (auto simp: find_None_iff)
  then obtain x where x: "List.find ?P secrets = Some x" by blast
  then have "?P x" "x \<in> set secrets" by (auto simp: find_Some_iff)
  then show ?thesis using x by (cases x) (auto simp: pick_secret_def)
qed

lemma pick_secret_none:
  assumes "\<forall>s \<in> set secrets. str_falsy s"
  shows "pick_secret secrets fallback = fallback"
proof -
  have "List.find (\<lambda>s. case s of None \<Rightarrow> False | Some v \<Rightarrow> 32 \<le> length v) secrets = None"
    "List.find (\<lambda>s. \<not> str_falsy s) secrets = None"
    using assms by (auto simp: find_None_iff split: option.splits)
  then show ?thesis by (simp add: pick_secret_def)
qed

text \<open>C21: The secret that signs reset tokens: settings accepted by the validator with email OTP
  enabled give a configured secret of at least 32 characters; settings with none of the five
  secrets give the constant written in the source, with which anybody can mint a token.\<close>

theorem reset_secret_choice:
  "(valid_settings cfg \<and> ouros_email_otp_enabled cfg \<longrightarrow>
      32 \<le> length (get_reset_jwt_secret cfg) \<and>
      Some (get_reset_jwt_secret cfg) \<in> {password_reset_jwt_secret cfg, ouros_email_otp_hmac_secret cfg,
        internal_service_secret cfg, internal_service_key cfg, spring_jwt_secret cfg}) \<and>
   (str_falsy (password_reset_jwt_secret cfg) \<and> str_falsy (ouros_email_otp_hmac_secret cfg) \<and>
      str_falsy (internal_service_secret cfg) \<and> str_falsy (internal_service_key cfg) \<and>
      str_falsy (spring_jwt_secret cfg) \<longrightarrow>
      get_reset_jwt_secret cfg = ''ouros-dev-password-reset-secret-key-32-chars-minimum'')"
proof (intro conjI impI; (elim conjE)?)
  assume "valid_settings cfg" "ouros_email_otp_enabled cfg"
  then obtain v where v: "ouros_email_otp_hmac_secret cfg = Some v" "32 \<le> length v"
    using valid_settings_otp(1) by blast
  let ?secrets = "[password_reset_jwt_secret cfg, ouros_email_otp_hmac_secret cfg, internal_service_secret cfg,
      internal_service_key cfg, spring_jwt_secret cfg]"
  have "Some v \<in> set ?secrets" using v(1) by simp
  from pick_secret_long [OF this v(2)]
  obtain w where "Some w \<in> set ?secrets" "32 \<le> length w" "get_reset_jwt_secret cfg = w"
    unfolding get_reset_jwt_secret_def by blast
  then show "32 \<le> length (get_reset_jwt_secret cfg)"
    "Some (get_reset_jwt_secret cfg) \<in> {password_reset_jwt_secret cfg, ouros_email_otp_hmac_secret cfg,
        internal_service_secret cfg, internal_service_key cfg, spring_jwt_secret cfg}" by auto
next
  assume "str_falsy (password_reset_jwt_secret cfg)" "str_falsy (ouros_email_otp_hmac_secret cfg)"
    "str_falsy (internal_service_secret cfg)" "str_falsy (internal_service_key cfg)" "str_falsy (spring_jwt_secret cfg)"
  then show "get_reset_jwt_secret cfg = ''ouros-dev-password-reset-secret-key-32-chars-minimum''"
    unfolding get_reset_jwt_secret_def by (intro pick_secret_none) simp
qed

theorem reset_secret_choice_witness:
  "get_reset_jwt_secret (default_settings\<lparr>environment := ''production''\<rparr>) =
     ''ouros-dev-password-reset-secret-key-32-chars-minimum''"
  using reset_secret_choice [of "default_settings\<lparr>environment := ''production''\<rparr>"]
  by (simp add: default_settings_def)

section \<open>The start\<close>

lemma otp_command_result:
  "otp_command R msg cmd st = (res, st') \<Longrightarrow> (\<exists>a. res = Inr a) \<or> (\<exists>m. res = Inl (EmailOtpUnavailable m))"
  by (cases st) (auto simp: otp_command_def otp_redis_client_def split: if_splits prod.splits option.splits)

lemma otp_save_result:
  "otp_save R J pre c rec ttl t st = (res, st') \<Longrightarrow> res = Inr () \<or> (\<exists>m. res = Inl (EmailOtpUnavailable m))"
  using otp_command_result [of R "''Redis write failed''" _ st res st']
  by (cases st) (auto simp: otp_save_def split: if_splits)

lemma start_password_reset_result:
  assumes "start_password_reset R J H token n t_exp t_save em a i st = (res, st')"
  shows "(\<exists>ch. res = Inr ch \<and> ch_id ch = token) \<or> (\<exists>m. res = Inl (EmailOtpUnavailable m))"
proof -
  obtain s r where st: "st = (s, r)" by (rule prod.exhaust)
  have ready: "require_ready s = Inl e \<Longrightarrow> \<exists>m. e = EmailOtpUnavailable m" for e
    by (auto simp: require_ready_def split: if_splits)
  have dig: "code_digest H s c x = Inl e \<Longrightarrow> \<exists>m. e = EmailOtpUnavailable m" for c x e
    by (auto simp: code_digest_def split: option.splits)
  show ?thesis using assms
    by (auto simp: start_password_reset_def st Let_def and_then_def dest!: ready dig otp_save_result
        split: sum.splits prod.splits)
qed

text \<open>C26: No account enumeration: on a working database, when the generic response can be built,
  the start of a reset always succeeds, whether the email has no eligible account, several, or
  one whose challenge could not be stored, and the masked email and lifetime are functions of
  the request and the settings alone; the challenge id is one of the two random ids drawn.\<close>

theorem start_reset_uniform:
  assumes "db_pool (ps_db s)" "pg_statement pg = Inr ()"
    and "mk_reset_start_response decoy (mask_email (py_lower (py_strip (rs_email request))))
      (ouros_email_otp_ttl_seconds (ps_settings s)) = Inr generic"
  shows "\<exists>response st'. start_reset R J H pg decoy token n t_exp t_save request (s, r) = (Inr response, st') \<and>
    sr_masked_email response = mask_email (py_lower (py_strip (rs_email request))) \<and>
    sr_expires_in response = ouros_email_otp_ttl_seconds (ps_settings s) \<and>
    sr_challenge_id response \<in> {decoy, token}"
proof -
  let ?found = "found_identities pg (py_lower (py_strip (rs_email request))) (rs_account_type request)"
  let ?eligible = "filter (\<lambda>i. si_account_type i \<in> {FARM_OWNER, COMPANY_EMPLOYEE}) ?found"
  have found: "find_by_email pg (py_lower (py_strip (rs_email request))) (rs_account_type request) (ps_db s)
      = (Inr ?found, ps_db s)"
    by (rule find_by_email_working [OF assms(1,2)])
  have generic: "sr_challenge_id generic = decoy"
      "sr_masked_email generic = mask_email (py_lower (py_strip (rs_email request)))"
      "sr_expires_in generic = ouros_email_otp_ttl_seconds (ps_settings s)"
    using assms(3) by (auto simp: mk_reset_start_response_def split: if_splits)
  show ?thesis
  proof (cases "\<exists>i. ?eligible = [i]")
    case False
    then show ?thesis using found generic
      by (auto simp: start_reset_def Let_def assms(3) split: list.splits)
  next
    case True
    then obtain i where i: "?eligible = [i]" by blast
    obtain res st' where c: "with_otp (start_password_reset R J H token n t_exp t_save (si_email i)
        (account_value (si_account_type i)) (si_database_id i)) (s\<lparr>ps_db := ps_db s\<rparr>, r) = (res, st')"
      by (rule prod.exhaust)
    then have "(\<exists>ch. res = Inr ch \<and> ch_id ch = token) \<or> (\<exists>m. res = Inl (EmailOtpUnavailable m))"
      by (auto simp: with_otp_def split: prod.splits dest: start_password_reset_result)
    then show ?thesis using found i c generic
      by (auto simp: start_reset_def Let_def assms(3))
  qed
qed

theorem start_reset_uniform_witness:
  "\<exists>response st'. start_reset example_redis example_codec example_hash example_postgres (replicate 43 (CHR ''d''))
      ''token'' 42 100 100 \<lparr>rs_email = ''nobody@farm.br'', rs_account_type = None\<rparr> (example_service, [])
      = (Inr response, st') \<and> sr_masked_email response = ''n***@farm.br''"
proof -
  have mask: "mask_email (py_lower (py_strip ''nobody@farm.br'')) = ''n***@farm.br''" by code_simp
  show ?thesis
    using start_reset_uniform [where s = example_service and pg = example_postgres and R = example_redis
        and J = example_codec and H = example_hash and r = "[]" and decoy = "replicate 43 (CHR ''d'')"
        and token = "''token''" and n = 42 and t_exp = 100 and t_save = 100
        and request = "\<lparr>rs_email = ''nobody@farm.br'', rs_account_type = None\<rparr>"] mask
    by (auto simp: example_service_def init_reset_service_def mk_reset_start_response_def length_between_def
        default_settings_def)
qed

text \<open>C39: An accepted request can make the generic response impossible to build: for a domain of
  251 to 253 characters the email is short enough for the request, but its masked form has more
  than the 255 characters the response allows, and the start fails with a validation error
  before any account is looked up.\<close>

theorem long_domain_breaks_start:
  assumes "251 \<le> length d" "length d \<le> 253" "CHR ''@'' \<notin> set d" "CHR '' '' \<notin> set d"
    and "py_lower (py_strip (''a@'' @ d)) = ''a@'' @ d"
  shows "mk_reset_start_request (''a@'' @ d) ty = Inr \<lparr>rs_email = ''a@'' @ d, rs_account_type = ty\<rparr> \<and>
    start_reset R J H pg decoy token n t_exp t_save \<lparr>rs_email = ''a@'' @ d, rs_account_type = ty\<rparr> (s, r)
      = (Inl ValidationError, s, r)"
proof
  have "d \<noteq> []" using assms(1) by auto
  then have "validate_email_shape (''a@'' @ d) = Inr (''a@'' @ d)"
    using assms(3-5) by (intro validate_email_shape_normal [of _ "''a''" d]) simp_all
  then show "mk_reset_start_request (''a@'' @ d) ty = Inr \<lparr>rs_email = ''a@'' @ d, rs_account_type = ty\<rparr>"
    using assms(1,2) by (simp add: mk_reset_start_request_def length_between_def)
  have "py_partition (CHR ''@'') (''a@'' @ d) = (''a'', ''@'', d)"
    using partition_append [of "CHR ''@''" "''a''" d] by simp
  then have "length (mask_email (''a@'' @ d)) = 5 + length d" by (simp add: mask_email_def)
  then show "start_reset R J H pg decoy token n t_exp t_save \<lparr>rs_email = ''a@'' @ d, rs_account_type = ty\<rparr> (s, r)
      = (Inl ValidationError, s, r)"
    using assms(1,5) by (simp add: start_reset_def mk_reset_start_response_def length_between_def)
qed

theorem long_domain_breaks_start_witness:
  "start_reset example_redis example_codec example_hash example_postgres (replicate 43 (CHR ''d'')) ''token'' 42 100 100
     \<lparr>rs_email = ''a@'' @ replicate 251 (CHR ''d''), rs_account_type = None\<rparr> (example_service, [])
   = (Inl ValidationError, example_service, [])"
proof -
  have low: "py_lower (py_strip (''a@'' @ replicate 251 (CHR ''d''))) = ''a@'' @ replicate 251 (CHR ''d'')"
    by code_simp
  show ?thesis by (rule conjunct2 [OF long_domain_breaks_start [OF _ _ _ _ low]]) simp_all
qed

section \<open>The whole flow\<close>

lemma start_password_reset_memory:
  assumes "otp_in_memory s" "require_ready s = Inr ()" "ouros_email_otp_hmac_secret (otp_settings s) = Some key"
  shows "\<exists>ch s'. start_password_reset R J H token n t_exp t_save em a i (s, r) = (Inr ch, s', r) \<and>
    ch_id ch = token \<and> otp_settings s' = otp_settings s \<and>
    otp_memory s' = otp_memory (otp_put t_save (reset_key token)
      (reset_record (py_lower (py_strip em)) a i (H key (token @ '':'' @ otp_code n))
        (py_int t_exp + ouros_email_otp_ttl_seconds (otp_settings s))) s)"
  using assms
  by (simp add: start_password_reset_def code_digest_def otp_save_memory Let_def otp_put_def)

lemma verify_password_reset_correct:
  assumes "otp_in_memory s" "require_ready s = Inr ()" "ouros_email_otp_hmac_secret (otp_settings s) = Some key"
    and "ascii_hash H" "0 < ouros_email_otp_max_attempts (otp_settings s)"
    and "otp_view t s (reset_key c) = Some (reset_record em a i (H key (c @ '':'' @ code)) e)"
    and "py_lower (py_strip em') = em"
  shows "\<exists>s'. verify_password_reset R J H t c em' code (s, r) =
    (Inr (PDict (reset_record em a i (H key (c @ '':'' @ code)) e)), s', r) \<and> otp_settings s' = otp_settings s"
proof -
  let ?h = "H key (c @ '':'' @ code)"
  have "typed_record (reset_record em a i ?h e) em ?h e 0" by (rule typed_reset_record)
  moreover have "dget (reset_record em a i ?h e) ''purpose'' = PStr ''password_reset''"
    by (simp add: reset_record_def dget_def)
  moreover have "is_ascii ?h" using assms(4) by (simp add: ascii_hash_def)
  ultimately have "verify_reset_memory t c em ?h s =
      (Inr (PDict (reset_record em a i ?h e)), otp_remove (reset_key c) (otp_sweep t s))"
    unfolding verify_reset_memory_view [OF otp_in_memoryD [OF assms(1)]] assms(6)
    using assms(5) by (simp add: typed_record_def)
  then show ?thesis
    unfolding verify_password_reset_memory [OF assms(1-3)] assms(7) by simp
qed

lemma check_confirm_minted:
  assumes "jw_decode W token (get_reset_jwt_secret cfg) required_reset_claims t =
      Some (reset_claims cfg em (account_value a) i jti t_mint)"
    and "a \<in> {FARM_OWNER, COMPANY_EMPLOYEE}" "re_fullmatch CREDENTIAL_COMPLEXITY_PATTERN password"
  shows "check_confirm W cfg t \<lparr>rc_reset_token = token, rc_new_password = password\<rparr> =
    Inr \<lparr>rg_jti = jti, rg_account = a, rg_id = i, rg_exp = py_int t_mint + password_reset_token_ttl_seconds cfg\<rparr>"
  using assms
  by (auto simp: check_confirm_def verify_reset_token_def reset_claims_def py_index_def dget_def reset_account_def)

lemma ps_otp_other [simp]:
  "used_view t (s\<lparr>ps_otp := o'\<rparr>) k = used_view t s k" "ps_in_memory (s\<lparr>ps_otp := o'\<rparr>) = ps_in_memory s"
  by (simp_all add: used_view_def ps_in_memory_def used_invar_def)

text \<open>The two ends of the flow: a start with exactly one eligible identity, and a confirmation with a minted token.\<close>

lemma start_reset_one:
  assumes "db_pool (ps_db s)" "pg_statement pg = Inr ()"
    and "filter (\<lambda>i. si_account_type i \<in> {FARM_OWNER, COMPANY_EMPLOYEE})
        (found_identities pg (py_lower (py_strip (rs_email request))) (rs_account_type request)) = [identity]"
    and "mk_reset_start_response decoy (mask_email (py_lower (py_strip (rs_email request))))
        (ouros_email_otp_ttl_seconds (ps_settings s)) = Inr generic"
    and "start_password_reset R J H token n t_exp t_save (si_email identity) (account_value (si_account_type identity))
      (si_database_id identity) (ps_otp s, r) = (Inr ch, o1, r)" "ch_id ch = token"
  shows "si_account_type identity \<in> {FARM_OWNER, COMPANY_EMPLOYEE}"
    and "\<exists>started. start_reset R J H pg decoy token n t_exp t_save request (s, r) = (Inr started, s\<lparr>ps_otp := o1\<rparr>, r) \<and>
      sr_challenge_id started = token"
proof -
  have "identity \<in> set (filter (\<lambda>i. si_account_type i \<in> {FARM_OWNER, COMPANY_EMPLOYEE})
        (found_identities pg (py_lower (py_strip (rs_email request))) (rs_account_type request)))"
    unfolding assms(3) by simp
  then show "si_account_type identity \<in> {FARM_OWNER, COMPANY_EMPLOYEE}" by simp
  show "\<exists>started. start_reset R J H pg decoy token n t_exp t_save request (s, r) = (Inr started, s\<lparr>ps_otp := o1\<rparr>, r) \<and>
      sr_challenge_id started = token"
    using assms(3-6) find_by_email_working [OF assms(1,2)] by (simp add: start_reset_def Let_def with_otp_def)
qed

lemma confirm_accepted:
  assumes "ps_in_memory s" "ps_http s \<noteq> ClosedClient" "used_view t3 s (rg_jti g) = None"
    and "check_confirm W (ps_settings s) t1 request = Inr g"
    and "post (spring_reset_request (ps_settings s) (account_value (rg_account g)) (rg_id g) (rc_new_password request)) r
      = (Status 200, r')"
  shows "\<exists>message s3. confirm_reset R J W post (t1, t2, t3) request (s, r) = (Inr message, s3, r')"
  using assms(2,3,5)
  by (simp add: confirm_reset_memory [OF assms(1,4)] Let_def call_spring_internal_reset_def spring_result_def)

text \<open>C9: The flow works end to end over the in-process stores, on a working database and with the OTP
  service configured. For an email with exactly one farm-owner or company-employee account, whose
  generic response validates (its masked form is short enough), the start stores a challenge; the
  code sent to the mailbox, presented with any spelling of the account's email before the expiry
  and not before the save, yields a reset token. When the JWT library decodes that token to the
  claims it was minted from, its identifier has not been used and ms-spring-api answers 200 to the
  update, confirming with the token and an acceptable password succeeds and sends to ms-spring-api
  exactly one request, carrying that account's type and id and the new password.\<close>

theorem reset_flow:
  assumes db: "db_pool (ps_db s)" "pg_statement pg = Inr ()"
      "filter (\<lambda>i. si_account_type i \<in> {FARM_OWNER, COMPANY_EMPLOYEE})
        (found_identities pg (py_lower (py_strip (rs_email request))) (rs_account_type request)) = [identity]"
    and otp: "otp_in_memory (ps_otp s)" "require_ready (ps_otp s) = Inr ()" "ascii_hash H"
      "0 < ouros_email_otp_max_attempts (otp_settings (ps_otp s))"
    and code_times: "t_save \<le> t_code"
      "py_int t_code < py_int t_exp + ouros_email_otp_ttl_seconds (otp_settings (ps_otp s))"
    and em: "py_lower (py_strip em') = py_lower (py_strip (si_email identity))"
    and service: "ps_in_memory s" "ps_http s \<noteq> ClosedClient" "used_view t3 s jti = None"
    and jwt: "jw_decode W (mint_reset_token W (ps_settings s) (py_lower (py_strip (si_email identity)))
          (account_value (si_account_type identity)) (si_database_id identity) jti t_mint)
        (get_reset_jwt_secret (ps_settings s)) required_reset_claims t1 =
      Some (reset_claims (ps_settings s) (py_lower (py_strip (si_email identity)))
          (account_value (si_account_type identity)) (si_database_id identity) jti t_mint)"
    and response: "mk_reset_start_response decoy (mask_email (py_lower (py_strip (rs_email request))))
        (ouros_email_otp_ttl_seconds (ps_settings s)) = Inr generic"
      "\<And>claims key. jw_encode W claims key \<noteq> []" "0 < password_reset_token_ttl_seconds (ps_settings s)"
    and password: "re_fullmatch CREDENTIAL_COMPLEXITY_PATTERN password"
    and spring: "post (spring_reset_request (ps_settings s) (account_value (si_account_type identity))
         (si_database_id identity) password) r = (Status 200, r')"
  shows "\<exists>started s1 verified s2 message s3.
    start_reset R J H pg decoy token n t_exp t_save request (s, r) = (Inr started, s1, r) \<and>
    verify_code R J H W repr jti t_code t_mint
      \<lparr>rv_challenge_id = sr_challenge_id started, rv_email = em', rv_code = otp_code n\<rparr> (s1, r) = (Inr verified, s2, r) \<and>
    confirm_reset R J W post (t1, t2, t3)
      \<lparr>rc_reset_token = vr_reset_token verified, rc_new_password = password\<rparr> (s2, r) = (Inr message, s3, r')"
proof -
  let ?em = "py_lower (py_strip (si_email identity))" and ?a = "account_value (si_account_type identity)"
    and ?i = "si_database_id identity"
  obtain key where key: "ouros_email_otp_hmac_secret (otp_settings (ps_otp s)) = Some key"
    using require_ready_secret [OF otp(2)] by blast
  let ?e = "py_int t_exp + ouros_email_otp_ttl_seconds (otp_settings (ps_otp s))"
  let ?rec = "reset_record ?em ?a ?i (H key (token @ '':'' @ otp_code n)) ?e"
  obtain ch o1 where start: "start_password_reset R J H token n t_exp t_save (si_email identity) ?a ?i (ps_otp s, r)
      = (Inr ch, o1, r)" "ch_id ch = token" "otp_settings o1 = otp_settings (ps_otp s)"
      "otp_memory o1 = otp_memory (otp_put t_save (reset_key token) ?rec (ps_otp s))"
    using start_password_reset_memory [OF otp(1,2) key, of R J H token n t_exp t_save "si_email identity" ?a ?i r]
    by blast
  define s1 where "s1 = s\<lparr>ps_otp := o1\<rparr>"
  note one = start_reset_one [OF db response(1) start(1,2), folded s1_def]
  have o1: "otp_in_memory o1" "require_ready o1 = Inr ()"
    using otp(1,2) start(3,4) challenges.invar_put [OF otp_in_memoryD [OF otp(1)], of t_save "reset_key token" ?rec]
      require_ready_cong [OF start(3)]
    by (simp_all add: otp_in_memory_def otp_invar_def)
  have "otp_view t_code o1 (reset_key token) = otp_view t_code (otp_put t_save (reset_key token) ?rec (ps_otp s)) (reset_key token)"
    by (simp add: otp_view_def start(4))
  also have "\<dots> = Some ?rec"
    using code_times(2) by (intro challenges.view_put_same [OF otp_in_memoryD [OF otp(1)] code_times(1)])
      (simp add: live_typed [OF typed_reset_record])
  finally obtain o2 where verify: "verify_password_reset R J H t_code token em' (otp_code n) (o1, r) =
      (Inr (PDict ?rec), o2, r)"
    using verify_password_reset_correct [OF o1 _ otp(3)] key start(3) otp(4) em by metis
  define s2 where "s2 = s\<lparr>ps_otp := o2\<rparr>"
  let ?token = "mint_reset_token W (ps_settings s) ?em ?a ?i jti t_mint"
  have two: "verify_code R J H W repr jti t_code t_mint
      \<lparr>rv_challenge_id = token, rv_email = em', rv_code = otp_code n\<rparr> (s1, r) =
      (Inr \<lparr>vr_reset_token = ?token, vr_expires_in = password_reset_token_ttl_seconds (ps_settings s)\<rparr>, s2, r)"
    using verify response(2,3)
    by (simp add: verify_code_def with_otp_def s1_def s2_def py_index_def)
      (simp add: reset_record_def mk_reset_verify_response_def mint_reset_token_def)
  have s2: "ps_in_memory s2" "ps_settings s2 = ps_settings s" "ps_http s2 = ps_http s" "used_view t3 s2 jti = None"
    using service(1,3) by (simp_all add: s2_def)
  have g: "check_confirm W (ps_settings s2) t1 \<lparr>rc_reset_token = ?token, rc_new_password = password\<rparr> =
      Inr \<lparr>rg_jti = jti, rg_account = si_account_type identity, rg_id = ?i,
        rg_exp = py_int t_mint + password_reset_token_ttl_seconds (ps_settings s)\<rparr>"
    unfolding s2(2) by (rule check_confirm_minted [OF jwt one(1) password])
  have "\<exists>message s3. confirm_reset R J W post (t1, t2, t3)
      \<lparr>rc_reset_token = ?token, rc_new_password = password\<rparr> (s2, r) =
      (Inr message, s3, r')"
    using confirm_accepted [OF s2(1) _ _ g, where post = post and r = r and r' = r'] spring s2 service(2) by simp
  with one(2) two show ?thesis by fastforce
qed

definition flow_service :: reset_service where
  "flow_service = init_reset_service example_settings \<lparr>db_settings = default_settings, db_pool = True\<rparr>
     (init_otp example_settings) NoClient"

definition flow_claims :: pydict where
  "flow_claims = reset_claims example_settings ''ana@farm.br'' ''farm_owner'' 7 ''j1'' 120"

definition flow_jwt :: jwt where
  "flow_jwt = \<lparr>jw_encode = (\<lambda>_ _. ''tok''), jw_decode = (\<lambda>_ _ _ _. Some flow_claims)\<rparr>"

theorem reset_flow_witness:
  "\<exists>started s1 verified s2 message s3.
    start_reset example_redis example_codec example_hash example_postgres (replicate 43 (CHR ''d'')) ''token'' 42 100 100
      \<lparr>rs_email = ''ana@farm.br'', rs_account_type = Some FARM_OWNER\<rparr> (flow_service, []) = (Inr started, s1, []) \<and>
    verify_code example_redis example_codec example_hash flow_jwt (\<lambda>_. []) ''j1'' 110 120
      \<lparr>rv_challenge_id = sr_challenge_id started, rv_email = ''ANA@farm.br'', rv_code = otp_code 42\<rparr> (s1, []) =
      (Inr verified, s2, []) \<and>
    confirm_reset example_redis example_codec flow_jwt (\<lambda>_ r. (Status 200, r)) (130, 130, 130)
      \<lparr>rc_reset_token = vr_reset_token verified, rc_new_password = ''Abcdef1!''\<rparr> (s2, []) = (Inr message, s3, [])"
proof -
  let ?i = "row_identity (select_farm_owner (hd (farm_owners example_tables)))"
  have found: "filter (\<lambda>i. si_account_type i \<in> {FARM_OWNER, COMPANY_EMPLOYEE})
      (found_identities example_postgres (py_lower (py_strip ''ana@farm.br'')) (Some FARM_OWNER)) = [?i]"
    by code_simp
  have fields: "si_account_type ?i = FARM_OWNER" "si_database_id ?i = 7" "py_lower (py_strip (si_email ?i)) = ''ana@farm.br''"
    by code_simp+
  have strs: "py_lower (py_strip ''ANA@farm.br'') = ''ana@farm.br''"
    "re_fullmatch CREDENTIAL_COMPLEXITY_PATTERN ''Abcdef1!''" by code_simp+
  have cfg: "ps_settings flow_service = example_settings" "ps_http flow_service = NoClient"
      "ps_otp flow_service = init_otp example_settings" "db_pool (ps_db flow_service)"
      "used_view t flow_service k = None" "ps_in_memory flow_service" for t k
    by (simp_all add: flow_service_def init_reset_service_def used_view_def ps_in_memory_def used_invar_def
        example_settings_def default_settings_def)
  have response: "mk_reset_start_response (replicate 43 (CHR ''d'')) (mask_email ''ana@farm.br'')
      (ouros_email_otp_ttl_seconds example_settings) = Inr \<lparr>sr_challenge_id = replicate 43 (CHR ''d''),
        sr_masked_email = ''a***@farm.br'', sr_expires_in = 300\<rparr>" by code_simp
  have ttl: "0 < password_reset_token_ttl_seconds example_settings"
    by (simp add: example_settings_def default_settings_def)
  have norm: "py_lower (py_strip ''ana@farm.br'') = ''ana@farm.br''" by code_simp
  let ?post = "\<lambda>(_ :: spring_request) r. (Status 200, r)"
  have "\<exists>started s1 verified s2 message s3.
    start_reset example_redis example_codec example_hash example_postgres (replicate 43 (CHR ''d'')) ''token'' 42 100 100
      \<lparr>rs_email = ''ana@farm.br'', rs_account_type = Some FARM_OWNER\<rparr> (flow_service, []) = (Inr started, s1, []) \<and>
    verify_code example_redis example_codec example_hash flow_jwt (\<lambda>_. []) ''j1'' 110 120
      \<lparr>rv_challenge_id = sr_challenge_id started, rv_email = ''ANA@farm.br'', rv_code = otp_code 42\<rparr> (s1, []) =
      (Inr verified, s2, []) \<and>
    confirm_reset example_redis example_codec flow_jwt ?post (130, 130, 130)
      \<lparr>rc_reset_token = vr_reset_token verified, rc_new_password = ''Abcdef1!''\<rparr> (s2, []) =
      (Inr message, s3, [])"
    by (rule reset_flow [where identity = ?i and post = ?post])
      (use found in \<open>simp_all add: fields strs cfg flow_jwt_def flow_claims_def norm response ttl\<close>)
  then show ?thesis by simp
qed

end
