(* ===== verification/EmailMessage.thy ===== *)
theory EmailMessage
  imports Config
begin

text \<open>
  The message of \<open>EmailOtpService._build_email_message\<close>: the texts of the two purposes and the
  HTML template, line by line. The \<open>From\<close> header is the pair given to \<open>formataddr\<close>; encoding the
  message and reading the bytes of the logo file belong to the library.
\<close>

datatype purpose = LoginCode | PasswordResetCode

record message_texts =
  br_subject :: string
  br_badge :: string
  br_title :: string
  br_desc :: string
  br_code_label :: string
  br_footer_brand :: string
  br_note :: string
  br_text_body :: string

fun texts :: "purpose \<Rightarrow> string \<Rightarrow> string \<Rightarrow> message_texts" where
  "texts PasswordResetCode code minutes =
     \<lparr>br_subject = code @ '' '' @ [CHR 0xE9] @ '' seu c'' @ [CHR 0xF3] @ ''digo de recupera'' @ [CHR 0xE7, CHR 0xE3]
          @ ''o de senha Ouros'',
        br_badge = ''Recupera'' @ [CHR 0xE7, CHR 0xE3] @ ''o de Senha'',
        br_title = ''Redefina sua senha'',
        br_desc = ''Recebemos uma solicita'' @ [CHR 0xE7, CHR 0xE3]
          @ ''o para redefinir a senha da sua conta Ouros. Use o c'' @ [CHR 0xF3] @ ''digo de 6 d'' @ [CHR 0xED]
          @ ''gitos abaixo para continuar.'',
        br_code_label = ''C'' @ [CHR 0xF3] @ ''digo de verifica'' @ [CHR 0xE7, CHR 0xE3] @ ''o'',
        br_footer_brand = ''Ouros &bull; seguran'' @ [CHR 0xE7] @ ''a de acesso'',
        br_note = ''Nunca compartilhe este c'' @ [CHR 0xF3] @ ''digo. Se voc'' @ [CHR 0xEA] @ '' n'' @ [CHR 0xE3]
          @ ''o solicitou a redefini'' @ [CHR 0xE7, CHR 0xE3]
          @ ''o de senha da sua conta Ouros, pode ignorar esta mensagem com total seguran'' @ [CHR 0xE7]
          @ ''a. Sua senha atual permanecer'' @ [CHR 0xE1] @ '' inalterada.'',
        br_text_body = ''Seu c'' @ [CHR 0xF3] @ ''digo para recupera'' @ [CHR 0xE7, CHR 0xE3] @ ''o de senha no Ouros ''
          @ [CHR 0xE9] @ '':'' @ [CHR 0x0A, CHR 0x0A] @ code @ [CHR 0x0A, CHR 0x0A] @ ''Ele expira em '' @ minutes
          @ '' minuto(s).'' @ [CHR 0x0A, CHR 0x0A] @ ''Nunca compartilhe este c'' @ [CHR 0xF3] @ ''digo. Se voc''
          @ [CHR 0xEA] @ '' n'' @ [CHR 0xE3] @ ''o solicitou a redefini'' @ [CHR 0xE7, CHR 0xE3]
          @ ''o de senha da sua conta Ouros, desconsidere este e-mail. Sua senha atual permanecer'' @ [CHR 0xE1]
          @ '' inalterada.''\<rparr>"
| "texts LoginCode code minutes =
     \<lparr>br_subject = code @ '' '' @ [CHR 0xE9] @ '' seu c'' @ [CHR 0xF3] @ ''digo de acesso Ouros'',
        br_badge = ''Seguran'' @ [CHR 0xE7] @ ''a de acesso'',
        br_title = ''Confirme que '' @ [CHR 0xE9] @ '' voc'' @ [CHR 0xEA],
        br_desc = ''Use o c'' @ [CHR 0xF3] @ ''digo abaixo para concluir seu acesso ao Ouros.'',
        br_code_label = ''Seu c'' @ [CHR 0xF3] @ ''digo'',
        br_footer_brand = ''Ouros &bull; acesso protegido'',
        br_note = ''Nunca compartilhe este c'' @ [CHR 0xF3] @ ''digo. Se voc'' @ [CHR 0xEA] @ '' n'' @ [CHR 0xE3]
          @ ''o tentou entrar no Ouros, pode ignorar esta mensagem com seguran'' @ [CHR 0xE7] @ ''a.'',
        br_text_body = ''Seu c'' @ [CHR 0xF3] @ ''digo de acesso Ouros '' @ [CHR 0xE9] @ '':'' @ [CHR 0x0A, CHR 0x0A] @ code
          @ [CHR 0x0A, CHR 0x0A] @ ''Ele expira em '' @ minutes @ '' minuto(s).'' @ [CHR 0x0A]
          @ ''Nunca compartilhe este c'' @ [CHR 0xF3] @ ''digo. Se voc'' @ [CHR 0xEA] @ '' n'' @ [CHR 0xE3]
          @ ''o tentou entrar, ignore esta mensagem.''\<rparr>"

text \<open>\<open>s.split(sep)[-1]\<close> for a separator that does not overlap itself.\<close>

fun after_last :: "string \<Rightarrow> string \<Rightarrow> string option" where
  "after_last sep [] = None"
| "after_last sep (c # cs) =
     (case after_last sep cs of
        Some rest \<Rightarrow> Some rest
      | None \<Rightarrow> if starts_with sep (c # cs) then Some (drop (length sep) (c # cs)) else None)"

definition last_piece :: "string \<Rightarrow> string \<Rightarrow> string" where
  "last_piece sep s = (case after_last sep s of None \<Rightarrow> s | Some rest \<Rightarrow> rest)"

fun join_lines :: "string list \<Rightarrow> string" where
  "join_lines [] = []"
| "join_lines [l] = l"
| "join_lines (l # ls) = l @ CHR 0x0A # join_lines ls"

definition html_body :: "message_texts \<Rightarrow> string \<Rightarrow> string \<Rightarrow> string" where
  "html_body b code minutes = join_lines
    [''<!doctype html>'',
     ''<html lang=\"pt-BR\">'',
     ''  <body style=\"margin:0;padding:0;background:#010B13;\">'',
     ''    <div style=\"display:none;max-height:0;overflow:hidden;opacity:0;\">'',
     ''      Seu c'' @ [CHR 0xF3] @ ''digo Ouros '' @ [CHR 0xE9] @ '' '' @ code @ ''. Ele expira em '' @ minutes
       @ '' minuto(s).'',
     ''    </div>'',
     [],
     ''    <table role=\"presentation\" width=\"100%\" cellspacing=\"0\" cellpadding=\"0\"'',
     ''      border=\"0\" style=\"width:100%;background:#010B13;margin:0;padding:0;\">'',
     ''      <tr>'',
     ''        <td align=\"center\" style=\"padding:40px 16px;\">'',
     ''          <table role=\"presentation\" width=\"100%\" cellspacing=\"0\" cellpadding=\"0\"'',
     ''            border=\"0\"'',
     ''            style=\"width:100%;max-width:600px;border-collapse:separate;\">'',
     ''            <tr>'',
     ''              <td align=\"center\" style=\"padding:0 0 28px 0;\">'',
     ''                <img src=\"cid:ouros-logo\" alt=\"Ouros\" width=\"220\"'',
     ''                  style=\"display:block;width:220px;max-width:80%;height:auto;border:0;\">'',
     ''              </td>'',
     ''            </tr>'',
     [],
     ''            <tr>'',
     ''              <td style=\"background:#F2F5F7;border-radius:24px;overflow:hidden;\">'',
     ''                <div style=\"height:6px;line-height:6px;background:#D8A23A;\">&nbsp;</div>'',
     [],
     ''                <table role=\"presentation\" width=\"100%\" cellspacing=\"0\"'',
     ''                  cellpadding=\"0\" border=\"0\" style=\"width:100%;\">'',
     ''                  <tr>'',
     ''                    <td style=\"padding:44px 44px 18px 44px;\">'',
     ''                      <div style=\"'',
     ''                        display:inline-block;'',
     ''                        font-family:Poppins,Arial,sans-serif;'',
     ''                        font-size:12px;'',
     ''                        font-weight:600;'',
     ''                        letter-spacing:1.4px;'',
     ''                        text-transform:uppercase;'',
     ''                        color:#171438;'',
     ''                        background:#E9E6F2;'',
     ''                        border-radius:999px;'',
     ''                        padding:8px 12px;\">'',
     ''                        '' @ br_badge b,
     ''                      </div>'',
     [],
     ''                      <h1 style=\"'',
     ''                        margin:22px 0 12px 0;'',
     ''                        font-family:Poppins,Arial,sans-serif;'',
     ''                        font-size:30px;'',
     ''                        line-height:1.12;'',
     ''                        letter-spacing:-1.2px;'',
     ''                        font-weight:700;'',
     ''                        color:#010B13;\">'',
     ''                        '' @ br_title b,
     ''                      </h1>'',
     [],
     ''                      <p style=\"'',
     ''                        margin:0;'',
     ''                        font-family:Poppins,Arial,sans-serif;'',
     ''                        font-size:16px;'',
     ''                        line-height:1.65;'',
     ''                        color:#4B4A58;\">'',
     ''                        '' @ br_desc b,
     ''                      </p>'',
     ''                    </td>'',
     ''                  </tr>'',
     [],
     ''                  <tr>'',
     ''                    <td style=\"padding:12px 44px 18px 44px;\">'',
     ''                      <table role=\"presentation\" width=\"100%\" cellspacing=\"0\"'',
     ''                        cellpadding=\"0\" border=\"0\"'',
     ''                        style=\"width:100%;background:#171438;border-radius:18px;\">'',
     ''                        <tr>'',
     ''                          <td align=\"center\" style=\"padding:28px 18px 24px 18px;\">'',
     ''                            <div style=\"'',
     ''                              font-family:Poppins,Arial,sans-serif;'',
     ''                              font-size:12px;'',
     ''                              line-height:1;'',
     ''                              font-weight:600;'',
     ''                              letter-spacing:1.8px;'',
     ''                              text-transform:uppercase;'',
     ''                              color:#D8A23A;'',
     ''                              margin-bottom:14px;\">'',
     ''                              '' @ br_code_label b,
     ''                            </div>'',
     [],
     ''                            <div style=\"'',
     ''                              font-family:'Courier New',Courier,monospace;'',
     ''                              font-size:40px;'',
     ''                              line-height:1;'',
     ''                              font-weight:700;'',
     ''                              letter-spacing:10px;'',
     ''                              color:#F2F5F7;'',
     ''                              white-space:nowrap;\">'',
     ''                              '' @ code,
     ''                            </div>'',
     ''                          </td>'',
     ''                        </tr>'',
     ''                      </table>'',
     ''                    </td>'',
     ''                  </tr>'',
     [],
     ''                  <tr>'',
     ''                    <td style=\"padding:4px 44px 42px 44px;\">'',
     ''                      <p style=\"'',
     ''                        margin:0 0 18px 0;'',
     ''                        font-family:Poppins,Arial,sans-serif;'',
     ''                        font-size:14px;'',
     ''                        line-height:1.6;'',
     ''                        color:#656372;\">'',
     ''                        Este c'' @ [CHR 0xF3] @ ''digo expira em'',
     ''                        <strong style=\"color:#010B13;\">'' @ minutes @ '' minuto(s)</strong>.'',
     ''                      </p>'',
     [],
     ''                      <table role=\"presentation\" width=\"100%\" cellspacing=\"0\"'',
     ''                        cellpadding=\"0\" border=\"0\"'',
     ''                        style=\"width:100%;border-top:1px solid #D9DCE0;\">'',
     ''                        <tr>'',
     ''                          <td style=\"padding-top:20px;\">'',
     ''                            <p style=\"'',
     ''                              margin:0;'',
     ''                              font-family:Poppins,Arial,sans-serif;'',
     ''                              font-size:12px;'',
     ''                              line-height:1.6;'',
     ''                              color:#777582;\">'',
     ''                              '' @ br_note b,
     ''                            </p>'',
     ''                          </td>'',
     ''                        </tr>'',
     ''                      </table>'',
     ''                    </td>'',
     ''                  </tr>'',
     ''                </table>'',
     ''              </td>'',
     ''            </tr>'',
     [],
     ''            <tr>'',
     ''              <td align=\"center\" style=\"padding:24px 20px 0 20px;\">'',
     ''                <p style=\"'',
     ''                  margin:0;'',
     ''                  font-family:Poppins,Arial,sans-serif;'',
     ''                  font-size:12px;'',
     ''                  line-height:1.6;'',
     ''                  letter-spacing:.2px;'',
     ''                  color:#9B99AA;\">'',
     ''                  Ouros &bull; '' @ last_piece ''&bull; '' (br_footer_brand b),
     ''                </p>'',
     ''              </td>'',
     ''            </tr>'',
     ''          </table>'',
     ''        </td>'',
     ''      </tr>'',
     ''    </table>'',
     ''  </body>'',
     ''</html>'']"

record mail =
  ml_subject :: string
  ml_from :: "string \<times> string"
  ml_to :: string
  ml_text :: string
  ml_html :: string
  ml_logo_cid :: string

definition ttl_minutes :: "settings \<Rightarrow> int" where
  "ttl_minutes cfg = max (ouros_email_otp_ttl_seconds cfg div 60) 1"

definition build_email_message :: "settings \<Rightarrow> string \<Rightarrow> string \<Rightarrow> purpose \<Rightarrow> mail" where
  "build_email_message cfg recipient code purpose =
    (let minutes = decimal (nat (ttl_minutes cfg));
         b = texts purpose code minutes
     in \<lparr>ml_subject = br_subject b,
         ml_from = (ouros_smtp_from_display_name cfg, ouros_smtp_from cfg),
         ml_to = recipient, ml_text = br_text_body b, ml_html = html_body b code minutes,
         ml_logo_cid = ''<ouros-logo>''\<rparr>)"

text \<open>The recipient is in the header alone: the rest of the message is a function of purpose, code and settings.\<close>

lemma message_recipient:
  "build_email_message cfg other code purpose = (build_email_message cfg recipient code purpose)\<lparr>ml_to := other\<rparr>"
  by (simp add: build_email_message_def Let_def)

lemma footer:
  "last_piece ''&bull; '' (br_footer_brand (texts LoginCode code minutes)) = ''acesso protegido''"
  "last_piece ''&bull; '' (br_footer_brand (texts PasswordResetCode code minutes))
     = ''seguran'' @ [CHR 0xE7] @ ''a de acesso''"
  by (simp_all add: last_piece_def)

end
