(* ===== verification/Smtp.thy ===== *)
theory Smtp
  imports OtpLogin EmailMessage
begin

text \<open>
  Sending the code, from \<open>app/services/email_otp.py\<close>: the dialogue with the mail server. The
  server is a parameter, the reply to each command; the state of a dialogue is the list of
  commands issued so far.
\<close>

section \<open>The dialogue\<close>

datatype smtp_command =
    Connect bool string int
  | Ehlo
  | Starttls
  | Login string string
  | Send_message mail
  | Quit

type_synonym dialogue = "smtp_command list"

definition smtp_do :: "(smtp_command \<Rightarrow> exn + unit) \<Rightarrow> smtp_command \<Rightarrow> dialogue \<Rightarrow> (exn, dialogue, unit) outcome" where
  "smtp_do reply c d = (reply c, d @ [c])"

definition smtp_tls :: "settings \<Rightarrow> (smtp_command \<Rightarrow> exn + unit) \<Rightarrow> dialogue \<Rightarrow> (exn, dialogue, unit) outcome" where
  "smtp_tls cfg reply d =
    (if ouros_smtp_ssl cfg then (Inr (), d)
     else and_then (smtp_do reply Ehlo d) (\<lambda>_ d.
       if ouros_smtp_starttls cfg then
         and_then (smtp_do reply Starttls d) (\<lambda>_ d. smtp_do reply Ehlo d)
       else (Inr (), d)))"

definition smtp_auth :: "settings \<Rightarrow> (smtp_command \<Rightarrow> exn + unit) \<Rightarrow> dialogue \<Rightarrow> (exn, dialogue, unit) outcome" where
  "smtp_auth cfg reply d =
    (if \<not> ouros_smtp_auth cfg then (Inr (), d)
     else (case (ouros_smtp_user cfg, ouros_smtp_password cfg) of
             (Some user, Some password) \<Rightarrow>
               if user = [] then (Inl (EmailOtpUnavailable ''SMTP credentials are not configured''), d)
               else smtp_do reply (Login user password) d
           | _ \<Rightarrow> (Inl (EmailOtpUnavailable ''SMTP credentials are not configured''), d)))"

text \<open>
  \<open>_dispatch_email\<close>: leaving the \<open>with\<close> block sends \<open>QUIT\<close>, whose failure replaces the outcome.
\<close>

definition dispatch_email ::
  "settings \<Rightarrow> (smtp_command \<Rightarrow> exn + unit) \<Rightarrow> mail \<Rightarrow> (exn, dialogue, unit) outcome" where
  "dispatch_email cfg reply message =
    (if str_falsy (ouros_smtp_host cfg) then (Inl (EmailOtpUnavailable ''SMTP host is not configured''), [])
     else and_then
       (smtp_do reply (Connect (ouros_smtp_ssl cfg) (the (ouros_smtp_host cfg)) (ouros_smtp_port cfg)) [])
       (\<lambda>_ d.
         case and_then (smtp_tls cfg reply d) (\<lambda>_ d.
                and_then (smtp_auth cfg reply d) (\<lambda>_ d. smtp_do reply (Send_message message) d)) of
           (res, d1) \<Rightarrow>
             (case smtp_do reply Quit d1 of (Inl e, d2) \<Rightarrow> (Inl e, d2) | (Inr _, d2) \<Rightarrow> (res, d2))))"

text \<open>The two senders, as the functions the OTP service is given.\<close>

definition send_email :: "settings \<Rightarrow> (smtp_command \<Rightarrow> exn + unit) \<Rightarrow> string \<Rightarrow> string \<Rightarrow> exn + unit" where
  "send_email cfg reply recipient code = fst (dispatch_email cfg reply (build_email_message cfg recipient code LoginCode))"

definition send_password_reset_email ::
  "settings \<Rightarrow> (smtp_command \<Rightarrow> exn + unit) \<Rightarrow> string \<Rightarrow> string \<Rightarrow> exn + unit" where
  "send_password_reset_email cfg reply recipient code =
     fst (dispatch_email cfg reply (build_email_message cfg recipient code PasswordResetCode))"

section \<open>Properties\<close>

definition secret_command :: "smtp_command \<Rightarrow> bool" where
  "secret_command c \<longleftrightarrow> (\<exists>u p. c = Login u p) \<or> (\<exists>m. c = Send_message m)"

text \<open>A dialogue is protected when every secret command comes after a secured connection.\<close>

fun protected_from :: "(smtp_command \<Rightarrow> exn + unit) \<Rightarrow> bool \<Rightarrow> dialogue \<Rightarrow> bool" where
  "protected_from reply secured [] = True"
| "protected_from reply secured (c # cs) =
     ((secret_command c \<longrightarrow> secured) \<and>
      protected_from reply
        (secured \<or> reply c = Inr () \<and> (c = Starttls \<or> (\<exists>h p. c = Connect True h p))) cs)"

text \<open>C32: With STARTTLS or implicit TLS configured, and whatever the mail server replies, neither
  the SMTP password nor the message with the code is sent before the connection was secured:
  every login and every message of the dialogue comes after an implicit-TLS connection or an
  accepted STARTTLS. A refused STARTTLS ends the dialogue with an error and no secret sent.\<close>

theorem smtp_secrets_after_tls:
  assumes "ouros_smtp_starttls cfg \<or> ouros_smtp_ssl cfg"
  shows "protected_from reply False (snd (dispatch_email cfg reply message)) \<and>
    (\<not> ouros_smtp_ssl cfg \<longrightarrow> reply Starttls \<noteq> Inr () \<longrightarrow>
      fst (dispatch_email cfg reply message) \<noteq> Inr () \<and>
      filter secret_command (snd (dispatch_email cfg reply message)) = [])"
proof -
  have unit: "x = Inr ()" if "x = Inr u" for x :: "exn + unit" and u using that by simp
  show ?thesis
  proof (cases "ouros_smtp_ssl cfg")
    case True
    then show ?thesis
      by (auto simp: dispatch_email_def smtp_tls_def smtp_auth_def smtp_do_def and_then_def secret_command_def
          split: sum.splits option.splits)
  next
    case False
    with assms have "ouros_smtp_starttls cfg" by simp
    with False show ?thesis
      by (auto simp: dispatch_email_def smtp_tls_def smtp_auth_def smtp_do_def and_then_def secret_command_def
          split: sum.splits option.splits)
  qed
qed

theorem smtp_secrets_after_tls_witness:
  "protected_from (\<lambda>_. Inr ()) False (snd (dispatch_email example_settings (\<lambda>_. Inr ())
     (build_email_message example_settings ''a@b.c'' ''000042'' LoginCode)))"
  by (rule conjunct1 [OF smtp_secrets_after_tls]) (simp add: example_settings_def default_settings_def)

text \<open>The code mailed is one the verification request accepts and its spelling is unique: the
  codes of the million numbers drawn have six digits, match the request's pattern, and read
  back as the number, so different numbers have different codes.\<close>

lemma otp_code_format:
  assumes "n < 1000000"
  shows "length (otp_code n) = 6 \<and> re_fullmatch CODE_PATTERN (otp_code n) \<and> py_int_of_digits (otp_code n) = n"
proof -
  have len: "length (decimal n) \<le> 6" using length_decimal [of n 5] assms by simp
  then have "length (otp_code n) = 6" by (simp add: otp_code_def zero_pad_def)
  moreover have "list_all is_digit (otp_code n)"
    using decimal_digits [of n] by (auto simp: otp_code_def zero_pad_def list_all_iff is_digit_def)
  moreover have "py_int_of_digits (otp_code n) = n"
    by (simp add: py_int_of_digits_def otp_code_def zero_pad_def digits_value_zeros digits_value_decimal)
  ultimately show ?thesis by (simp add: code_pattern_iff)
qed

end
