(* ===== verification/TokenBroker.thy ===== *)
theory TokenBroker
  imports Config Schemas
begin

text \<open>
  \<open>app/services/keycloak_token_broker.py\<close>: the checks on a token Keycloak issued, the exchange
  of one OAuth grant, and the two operations over it. Parameters: \<open>decode\<close>, the signature, issuer
  and lifetime check of the JWT library with the keys of a JWKS URL, or the exception it raised;
  the coercion of an integer field of a response model, and the token endpoint \<open>kc\<close> on the outside
  world.
\<close>

section \<open>Claims\<close>

definition VALID_ACCOUNT_TYPES :: "string list" where
  "VALID_ACCOUNT_TYPES = [''farm_owner'', ''company_employee'', ''admin'']"

definition INVALID_DATABASE_ID_DETAIL :: string where
  "INVALID_DATABASE_ID_DETAIL = ''invalid database_id claim''"

definition REQUIRED_FIRST_PARTY_AUDIENCES :: "string list" where
  "REQUIRED_FIRST_PARTY_AUDIENCES =
    [''ms-spring-api'', ''ms-telemetry-dashboard-service'', ''ms-ai-server'', ''ms-ai-server-mcp-exchange'',
     ''ms-mcp-server-ouros-knowledge-codemode'', ''ms-ouros-audience-engine'']"

definition audience_set :: "pyval \<Rightarrow> string set" where
  "audience_set value =
    (case value of
       PStr s \<Rightarrow> {s}
     | PList vs \<Rightarrow> if list_all (\<lambda>v. as_str v \<noteq> None) vs then set (List.map_filter as_str vs) else {}
     | _ \<Rightarrow> {})"

text \<open>\<open>int(value)\<close> of a decimal string raises \<open>ValueError\<close> beyond 4300 digits.\<close>

definition positive_database_id :: "pyval \<Rightarrow> exn + int" where
  "positive_database_id value =
    (let invalid = Inl (KeycloakTokenBrokerUnavailable INVALID_DATABASE_ID_DETAIL);
         positive = (\<lambda>i. if i \<le> 0 then invalid else Inr i)
     in case value of
          PInt i \<Rightarrow> positive i
        | PStr s \<Rightarrow>
            if is_ascii s \<and> py_isdecimal s then
              (if length s > 4300 then invalid else positive (int (py_int_of_digits s)))
            else invalid
        | _ \<Rightarrow> invalid)"

section \<open>The broker\<close>

record broker =
  kb_issuer :: string
  kb_token_url :: string
  kb_jwks_url :: string
  kb_client_id :: string
  kb_client_secret :: "string option"
  kb_scope :: string

definition init_broker :: "settings \<Rightarrow> broker" where
  "init_broker cfg =
    (let issuer = py_rstrip_char (CHR ''/'') (keycloak_issuer_url cfg)
     in \<lparr>kb_issuer = issuer,
         kb_token_url = issuer @ ''/protocol/openid-connect/token'',
         kb_jwks_url = (if str_falsy (keycloak_token_broker_jwks_url cfg)
            then issuer @ ''/protocol/openid-connect/certs'' else the (keycloak_token_broker_jwks_url cfg)),
         kb_client_id = keycloak_token_broker_client_id cfg,
         kb_client_secret = keycloak_token_broker_client_secret cfg,
         kb_scope = keycloak_token_broker_scope cfg\<rparr>)"

text \<open>JWKS URL, token, issuer; the claims of a token that passed, or what the library raised.\<close>

type_synonym jwks_decode = "string \<Rightarrow> string \<Rightarrow> string \<Rightarrow> jwt_error + pydict"

definition claimed_roles :: "pydict \<Rightarrow> pyval list option" where
  "claimed_roles claims =
    (case dget claims ''realm_access'' of
       PDict realm_access \<Rightarrow> (case dget realm_access ''roles'' of PList roles \<Rightarrow> Some roles | _ \<Rightarrow> None)
     | _ \<Rightarrow> None)"

text \<open>The except clause of the local check names the base classes of these.\<close>

definition local_validation_errors :: "jwt_error list" where
  "local_validation_errors = [InvalidTokenError, PyJWKClientError, PyJWKClientConnectionError, JwtValueError]"

definition validate_access_token_contract :: "jwks_decode \<Rightarrow> broker \<Rightarrow> string \<Rightarrow> exn + pydict" where
  "validate_access_token_contract decode b token =
    (case decode (kb_jwks_url b) token (kb_issuer b) of
       Inl j \<Rightarrow>
         if j \<in> set local_validation_errors then
           Inl (KeycloakTokenBrokerUnavailable ''Keycloak issued an access token that failed local validation'')
         else Inl (JwtError j)
     | Inr claims \<Rightarrow>
         if \<not> set REQUIRED_FIRST_PARTY_AUDIENCES \<subseteq> audience_set (dget claims ''aud'') then
           Inl (KeycloakTokenBrokerUnavailable ''Keycloak access token is missing required Ouros audiences'')
         else if dget claims ''azp'' \<noteq> PStr (kb_client_id b) then
           Inl (KeycloakTokenBrokerUnavailable ''Keycloak access token was not issued to the official broker'')
         else
           (let missing = Inl (KeycloakTokenBrokerUnavailable
                  ''Keycloak access token is missing the signed Ouros account role'')
            in case (as_str (dget claims ''account_type''), claimed_roles claims) of
                 (Some account_type, Some roles) \<Rightarrow>
                   if account_type \<notin> set VALID_ACCOUNT_TYPES \<or> PStr account_type \<notin> set roles then missing
                   else (case positive_database_id (dget claims ''database_id'') of
                           Inl e \<Rightarrow> Inl e
                         | Inr _ \<Rightarrow> Inr claims)
               | _ \<Rightarrow> missing))"

section \<open>The exchange\<close>

text \<open>
  The answer of the token endpoint: an \<open>httpx.HTTPError\<close>, an exception outside that class (such
  as \<open>httpx.InvalidURL\<close>) by its name, or a status and the decoded JSON body, \<open>None\<close> where
  \<open>json()\<close> raises.
\<close>

datatype token_reply = TokenHttpError | TokenRaised string | TokenReply int "pyval option"

definition optional_str :: "pyval \<Rightarrow> string option option" where
  "optional_str v = (case v of PNone \<Rightarrow> Some None | PStr s \<Rightarrow> Some (Some s) | _ \<Rightarrow> None)"

text \<open>\<open>KeycloakTokenResponse.model_validate\<close>; \<open>None\<close>: it raises.\<close>

definition model_validate :: "(pyval \<Rightarrow> int option) \<Rightarrow> pyval \<Rightarrow> keycloak_token_response option" where
  "model_validate as_field_int body =
    (case body of
       PDict d \<Rightarrow>
         (case (as_str (dget d ''access_token''), as_field_int (dget d ''expires_in''),
                optional_str (dget d ''refresh_token''), optional_str (dget d ''scope''),
                if dget d ''refresh_expires_in'' = PNone then Some None
                else map_option Some (as_field_int (dget d ''refresh_expires_in''))) of
            (Some access_token, Some expires_in, Some refresh_token, Some scope, Some refresh_expires_in) \<Rightarrow>
              if access_token \<noteq> [] \<and> 0 < expires_in
                 \<and> (case refresh_expires_in of None \<Rightarrow> True | Some x \<Rightarrow> 0 \<le> x)
                 \<and> dget d ''token_type'' = PStr ''Bearer''
              then Some \<lparr>kt_access_token = access_token, kt_expires_in = expires_in,
                     kt_refresh_expires_in = refresh_expires_in, kt_refresh_token = refresh_token,
                     kt_token_type = ''Bearer'', kt_scope = scope\<rparr>
              else None
          | _ \<Rightarrow> None)
     | _ \<Rightarrow> None)"

type_synonym form = "(string \<times> string) list"

definition exchange_token ::
  "jwks_decode \<Rightarrow> (pyval \<Rightarrow> int option) \<Rightarrow> (string \<Rightarrow> form \<Rightarrow> 'r \<Rightarrow> token_reply \<times> 'r) \<Rightarrow> broker \<Rightarrow> form
    \<Rightarrow> 'r \<Rightarrow> (exn, 'r, keycloak_token_response) outcome" where
  "exchange_token decode as_field_int kc b data r =
    (if kb_client_secret b = None then
       (Inl (KeycloakTokenBrokerUnavailable ''broker client secret is not configured''), r)
     else (case kc (kb_token_url b) data r of
         (TokenHttpError, r1) \<Rightarrow> (Inl (KeycloakTokenBrokerUnavailable ''Keycloak token endpoint unavailable''), r1)
       | (TokenRaised c, r1) \<Rightarrow> (Inl (LibraryError c), r1)
       | (TokenReply code body, r1) \<Rightarrow>
           if code = 400 \<or> code = 401 then (Inl InvalidCredentialsError, r1)
           else if code \<noteq> 200 then
             (Inl (KeycloakTokenBrokerUnavailable ''Keycloak token endpoint rejected request''), r1)
           else (case Option.bind body (model_validate as_field_int) of
                   None \<Rightarrow> (Inl (KeycloakTokenBrokerUnavailable ''invalid Keycloak token response''), r1)
                 | Some token_response \<Rightarrow>
                     (case validate_access_token_contract decode b (kt_access_token token_response) of
                        Inl (JwtError PyJWKClientConnectionError) \<Rightarrow>
                          (Inl (KeycloakTokenBrokerUnavailable ''Keycloak signing keys are unavailable''), r1)
                      | Inl e \<Rightarrow> (Inl e, r1)
                      | Inr _ \<Rightarrow> (Inr token_response, r1)))))"

definition issue_password_token ::
  "jwks_decode \<Rightarrow> (pyval \<Rightarrow> int option) \<Rightarrow> (string \<Rightarrow> form \<Rightarrow> 'r \<Rightarrow> token_reply \<times> 'r) \<Rightarrow> broker
    \<Rightarrow> token_login_request \<Rightarrow> 'r \<Rightarrow> (exn, 'r, keycloak_token_response) outcome" where
  "issue_password_token decode as_field_int kc b credentials r =
    (case kb_client_secret b of
       None \<Rightarrow> (Inl (KeycloakTokenBrokerUnavailable ''broker client secret is not configured''), r)
     | Some secret \<Rightarrow>
         exchange_token decode as_field_int kc b
           [(''grant_type'', ''password''), (''client_id'', kb_client_id b), (''client_secret'', secret),
            (''username'', tl_email credentials), (''password'', tl_password credentials),
            (''scope'', kb_scope b)] r)"

definition refresh_token ::
  "jwks_decode \<Rightarrow> (pyval \<Rightarrow> int option) \<Rightarrow> (string \<Rightarrow> form \<Rightarrow> 'r \<Rightarrow> token_reply \<times> 'r) \<Rightarrow> broker
    \<Rightarrow> token_refresh_request \<Rightarrow> 'r \<Rightarrow> (exn, 'r, keycloak_token_response) outcome" where
  "refresh_token decode as_field_int kc b payload r =
    (case kb_client_secret b of
       None \<Rightarrow> (Inl (KeycloakTokenBrokerUnavailable ''broker client secret is not configured''), r)
     | Some secret \<Rightarrow>
         exchange_token decode as_field_int kc b
           [(''grant_type'', ''refresh_token''), (''client_id'', kb_client_id b), (''client_secret'', secret),
            (''refresh_token'', tr_refresh_token payload)] r)"

section \<open>Properties\<close>

definition contract_holds :: "broker \<Rightarrow> pydict \<Rightarrow> bool" where
  "contract_holds b claims \<longleftrightarrow>
     set REQUIRED_FIRST_PARTY_AUDIENCES \<subseteq> audience_set (dget claims ''aud'') \<and>
     dget claims ''azp'' = PStr (kb_client_id b) \<and>
     (\<exists>account_type roles. dget claims ''account_type'' = PStr account_type \<and>
        claimed_roles claims = Some roles \<and> account_type \<in> set VALID_ACCOUNT_TYPES \<and>
        PStr account_type \<in> set roles) \<and>
     (\<exists>i > 0. dget claims ''database_id'' = PInt i \<or>
        (\<exists>s. dget claims ''database_id'' = PStr s \<and> py_isdecimal s \<and> length s \<le> 4300 \<and> int (py_int_of_digits s) = i))"

lemma isdecimal_ascii: "py_isdecimal s \<Longrightarrow> is_ascii s"
  by (auto simp: py_isdecimal_def is_ascii_def list_all_iff is_digit_def)

lemma positive_database_id_iff:
  "(\<exists>i. positive_database_id v = Inr i) \<longleftrightarrow>
    (\<exists>i > 0. v = PInt i \<or> (\<exists>s. v = PStr s \<and> py_isdecimal s \<and> length s \<le> 4300 \<and> int (py_int_of_digits s) = i))"
  by (cases v) (auto simp: positive_database_id_def Let_def dest: isdecimal_ascii)

lemma contract_decides:
  assumes "decode (kb_jwks_url b) token (kb_issuer b) = Inr claims"
  shows "if contract_holds b claims then validate_access_token_contract decode b token = Inr claims
    else \<exists>m. validate_access_token_contract decode b token = Inl (KeycloakTokenBrokerUnavailable m)"
proof -
  have err: "\<exists>m. e = KeycloakTokenBrokerUnavailable m" if "positive_database_id v = Inl e" for v e
    using that by (cases v) (auto simp: positive_database_id_def Let_def split: if_splits)
  show ?thesis
    using assms positive_database_id_iff [of "dget claims ''database_id''", symmetric]
      err [of "dget claims ''database_id''"]
    by (cases "dget claims ''account_type''"; cases "claimed_roles claims";
        cases "positive_database_id (dget claims ''database_id'')")
      (simp_all add: validate_access_token_contract_def contract_holds_def Let_def)
qed

lemma validate_never_connection_error:
  "validate_access_token_contract decode b token \<noteq> Inl (JwtError PyJWKClientConnectionError)"
  using contract_decides [of decode b token]
  by (cases "decode (kb_jwks_url b) token (kb_issuer b)")
    (auto simp: validate_access_token_contract_def [of decode b token] local_validation_errors_def
      split: if_splits)

text \<open>C13: The local check accepts a token, and answers its claims, exactly when the library verified
  it and its claims carry all six required audiences, the broker as authorised party, an account
  type that is known and among the realm roles, and a positive database id, as an integer or as
  at most 4300 decimal digits. A verified token with other claims is the broker error; so is a
  token the library refused with an invalid-token, JWKS-client or value error. Any other
  exception of the library, such as the one for a key set without a usable key, escapes.\<close>

theorem token_contract_exact:
  "case decode (kb_jwks_url b) token (kb_issuer b) of
     Inr claims \<Rightarrow>
       if contract_holds b claims then validate_access_token_contract decode b token = Inr claims
       else \<exists>m. validate_access_token_contract decode b token = Inl (KeycloakTokenBrokerUnavailable m)
   | Inl j \<Rightarrow>
       if j = InvalidTokenError \<or> j = PyJWKClientError \<or> j = PyJWKClientConnectionError \<or> j = JwtValueError
       then \<exists>m. validate_access_token_contract decode b token = Inl (KeycloakTokenBrokerUnavailable m)
       else validate_access_token_contract decode b token = Inl (JwtError j)"
proof (cases "decode (kb_jwks_url b) token (kb_issuer b)")
  case (Inl j)
  then show ?thesis by (simp add: validate_access_token_contract_def local_validation_errors_def)
next
  case (Inr claims)
  from contract_decides [of decode b token claims, OF Inr] Inr show ?thesis by simp
qed

definition example_access_claims :: pydict where
  "example_access_claims =
    [(''aud'', PList (map PStr REQUIRED_FIRST_PARTY_AUDIENCES)), (''azp'', PStr ''ms-auth-service-broker''),
     (''account_type'', PStr ''farm_owner''), (''realm_access'', PDict [(''roles'', PList [PStr ''farm_owner''])]),
     (''database_id'', PStr ''7'')]"

lemma example_contract_holds: "contract_holds (init_broker default_settings) example_access_claims"
proof -
  have id: "positive_database_id (PStr ''7'') = Inr 7" by code_simp
  show ?thesis
    unfolding contract_holds_def positive_database_id_iff [symmetric]
    by (auto simp: example_access_claims_def dget_def init_broker_def default_settings_def claimed_roles_def
        VALID_ACCOUNT_TYPES_def audience_set_def map_filter_def list_all_iff Let_def id)
qed

theorem token_contract_exact_witness:
  "validate_access_token_contract (\<lambda>_ _ _. Inr example_access_claims) (init_broker default_settings) ''t''
     = Inr example_access_claims \<and>
   validate_access_token_contract (\<lambda>_ _ _. Inl PyJWKSetError) (init_broker default_settings) ''t''
     = Inl (JwtError PyJWKSetError)"
  using token_contract_exact [of "\<lambda>_ _ _. Inr example_access_claims" "init_broker default_settings" "''t''"]
    token_contract_exact [of "\<lambda>_ _ _. Inl PyJWKSetError" "init_broker default_settings" "''t''"]
  by (simp add: example_contract_holds)

text \<open>The form of a password grant.\<close>

definition password_form :: "broker \<Rightarrow> string \<Rightarrow> string \<Rightarrow> string \<Rightarrow> form" where
  "password_form b secret username password =
    [(''grant_type'', ''password''), (''client_id'', kb_client_id b), (''client_secret'', secret),
     (''username'', username), (''password'', password), (''scope'', kb_scope b)]"

lemma exchange_answered:
  assumes "kb_client_secret b = Some secret" "kc (kb_token_url b) data r = (TokenReply 200 (Some body), r')"
    and "model_validate as_field_int body = Some response"
  shows "exchange_token decode as_field_int kc b data r =
    (case validate_access_token_contract decode b (kt_access_token response) of
       Inl e \<Rightarrow> (Inl e, r') | Inr _ \<Rightarrow> (Inr response, r'))"
  using assms validate_never_connection_error [of decode b "kt_access_token response"]
  by (auto simp: exchange_token_def split: sum.split exn.split jwt_error.split)



end
