(* ===== verification/ServiceAuth.thy ===== *)
theory ServiceAuth
  imports Config
begin

text \<open>
  \<open>app/core/service_auth.py\<close>: the verifier of service-account tokens and its two uses, for
  the internal routes and for the metrics scraper. Parameter: \<open>decode\<close>, the library's check of
  signature, lifetime, audience and issuer, or the exception it raised. The except clause names
  invalid tokens and JWKS client errors only, so a JWKS body that is not JSON (a \<open>ValueError\<close>) and
  a key set without a usable key (\<open>PyJWKSetError\<close>) leave the verifier as they are.
\<close>

record verifier =
  sv_issuer :: string
  sv_audience :: string
  sv_client_id :: string

definition init_verifier :: "settings \<Rightarrow> string option \<Rightarrow> string option \<Rightarrow> exn + verifier" where
  "init_verifier cfg audience client_id =
    (let aud = (case audience of None \<Rightarrow> keycloak_internal_audience cfg | Some a \<Rightarrow> py_strip a);
         cid = (case client_id of None \<Rightarrow> keycloak_internal_client_id cfg | Some c \<Rightarrow> py_strip c)
     in if aud = [] \<or> cid = [] then Inl (ValueError ''service token audience and client_id must not be blank'')
        else Inr \<lparr>sv_issuer = py_rstrip_char (CHR ''/'') (keycloak_issuer_url cfg),
                  sv_audience = aud, sv_client_id = cid\<rparr>)"

text \<open>Token, audience, issuer.\<close>

type_synonym service_decode = "string \<Rightarrow> string \<Rightarrow> string \<Rightarrow> jwt_error + pydict"

definition service_token_errors :: "jwt_error list" where
  "service_token_errors = [InvalidTokenError, PyJWKClientError, PyJWKClientConnectionError]"

definition decode_service_token :: "service_decode \<Rightarrow> verifier \<Rightarrow> string \<Rightarrow> exn + pydict" where
  "decode_service_token decode v token =
    (case decode token (sv_audience v) (sv_issuer v) of
       Inl j \<Rightarrow>
         if j \<in> set service_token_errors then Inl (ServiceAuthenticationError ''invalid service token'')
         else Inl (JwtError j)
     | Inr payload \<Rightarrow>
         if dget payload ''azp'' \<noteq> PStr (sv_client_id v)
         then Inl (ServiceAuthenticationError ''unexpected authorized party'')
         else Inr payload)"

definition verify_authorization_header :: "service_decode \<Rightarrow> verifier \<Rightarrow> string option \<Rightarrow> exn + pydict" where
  "verify_authorization_header decode v authorization =
    (case authorization of
       None \<Rightarrow> Inl (ServiceAuthenticationError ''missing bearer token'')
     | Some header \<Rightarrow>
         (case py_partition (CHR '' '') header of
            (scheme, separator, token) \<Rightarrow>
              if separator \<noteq> '' '' \<or> py_lower scheme \<noteq> ''bearer'' \<or> py_strip token = []
              then Inl (ServiceAuthenticationError ''invalid bearer token'')
              else decode_service_token decode v (py_strip token)))"

lemma bearer_no_blank: "py_lower scheme = ''bearer'' \<Longrightarrow> CHR '' '' \<notin> set scheme"
proof
  assume "py_lower scheme = ''bearer''" "CHR '' '' \<in> set scheme"
  then have "lower_char (CHR '' '') \<in> set ''bearer''" by (metis image_eqI list.set_map py_lower_def)
  moreover have "lower_char (CHR '' '') = CHR '' ''" by code_simp
  ultimately show False by simp
qed

lemma header_without_blank:
  "CHR '' '' \<notin> set h \<Longrightarrow>
    verify_authorization_header decode v (Some h) = Inl (ServiceAuthenticationError ''invalid bearer token'')"
  by (simp add: verify_authorization_header_def py_partition_def)

lemma header_with_blank:
  "CHR '' '' \<notin> set l \<Longrightarrow> verify_authorization_header decode v (Some (l @ CHR '' '' # r)) =
    (if py_lower l \<noteq> ''bearer'' \<or> py_strip r = [] then Inl (ServiceAuthenticationError ''invalid bearer token'')
     else decode_service_token decode v (py_strip r))"
  by (simp add: verify_authorization_header_def partition_append)

lemma decode_service_token_cases:
  "decode_service_token decode v t = Inr p \<longleftrightarrow>
    decode t (sv_audience v) (sv_issuer v) = Inr p \<and> dget p ''azp'' = PStr (sv_client_id v)"
  "decode_service_token decode v t = Inl (JwtError j) \<longleftrightarrow>
    decode t (sv_audience v) (sv_issuer v) = Inl j \<and> j \<notin> {InvalidTokenError, PyJWKClientError, PyJWKClientConnectionError}"
  "decode_service_token decode v t = Inl e \<Longrightarrow> (\<exists>m. e = ServiceAuthenticationError m) \<or> (\<exists>j. e = JwtError j)"
  by (auto simp: decode_service_token_def service_token_errors_def split: sum.splits if_splits)

text \<open>The scheme of a header is the part before its first blank.\<close>

lemma bearer_split:
  assumes "CHR '' '' \<notin> set l"
  shows "(\<exists>scheme rest. l @ CHR '' '' # r = scheme @ CHR '' '' # rest \<and> py_lower scheme = ''bearer'' \<and> Q rest)
    \<longleftrightarrow> py_lower l = ''bearer'' \<and> Q r"
proof
  assume "\<exists>scheme rest. l @ CHR '' '' # r = scheme @ CHR '' '' # rest \<and> py_lower scheme = ''bearer'' \<and> Q rest"
  then obtain l' r' where *: "l @ CHR '' '' # r = l' @ CHR '' '' # r'" "py_lower l' = ''bearer''" "Q r'" by blast
  then have "l' = l \<and> r' = r"
    using partition_append [OF assms, of r] unfolding *(1) partition_append [OF bearer_no_blank [OF *(2)]] by simp
  with * show "py_lower l = ''bearer'' \<and> Q r" by simp
qed blast

text \<open>The token a header presents.\<close>

definition bearer_token :: "string option \<Rightarrow> string \<Rightarrow> bool" where
  "bearer_token header token \<longleftrightarrow>
    (\<exists>scheme rest. header = Some (scheme @ CHR '' '' # rest) \<and> py_lower scheme = ''bearer'' \<and>
       token = py_strip rest \<and> token \<noteq> [])"

text \<open>A header presents a token, which the verifier then decodes, or it is refused as it is.\<close>

lemma verify_authorization_header_cases:
  obtains token where "bearer_token header token" "\<And>t. bearer_token header t \<Longrightarrow> t = token"
      "verify_authorization_header decode v header = decode_service_token decode v token"
  | m where "\<And>t. \<not> bearer_token header t"
      "verify_authorization_header decode v header = Inl (ServiceAuthenticationError m)"
proof (cases header)
  case None
  then show thesis by (intro that(2)) (auto simp: verify_authorization_header_def bearer_token_def)
next
  case (Some h)
  show thesis
  proof (cases "CHR '' '' \<in> set h")
    case False
    then show thesis
      using Some header_without_blank [OF False, of decode v] by (intro that(2)) (auto simp: bearer_token_def)
  next
    case True
    then obtain l r where h: "h = l @ CHR '' '' # r" and l: "CHR '' '' \<notin> set l"
      using split_list_first by metis
    have token: "bearer_token header t \<longleftrightarrow> py_lower l = ''bearer'' \<and> t = py_strip r \<and> t \<noteq> []" for t
      using bearer_split [OF l, of r "\<lambda>rest. t = py_strip rest \<and> t \<noteq> []"] by (auto simp: bearer_token_def Some h)
    have verify: "verify_authorization_header decode v header =
        (if py_lower l \<noteq> ''bearer'' \<or> py_strip r = [] then Inl (ServiceAuthenticationError ''invalid bearer token'')
         else decode_service_token decode v (py_strip r))"
      unfolding Some h by (rule header_with_blank [OF l])
    show thesis
    proof (cases "py_lower l = ''bearer'' \<and> py_strip r \<noteq> []")
      case True
      then show thesis by (intro that(1) [of "py_strip r"]) (simp_all add: token verify)
    next
      case False
      then show thesis by (intro that(2)) (auto simp: token verify)
    qed
  qed
qed

lemma ex_bearer_token:
  "(\<exists>token. bearer_token header token \<and> Q token) \<longleftrightarrow>
    (\<exists>scheme rest. header = Some (scheme @ CHR '' '' # rest) \<and> py_lower scheme = ''bearer'' \<and>
       py_strip rest \<noteq> [] \<and> Q (py_strip rest))"
  by (auto simp: bearer_token_def)

text \<open>C16: A request is authenticated, with the claims the library found, exactly when its
  Authorization header is a scheme spelled \<open>bearer\<close> in any case, a blank, and a token which,
  stripped, is not empty, is accepted by the library for this verifier's audience and issuer, and
  names this verifier's client as the authorised party. An exception of the library escapes as it
  is exactly when it was raised on such a token and is neither an invalid-token error nor a JWKS
  client error; every other refusal is the service-authentication error.\<close>

theorem service_token_exact:
  "(\<forall>payload. verify_authorization_header decode v header = Inr payload \<longleftrightarrow>
     (\<exists>scheme rest. header = Some (scheme @ CHR '' '' # rest) \<and> py_lower scheme = ''bearer'' \<and>
        py_strip rest \<noteq> [] \<and> decode (py_strip rest) (sv_audience v) (sv_issuer v) = Inr payload \<and>
        dget payload ''azp'' = PStr (sv_client_id v))) \<and>
   (\<forall>j. verify_authorization_header decode v header = Inl (JwtError j) \<longleftrightarrow>
     (\<exists>scheme rest. header = Some (scheme @ CHR '' '' # rest) \<and> py_lower scheme = ''bearer'' \<and>
        py_strip rest \<noteq> [] \<and> decode (py_strip rest) (sv_audience v) (sv_issuer v) = Inl j \<and>
        j \<notin> {InvalidTokenError, PyJWKClientError, PyJWKClientConnectionError})) \<and>
   (\<forall>e. verify_authorization_header decode v header = Inl e \<longrightarrow>
     (\<exists>m. e = ServiceAuthenticationError m) \<or> (\<exists>j. e = JwtError j))"
proof -
  have exact: "(\<forall>payload. verify_authorization_header decode v header = Inr payload \<longleftrightarrow>
     (\<exists>token. bearer_token header token \<and> decode token (sv_audience v) (sv_issuer v) = Inr payload \<and>
        dget payload ''azp'' = PStr (sv_client_id v))) \<and>
   (\<forall>j. verify_authorization_header decode v header = Inl (JwtError j) \<longleftrightarrow>
     (\<exists>token. bearer_token header token \<and> decode token (sv_audience v) (sv_issuer v) = Inl j \<and>
        j \<notin> {InvalidTokenError, PyJWKClientError, PyJWKClientConnectionError})) \<and>
   (\<forall>e. verify_authorization_header decode v header = Inl e \<longrightarrow>
     (\<exists>m. e = ServiceAuthenticationError m) \<or> (\<exists>j. e = JwtError j))"
  proof (rule verify_authorization_header_cases [of header decode v])
    fix token
    assume "bearer_token header token" "\<And>t. bearer_token header t \<Longrightarrow> t = token"
      "verify_authorization_header decode v header = decode_service_token decode v token"
    then show ?thesis using decode_service_token_cases [of decode v token] by metis
  qed auto
  then show ?thesis unfolding ex_bearer_token .
qed

theorem service_token_exact_witness:
  "verify_authorization_header (\<lambda>t _ _. if t = ''tok'' then Inr [(''azp'', PStr ''c'')] else Inl PyJWKSetError)
     \<lparr>sv_issuer = ''i'', sv_audience = ''a'', sv_client_id = ''c''\<rparr> (Some ''BEARER  tok '') = Inr [(''azp'', PStr ''c'')]"
proof -
  let ?d = "\<lambda>t (_ :: string) (_ :: string). if t = ''tok'' then Inr [(''azp'', PStr ''c'')] else Inl PyJWKSetError"
  let ?v = "\<lparr>sv_issuer = ''i'', sv_audience = ''a'', sv_client_id = ''c''\<rparr>"
  have *: "''BEARER  tok '' = ''BEARER'' @ CHR '' '' # '' tok ''" by simp
  have "py_lower ''BEARER'' = ''bearer''" "py_strip '' tok '' = ''tok''" by code_simp+
  then have "\<exists>scheme rest. Some ''BEARER  tok '' = Some (scheme @ CHR '' '' # rest) \<and> py_lower scheme = ''bearer'' \<and>
      py_strip rest \<noteq> [] \<and> ?d (py_strip rest) (sv_audience ?v) (sv_issuer ?v) = Inr [(''azp'', PStr ''c'')] \<and>
      dget [(''azp'', PStr ''c'')] ''azp'' = PStr (sv_client_id ?v)"
    unfolding * by (intro exI [of _ "''BEARER''"] exI [of _ "'' tok ''"]) (simp add: dget_def)
  then show ?thesis
    by (rule conjunct1 [OF service_token_exact [of ?d ?v "Some ''BEARER  tok ''"], THEN spec, THEN iffD2])
qed

end
