(* ===== verification/Metrics.thy ===== *)
theory Metrics
  imports Errors Py_Regex
begin

text \<open>
  \<open>app/core/metrics.py\<close> and \<open>app/core/infisical.py\<close>: the labels of the request metrics, and
  loading the runtime secrets into the environment. The registry is a list of recorded
  samples; the Infisical client is a parameter.
\<close>

section \<open>Labels\<close>

definition KNOWN_METRIC_PATHS :: "string list" where
  "KNOWN_METRIC_PATHS =
    [''/'', ''/health'', ''/ready'', ''/metrics'', ''/docs'', ''/openapi.json'', ''/redoc'',
     ''/v1/auth/credentials/verify'', ''/v1/auth/login/start'', ''/v1/auth/login/verify'',
     ''/v1/auth/token'', ''/v1/auth/token/refresh'', ''/v1/auth/password/reset/start'',
     ''/v1/auth/password/reset/verify'', ''/v1/auth/password/reset/confirm'',
     ''/internal/v1/identities/by-email'', ''/internal/v1/credentials/verify'']"

definition AUTH_OPERATIONS_BY_PATH :: "((string \<times> string) \<times> string) list" where
  "AUTH_OPERATIONS_BY_PATH =
    [((''POST'', ''/v1/auth/credentials/verify''), ''credentials_verify''),
     ((''POST'', ''/v1/auth/login/start''), ''login_start''),
     ((''POST'', ''/v1/auth/login/verify''), ''login_verify''),
     ((''POST'', ''/v1/auth/token''), ''token_issue''),
     ((''POST'', ''/v1/auth/token/refresh''), ''token_refresh''),
     ((''POST'', ''/v1/auth/password/reset/start''), ''password_reset_start''),
     ((''POST'', ''/v1/auth/password/reset/verify''), ''password_reset_verify''),
     ((''POST'', ''/v1/auth/password/reset/confirm''), ''password_reset_confirm'')]"

text \<open>\<open>/internal/v1/identities/[^/]+/\d+\<close>.\<close>

definition IDENTITY_PATH :: "re_item list" where
  "IDENTITY_PATH = re_lit ''/internal/v1/identities/'' @
     [Rep (\<lambda>c. c \<noteq> CHR ''/'') 1 None, Cls (\<lambda>c. c = CHR ''/''), Rep is_digit 1 None]"

definition IDENTITY_TEMPLATE :: string where
  "IDENTITY_TEMPLATE = ''/internal/v1/identities/{account_type}/{database_id}''"

definition metric_path :: "string \<Rightarrow> string" where
  "metric_path path =
    (if path \<in> set KNOWN_METRIC_PATHS then path
     else if re_fullmatch IDENTITY_PATH path then IDENTITY_TEMPLATE
     else ''{unknown}'')"

text \<open>\<open>str.upper\<close> on the ASCII methods of HTTP.\<close>

definition py_upper_ascii :: "string \<Rightarrow> string" where
  "py_upper_ascii s = map (\<lambda>c. if 97 \<le> ord c \<and> ord c \<le> 122 then char_of (ord c - 32) else c) s"

definition auth_operation :: "string \<Rightarrow> string \<Rightarrow> string option" where
  "auth_operation request_method path = map_of AUTH_OPERATIONS_BY_PATH (py_upper_ascii request_method, path)"

definition outcome_for_status :: "int \<Rightarrow> string" where
  "outcome_for_status status_code =
    (if status_code < 400 then ''success'' else if status_code < 500 then ''client_error'' else ''server_error'')"

datatype sample =
    HTTP_REQUESTS string string int
  | HTTP_DURATION string string seconds
  | AUTH_OPERATIONS string string
  | RATE_LIMIT_HITS
  | DEPENDENCY_READY string bool

type_synonym registry = "sample list"

text \<open>The samples the middleware records for one request that ended with a status.\<close>

definition record_request :: "string \<Rightarrow> string \<Rightarrow> int \<Rightarrow> seconds \<Rightarrow> registry \<Rightarrow> registry" where
  "record_request request_method path status duration reg =
    (let route = metric_path path
     in reg @ [HTTP_REQUESTS request_method route status, HTTP_DURATION request_method route duration] @
        (case auth_operation request_method route of
           None \<Rightarrow> []
         | Some operation \<Rightarrow> [AUTH_OPERATIONS operation (outcome_for_status status)]))"

section \<open>Secrets from Infisical\<close>

definition REQUIRED_INFISICAL_KEYS :: "string list" where
  "REQUIRED_INFISICAL_KEYS =
    [''INFISICAL_CLIENT_ID'', ''INFISICAL_CLIENT_SECRET'', ''INFISICAL_PROJECT_ID'',
     ''INFISICAL_ENVIRONMENT'', ''INFISICAL_SECRET_PATH'']"

type_synonym environ = "(string \<times> string) list"

definition env_set :: "environ \<Rightarrow> string \<Rightarrow> bool" where
  "env_set env k \<longleftrightarrow> (case map_of env k of None \<Rightarrow> False | Some v \<Rightarrow> v \<noteq> [])"

fun join_comma :: "string list \<Rightarrow> string" where
  "join_comma [] = []"
| "join_comma [s] = s"
| "join_comma (s # ss) = s @ '', '' @ join_comma ss"

text \<open>\<open>client\<close> is the SDK: site URL and the five values to the listed secrets, or an exception.\<close>

definition load_infisical_secrets ::
  "(string \<Rightarrow> string list \<Rightarrow> exn + (string \<times> string) list) \<Rightarrow> environ \<Rightarrow> (exn, environ, unit) outcome" where
  "load_infisical_secrets client env =
    (if \<not> list_ex (env_set env) REQUIRED_INFISICAL_KEYS then (Inr (), env)
     else let missing = filter (\<lambda>k. \<not> env_set env k) REQUIRED_INFISICAL_KEYS
          in if missing \<noteq> [] then
               (Inl (RuntimeError (''Configura'' @ [CHR 0xE7, CHR 0xE3]
                  @ ''o parcial do Infisical; faltando: '' @ join_comma missing)), env)
             else (case client (case map_of env ''INFISICAL_SITE_URL'' of
                                  None \<Rightarrow> ''https://app.infisical.com'' | Some u \<Rightarrow> u)
                         (map (\<lambda>k. the (map_of env k)) REQUIRED_INFISICAL_KEYS) of
                     Inl e \<Rightarrow> (Inl e, env)
                   | Inr secrets \<Rightarrow> (Inr (), foldl (\<lambda>env (k, v). AList.update k v env) env secrets)))"

section \<open>Properties\<close>

lemma identity_path_iff:
  "re_fullmatch IDENTITY_PATH p \<longleftrightarrow>
    (\<exists>a d. p = ''/internal/v1/identities/'' @ a @ CHR ''/'' # d \<and> a \<noteq> [] \<and> CHR ''/'' \<notin> set a \<and> py_isdecimal d)"
proof -
  have digits: "list_all is_digit d \<and> 1 \<le> length d \<longleftrightarrow> py_isdecimal d" for d
    by (cases d) (auto simp: py_isdecimal_def)
  have segment: "list_all (\<lambda>c. c \<noteq> CHR ''/'') a \<and> 1 \<le> length a \<longleftrightarrow> a \<noteq> [] \<and> CHR ''/'' \<notin> set a" for a
    by (cases a) (auto simp: list_all_iff)
  have tail: "re_fullmatch [Rep (\<lambda>c. c \<noteq> CHR ''/'') 1 None, Cls (\<lambda>c. c = CHR ''/''), Rep is_digit 1 None] s \<longleftrightarrow>
      (\<exists>a d. s = a @ CHR ''/'' # d \<and> (list_all (\<lambda>c. c \<noteq> CHR ''/'') a \<and> 1 \<le> length a) \<and>
        (list_all is_digit d \<and> 1 \<le> length d))" for s
    unfolding fullmatch_rep fullmatch_cls fullmatch_rep_end by auto
  show ?thesis unfolding IDENTITY_PATH_def fullmatch_lit tail digits segment by blast
qed

definition METRIC_LABELS :: "string list" where
  "METRIC_LABELS = KNOWN_METRIC_PATHS @ [IDENTITY_TEMPLATE, ''{unknown}'']"

definition WEB_PATHS :: "string list" where
  "WEB_PATHS = [''/v1/auth/web/login/verify'', ''/v1/auth/web/token/refresh'', ''/v1/auth/web/logout'']"

text \<open>C40: The route label takes nineteen values whatever path a client requests, so clients cannot
  grow the metrics; the identity template is used exactly for the paths with a non-empty
  segment and a decimal id, without their values; and the three browser routes, which the
  table of known paths leaves out, are recorded as unknown with no operation counted.\<close>

theorem metric_labels_bounded:
  "metric_path p \<in> set METRIC_LABELS \<and> length METRIC_LABELS = 19 \<and>
   (metric_path p = IDENTITY_TEMPLATE \<longleftrightarrow>
     (\<exists>a d. p = ''/internal/v1/identities/'' @ a @ CHR ''/'' # d \<and> a \<noteq> [] \<and> CHR ''/'' \<notin> set a \<and> py_isdecimal d)) \<and>
   map metric_path WEB_PATHS = replicate 3 ''{unknown}'' \<and>
   auth_operation m ''{unknown}'' = None"
proof -
  have tmpl: "IDENTITY_TEMPLATE \<notin> set KNOWN_METRIC_PATHS" "''{unknown}'' \<noteq> IDENTITY_TEMPLATE" by code_simp+
  have known: "\<not> re_fullmatch IDENTITY_PATH q" if "q \<in> set KNOWN_METRIC_PATHS" for q
  proof -
    have "list_all (\<lambda>q. \<not> re_fullmatch IDENTITY_PATH q) KNOWN_METRIC_PATHS" by code_simp
    then show ?thesis using that by (simp add: list_all_iff)
  qed
  have "metric_path p = IDENTITY_TEMPLATE \<longleftrightarrow> re_fullmatch IDENTITY_PATH p"
    using tmpl known by (auto simp: metric_path_def)
  moreover have "metric_path p \<in> set METRIC_LABELS"
    unfolding metric_path_def METRIC_LABELS_def by simp
  moreover have "length METRIC_LABELS = 19" by code_simp
  moreover have "map metric_path WEB_PATHS = replicate 3 ''{unknown}''" by code_simp
  moreover have "auth_operation m ''{unknown}'' = None"
    by (simp add: auth_operation_def AUTH_OPERATIONS_BY_PATH_def)
  ultimately show ?thesis unfolding identity_path_iff by blast
qed

lemma map_of_foldl_update:
  "map_of (foldl (\<lambda>env (k, v). AList.update k v env) env kvs) k =
    (case map_of (rev kvs) k of None \<Rightarrow> map_of env k | Some v \<Rightarrow> Some v)"
proof (induction kvs arbitrary: env)
  case (Cons kv kvs)
  obtain k' v where kv: "kv = (k', v)" by (rule prod.exhaust)
  show ?case
    by (simp add: kv Cons update_conv' map_add_def split: option.splits)
qed simp

text \<open>Secrets are loaded all or nothing: without any of the five variables the SDK is not
  consulted and the environment stays as it is; with only some of them, or when the SDK
  raises, loading fails and the environment stays as it is; otherwise every listed secret is
  in the environment with its last listed value and all other variables keep theirs.\<close>

lemma infisical_all_or_nothing:
  "case load_infisical_secrets client env of
     (Inl e, env') \<Rightarrow> env' = env \<and> list_ex (env_set env) REQUIRED_INFISICAL_KEYS
   | (Inr _, env') \<Rightarrow>
       if list_ex (env_set env) REQUIRED_INFISICAL_KEYS
       then list_all (env_set env) REQUIRED_INFISICAL_KEYS \<and>
         (\<exists>url args secrets. client url args = Inr secrets \<and>
            map_of env' = (\<lambda>k. case map_of (rev secrets) k of None \<Rightarrow> map_of env k | Some v \<Rightarrow> Some v))
       else env' = env"
proof (cases "list_ex (env_set env) REQUIRED_INFISICAL_KEYS")
  case False
  then show ?thesis by (simp add: load_infisical_secrets_def)
next
  case True
  show ?thesis
  proof (cases "filter (\<lambda>k. \<not> env_set env k) REQUIRED_INFISICAL_KEYS = []")
    case False
    with True show ?thesis by (simp add: load_infisical_secrets_def)
  next
    case all: True
    then have "list_all (env_set env) REQUIRED_INFISICAL_KEYS" by (auto simp: filter_empty_conv list_all_iff)
    with True all show ?thesis
      by (auto simp: load_infisical_secrets_def map_of_foldl_update fun_eq_iff split: sum.splits)
  qed
qed

end
