(* ===== verification/Routes.thy ===== *)
theory Routes
  imports RateLimit PasswordReset Smtp TokenBroker ServiceAuth Metrics
begin

text \<open>
  \<open>app/api/routes.py\<close> and \<open>app/api/internal_routes.py\<close>: the handlers, over one application
  state and one outside world. \<open>platform\<close> collects the parameters of the components,
  \<open>draws\<close> what one request draws from \<open>secrets\<close> and reads from the clocks. A handler gets its
  request body validated, and returns its typed answer or the exception it raises.
\<close>

section \<open>State and parameters\<close>

record ('r, 'j) platform =
  pf_redis :: "('r, 'j) redis"
  pf_codec :: "'j codec"
  pf_hmac :: "string \<Rightarrow> string \<Rightarrow> string"
  pf_sha256 :: "string \<Rightarrow> string"
  pf_postgres :: postgres
  pf_checkpw :: "string \<Rightarrow> string \<Rightarrow> exn + bool"
  pf_dummy_hash :: string
  pf_jwt :: jwt
  pf_repr :: "pyval \<Rightarrow> string"
  pf_jwks_decode :: jwks_decode
  pf_field_int :: "pyval \<Rightarrow> int option"
  pf_keycloak :: "string \<Rightarrow> form \<Rightarrow> 'r \<Rightarrow> token_reply \<times> 'r"
  pf_spring :: "spring_request \<Rightarrow> 'r \<Rightarrow> http_reply \<times> 'r"
  pf_smtp :: "smtp_command \<Rightarrow> exn + unit"
  pf_service_decode :: service_decode

record draws =
  dr_token :: string
  dr_decoy :: string
  dr_number :: nat
  dr_jti :: string
  dr_time :: "nat \<Rightarrow> seconds"
  dr_monotonic :: "nat \<Rightarrow> seconds"

text \<open>
  \<open>app.state\<close>. The database and the OTP service are shared: they are the ones the reset
  service holds.
\<close>

record app_state =
  ap_settings :: settings
  ap_limiter :: limiter
  ap_reset :: reset_service
  ap_broker :: broker
  ap_service_verifier :: verifier
  ap_metrics_verifier :: verifier
  ap_registry :: registry

abbreviation ap_otp :: "app_state \<Rightarrow> otp" where
  "ap_otp a \<equiv> ps_otp (ap_reset a)"

abbreviation ap_db :: "app_state \<Rightarrow> database" where
  "ap_db a \<equiv> ps_db (ap_reset a)"

text \<open>\<open>Request\<close>: header names are in lower case; \<open>rq_json\<close> is \<open>None\<close> where \<open>json()\<close> raises.\<close>

record http_request =
  rq_client :: "string option"
  rq_headers :: "(string \<times> string) list"
  rq_scheme :: string
  rq_cookies :: "(string \<times> string) list"
  rq_json :: "pyval option"

record cookie =
  ck_key :: string
  ck_value :: string
  ck_max_age :: "int option"
  ck_httponly :: bool
  ck_secure :: bool
  ck_samesite :: string
  ck_path :: string

section \<open>Calling the components\<close>

definition get_rate_limiter ::
  "(limiter \<times> 'r \<Rightarrow> (exn, limiter \<times> 'r, 'a) outcome) \<Rightarrow> app_state \<times> 'r \<Rightarrow> (exn, app_state \<times> 'r, 'a) outcome" where
  "get_rate_limiter f = (\<lambda>(a, r).
    case f (ap_limiter a, r) of (res, l, r1) \<Rightarrow> (res, a\<lparr>ap_limiter := l\<rparr>, r1))"

definition get_password_reset_service ::
  "(reset_service \<times> 'r \<Rightarrow> (exn, reset_service \<times> 'r, 'a) outcome)
    \<Rightarrow> app_state \<times> 'r \<Rightarrow> (exn, app_state \<times> 'r, 'a) outcome" where
  "get_password_reset_service f = (\<lambda>(a, r).
    case f (ap_reset a, r) of (res, s, r1) \<Rightarrow> (res, a\<lparr>ap_reset := s\<rparr>, r1))"

definition get_email_otp_service ::
  "(otp \<times> 'r \<Rightarrow> (exn, otp \<times> 'r, 'a) outcome) \<Rightarrow> app_state \<times> 'r \<Rightarrow> (exn, app_state \<times> 'r, 'a) outcome" where
  "get_email_otp_service f = get_password_reset_service (with_otp f)"

definition get_database ::
  "(database \<Rightarrow> (exn, database, 'a) outcome) \<Rightarrow> app_state \<times> 'r \<Rightarrow> (exn, app_state \<times> 'r, 'a) outcome" where
  "get_database f = get_password_reset_service (\<lambda>(s, r).
    case f (ps_db s) of (res, d) \<Rightarrow> (res, s\<lparr>ps_db := d\<rparr>, r))"

text \<open>The service has no state besides the database; the list of comparisons ends with the request.\<close>

definition get_auth_service ::
  "(database \<times> string list \<Rightarrow> (exn, database \<times> string list, 'a) outcome)
    \<Rightarrow> app_state \<times> 'r \<Rightarrow> (exn, app_state \<times> 'r, 'a) outcome" where
  "get_auth_service f = get_database (\<lambda>d. case f (d, []) of (res, d1, _) \<Rightarrow> (res, d1))"

definition get_token_broker ::
  "(broker \<Rightarrow> 'r \<Rightarrow> (exn, 'r, 'a) outcome) \<Rightarrow> app_state \<times> 'r \<Rightarrow> (exn, app_state \<times> 'r, 'a) outcome" where
  "get_token_broker f = (\<lambda>(a, r). case f (ap_broker a) r of (res, r1) \<Rightarrow> (res, a, r1))"

text \<open>A value computed without effects, or its exception.\<close>

definition pure :: "exn + 'a \<Rightarrow> 's \<Rightarrow> (exn, 's, 'a) outcome" where
  "pure res st = (res, st)"

section \<open>Guards and cookies\<close>

definition WEB_REFRESH_COOKIE :: string where
  "WEB_REFRESH_COOKIE = ''ouros_web_refresh''"

definition bearer_challenge :: "(string \<times> string) list" where
  "bearer_challenge = [(''WWW-Authenticate'', ''Bearer'')]"

definition require_bearer :: "string \<Rightarrow> service_decode \<Rightarrow> verifier \<Rightarrow> http_request \<Rightarrow> exn + unit" where
  "require_bearer detail decode v request =
    (case verify_authorization_header decode v (map_of (rq_headers request) ''authorization'') of
       Inr _ \<Rightarrow> Inr ()
     | Inl (ServiceAuthenticationError _) \<Rightarrow> Inl (HTTPException 401 detail bearer_challenge)
     | Inl e \<Rightarrow> Inl e)"

definition require_metrics_bearer :: "('r, 'j) platform \<Rightarrow> app_state \<Rightarrow> http_request \<Rightarrow> exn + unit" where
  "require_metrics_bearer P a request =
     require_bearer ''Invalid metrics credentials.'' (pf_service_decode P) (ap_metrics_verifier a) request"

definition require_keycloak_service :: "('r, 'j) platform \<Rightarrow> app_state \<Rightarrow> http_request \<Rightarrow> exn + unit" where
  "require_keycloak_service P a request =
     require_bearer ''Invalid service credentials.'' (pf_service_decode P) (ap_service_verifier a) request"

definition require_password_broker :: "settings \<Rightarrow> exn + unit" where
  "require_password_broker cfg =
    (if \<not> keycloak_password_broker_enabled cfg then Inl (HTTPException 404 ''Not Found'' []) else Inr ())"

definition origin_detail :: string where
  "origin_detail = ''Origem n'' @ [CHR 0xE3] @ ''o autorizada.''"

definition request_origin :: "http_request \<Rightarrow> string" where
  "request_origin request =
     py_rstrip_char (CHR ''/'') (case map_of (rq_headers request) ''origin'' of None \<Rightarrow> [] | Some h \<Rightarrow> h)"

definition require_web_origin :: "http_request \<Rightarrow> settings \<Rightarrow> exn + unit" where
  "require_web_origin request cfg =
    (if request_origin request = [] \<or> request_origin request \<notin> set (web_allowed_origins cfg)
     then Inl (HTTPException 403 origin_detail []) else Inr ())"

text \<open>The request is optional; \<open>_settings\<close> alone decide without one.\<close>

definition is_secure_request :: "http_request option \<Rightarrow> settings \<Rightarrow> bool" where
  "is_secure_request request cfg \<longleftrightarrow>
    (case request of
       None \<Rightarrow> False
     | Some rq \<Rightarrow> py_lower (case map_of (rq_headers rq) ''x-forwarded-proto'' of
                             None \<Rightarrow> rq_scheme rq | Some p \<Rightarrow> p) = ''https'') \<or>
    py_lower (environment cfg) \<notin> {''development'', ''dev'', ''local''}"

definition refresh_cookie :: "string \<Rightarrow> int option \<Rightarrow> bool \<Rightarrow> cookie" where
  "refresh_cookie value max_age secure = \<lparr>ck_key = WEB_REFRESH_COOKIE, ck_value = value, ck_max_age = max_age,
     ck_httponly = True, ck_secure = secure, ck_samesite = (if secure then ''none'' else ''lax''),
     ck_path = ''/v1/auth/web''\<rparr>"

text \<open>\<open>x or None\<close> for an optional number.\<close>

definition nonzero :: "int option \<Rightarrow> int option" where
  "nonzero v = (case v of Some x \<Rightarrow> if x = 0 then None else Some x | None \<Rightarrow> None)"

definition set_web_refresh_cookie ::
  "keycloak_token_response \<Rightarrow> settings \<Rightarrow> http_request option \<Rightarrow> cookie list" where
  "set_web_refresh_cookie token cfg request =
    (if str_falsy (kt_refresh_token token) then []
     else [refresh_cookie (the (kt_refresh_token token)) (nonzero (kt_refresh_expires_in token))
             (is_secure_request request cfg)])"

definition web_access_token_response :: "keycloak_token_response \<Rightarrow> web_access_token_response" where
  "web_access_token_response token =
    \<lparr>wa_access_token = kt_access_token token, wa_expires_in = kt_expires_in token,
     wa_refresh_expires_in = kt_refresh_expires_in token, wa_token_type = kt_token_type token,
     wa_scope = kt_scope token\<rparr>"

section \<open>Handlers of \<open>routes.py\<close>\<close>

definition root :: "(string \<times> string) list" where
  "root = [(''service'', ''ouros-auth-service''), (''status'', ''running''), (''phase'', ''M2'')]"

definition health :: string where
  "health = ''ok''"

definition metrics ::
  "('r, 'j) platform \<Rightarrow> http_request \<Rightarrow> app_state \<times> 'r \<Rightarrow> (exn, app_state \<times> 'r, registry) outcome" where
  "metrics P request st =
    and_then (pure (require_metrics_bearer P (fst st) request) st) (\<lambda>_ st. (Inr (ap_registry (fst st)), st))"

definition ready :: "('r, 'j) platform \<Rightarrow> app_state \<times> 'r \<Rightarrow> (exn, app_state \<times> 'r, string) outcome" where
  "ready P st =
    and_then (get_database (db_ping (pf_postgres P)) st) (\<lambda>database_ready st.
    and_then (get_rate_limiter (\<lambda>(l, r). case lim_ping (pf_redis P) l r of (ok, s) \<Rightarrow> (Inr ok, s)) st)
      (\<lambda>rate_limiter_ready (a, r).
        let st = (a\<lparr>ap_registry := ap_registry a @
              [DEPENDENCY_READY ''postgresql'' database_ready, DEPENDENCY_READY ''rate_limiter'' rate_limiter_ready]\<rparr>, r)
        in if \<not> database_ready then (Inl (HTTPException 503 ''Database is not ready.'' []), st)
           else if \<not> rate_limiter_ready then (Inl (HTTPException 503 ''Rate limiter is not ready.'' []), st)
           else (Inr ''ready'', st)))"

text \<open>The two calls every credential route makes.\<close>

definition limit_credentials ::
  "('r, 'j) platform \<Rightarrow> draws \<Rightarrow> http_request \<Rightarrow> string \<Rightarrow> app_state \<times> 'r
    \<Rightarrow> (exn, app_state \<times> 'r, unit) outcome" where
  "limit_credentials P d request em =
     get_rate_limiter (check_credentials_attempt (pf_redis P) (pf_sha256 P) (dr_monotonic d) (rq_client request) em)"

definition auth_verify ::
  "('r, 'j) platform \<Rightarrow> credential_request \<Rightarrow> app_state \<times> 'r
    \<Rightarrow> (exn, app_state \<times> 'r, credential_response) outcome" where
  "auth_verify P payload =
     get_auth_service (AuthService.verify_credentials (pf_postgres P) (pf_checkpw P) (pf_dummy_hash P) payload)"

definition verify_credentials_route ::
  "('r, 'j) platform \<Rightarrow> draws \<Rightarrow> http_request \<Rightarrow> credential_request \<Rightarrow> app_state \<times> 'r
    \<Rightarrow> (exn, app_state \<times> 'r, credential_response) outcome" where
  "verify_credentials_route P d request payload st =
    and_then (limit_credentials P d request (cr_email payload) st) (\<lambda>_ st. auth_verify P payload st)"

definition start_native_login ::
  "('r, 'j) platform \<Rightarrow> draws \<Rightarrow> http_request \<Rightarrow> token_login_request \<Rightarrow> app_state \<times> 'r
    \<Rightarrow> (exn, app_state \<times> 'r, login_start_response) outcome" where
  "start_native_login P d request payload st =
    and_then (limit_credentials P d request (tl_email payload) st) (\<lambda>_ st.
    and_then (pure (mk_credential_request (tl_email payload) (tl_password payload) None) st) (\<lambda>credentials st.
    and_then (auth_verify P credentials st) (\<lambda>verified st.
    and_then
      (get_email_otp_service
        (otp_start (pf_redis P) (pf_codec P) (pf_hmac P) (send_email (ap_settings (fst st)) (pf_smtp P))
           (dr_token d) (dr_number d) (dr_time d 0) (dr_time d 1) (ir_email (cp_identity verified))) st)
      (\<lambda>challenge st.
        pure (mk_login_start_response (ch_id challenge) (ch_expires_in challenge) (ch_masked_email challenge)) st))))"

definition otp_check ::
  "('r, 'j) platform \<Rightarrow> draws \<Rightarrow> native_login_verify_request \<Rightarrow> app_state \<times> 'r
    \<Rightarrow> (exn, app_state \<times> 'r, unit) outcome" where
  "otp_check P d payload =
     get_email_otp_service
       (otp_verify (pf_redis P) (pf_codec P) (pf_hmac P) (dr_time d 0, dr_time d 1, dr_time d 2)
          (nv_challenge_id payload) (tl_email payload) (nv_code payload))"

definition broker_password ::
  "('r, 'j) platform \<Rightarrow> token_login_request \<Rightarrow> app_state \<times> 'r
    \<Rightarrow> (exn, app_state \<times> 'r, keycloak_token_response) outcome" where
  "broker_password P credentials = get_token_broker (\<lambda>b r.
     issue_password_token (pf_jwks_decode P) (pf_field_int P) (pf_keycloak P) b credentials r)"

definition broker_refresh ::
  "('r, 'j) platform \<Rightarrow> token_refresh_request \<Rightarrow> app_state \<times> 'r
    \<Rightarrow> (exn, app_state \<times> 'r, keycloak_token_response) outcome" where
  "broker_refresh P payload = get_token_broker (\<lambda>b r.
     refresh_token (pf_jwks_decode P) (pf_field_int P) (pf_keycloak P) b payload r)"

definition verify_native_login ::
  "('r, 'j) platform \<Rightarrow> draws \<Rightarrow> native_login_verify_request \<Rightarrow> app_state \<times> 'r
    \<Rightarrow> (exn, app_state \<times> 'r, keycloak_token_response) outcome" where
  "verify_native_login P d payload st =
    and_then (otp_check P d payload st) (\<lambda>_ st.
    and_then (pure (mk_token_login_request (tl_email payload) (tl_password payload)) st) (\<lambda>credentials st.
      broker_password P credentials st))"

definition verify_web_login ::
  "('r, 'j) platform \<Rightarrow> draws \<Rightarrow> http_request \<Rightarrow> native_login_verify_request \<Rightarrow> app_state \<times> 'r
    \<Rightarrow> (exn, app_state \<times> 'r, web_access_token_response \<times> cookie list) outcome" where
  "verify_web_login P d request payload st =
    and_then (pure (require_web_origin request (ap_settings (fst st))) st) (\<lambda>_ st.
    and_then (otp_check P d payload st) (\<lambda>_ st.
    and_then (pure (mk_token_login_request (tl_email payload) (tl_password payload)) st) (\<lambda>credentials st.
    and_then (broker_password P credentials st) (\<lambda>token st.
      (Inr (web_access_token_response token,
            set_web_refresh_cookie token (ap_settings (fst st)) (Some request)), st)))))"

text \<open>The truth value of a decoded value.\<close>

fun py_truthy :: "pyval \<Rightarrow> bool" where
  "py_truthy PNone = False"
| "py_truthy (PBool b) = b"
| "py_truthy (PInt i) = (i \<noteq> 0)"
| "py_truthy (PFloat q) = (q \<noteq> 0)"
| "py_truthy (PStr s) = (s \<noteq> [])"
| "py_truthy (PList vs) = (vs \<noteq> [])"
| "py_truthy (PDict d) = (d \<noteq> [])"

text \<open>The cookie's token, or else the one in the JSON body.\<close>

definition web_refresh_token :: "(pyval \<Rightarrow> string) \<Rightarrow> http_request \<Rightarrow> string option" where
  "web_refresh_token repr request =
    (if \<not> str_falsy (map_of (rq_cookies request) WEB_REFRESH_COOKIE)
     then map_of (rq_cookies request) WEB_REFRESH_COOKIE
     else (case rq_json request of
             Some (PDict body) \<Rightarrow>
               if py_truthy (dget body ''refresh_token'')
               then Some (py_str_value repr (dget body ''refresh_token''))
               else map_of (rq_cookies request) WEB_REFRESH_COOKIE
           | _ \<Rightarrow> map_of (rq_cookies request) WEB_REFRESH_COOKIE))"

definition session_detail :: string where
  "session_detail = ''Sess'' @ [CHR 0xE3] @ ''o expirada. Fa'' @ [CHR 0xE7] @ ''a login novamente.''"

definition refresh_web_session ::
  "('r, 'j) platform \<Rightarrow> http_request \<Rightarrow> app_state \<times> 'r
    \<Rightarrow> (exn, app_state \<times> 'r, web_access_token_response \<times> cookie list) outcome" where
  "refresh_web_session P request st =
    and_then (pure (require_web_origin request (ap_settings (fst st))) st) (\<lambda>_ st.
      if str_falsy (web_refresh_token (pf_repr P) request) then (Inl (HTTPException 401 session_detail []), st)
      else
        and_then (pure (mk_token_refresh_request (the (web_refresh_token (pf_repr P) request))) st) (\<lambda>payload st.
        and_then (broker_refresh P payload st) (\<lambda>token st.
          (Inr (web_access_token_response token,
                set_web_refresh_cookie token (ap_settings (fst st)) (Some request)), st))))"

text \<open>\<open>delete_cookie\<close> sets the cookie empty with no lifetime left.\<close>

definition logout_web_session ::
  "http_request \<Rightarrow> app_state \<times> 'r \<Rightarrow> (exn, app_state \<times> 'r, cookie list) outcome" where
  "logout_web_session request st =
    and_then (pure (require_web_origin request (ap_settings (fst st))) st) (\<lambda>_ st.
      (Inr [refresh_cookie [] (Some 0) (is_secure_request (Some request) (ap_settings (fst st)))], st))"

definition issue_keycloak_token ::
  "('r, 'j) platform \<Rightarrow> draws \<Rightarrow> http_request \<Rightarrow> token_login_request \<Rightarrow> app_state \<times> 'r
    \<Rightarrow> (exn, app_state \<times> 'r, keycloak_token_response) outcome" where
  "issue_keycloak_token P d request payload st =
    and_then (pure (require_password_broker (ap_settings (fst st))) st) (\<lambda>_ st.
    and_then (limit_credentials P d request (tl_email payload) st) (\<lambda>_ st.
      broker_password P payload st))"

definition refresh_keycloak_token ::
  "('r, 'j) platform \<Rightarrow> token_refresh_request \<Rightarrow> app_state \<times> 'r
    \<Rightarrow> (exn, app_state \<times> 'r, keycloak_token_response) outcome" where
  "refresh_keycloak_token P payload st = broker_refresh P payload st"

definition start_password_reset_route ::
  "('r, 'j) platform \<Rightarrow> draws \<Rightarrow> http_request \<Rightarrow> reset_start_request \<Rightarrow> app_state \<times> 'r
    \<Rightarrow> (exn, app_state \<times> 'r, reset_start_response) outcome" where
  "start_password_reset_route P d request payload st =
    and_then
      (get_rate_limiter
        (check_password_reset_attempt (pf_redis P) (pf_sha256 P) (dr_monotonic d) (rq_client request)
           (rs_email payload)) st)
      (\<lambda>_ st.
        get_password_reset_service
          (start_reset (pf_redis P) (pf_codec P) (pf_hmac P) (pf_postgres P) (dr_decoy d) (dr_token d)
             (dr_number d) (dr_time d 0) (dr_time d 1) payload) st)"

definition verify_password_reset_route ::
  "('r, 'j) platform \<Rightarrow> draws \<Rightarrow> reset_verify_request \<Rightarrow> app_state \<times> 'r
    \<Rightarrow> (exn, app_state \<times> 'r, reset_verify_response) outcome" where
  "verify_password_reset_route P d payload st =
     get_password_reset_service
       (verify_code (pf_redis P) (pf_codec P) (pf_hmac P) (pf_jwt P) (pf_repr P) (dr_jti d)
          (dr_time d 0) (dr_time d 1) payload) st"

definition confirm_password_reset ::
  "('r, 'j) platform \<Rightarrow> draws \<Rightarrow> reset_confirm_request \<Rightarrow> app_state \<times> 'r
    \<Rightarrow> (exn, app_state \<times> 'r, string) outcome" where
  "confirm_password_reset P d payload st =
     get_password_reset_service
       (confirm_reset (pf_redis P) (pf_codec P) (pf_jwt P) (pf_spring P)
          (dr_time d 0, dr_time d 1, dr_time d 2) payload) st"

section \<open>Handlers of \<open>internal_routes.py\<close>\<close>

definition found_or_404 :: "identity_response option \<Rightarrow> exn + identity_response" where
  "found_or_404 identity =
    (case identity of None \<Rightarrow> Inl (HTTPException 404 ''Identity not found.'' []) | Some i \<Rightarrow> Inr i)"

definition lookup_identity_by_email_route ::
  "('r, 'j) platform \<Rightarrow> http_request \<Rightarrow> string \<Rightarrow> app_state \<times> 'r
    \<Rightarrow> (exn, app_state \<times> 'r, identity_response) outcome" where
  "lookup_identity_by_email_route P request em st =
    and_then (pure (require_keycloak_service P (fst st) request) st) (\<lambda>_ st.
    and_then (get_database (lookup_identity_by_email (pf_postgres P) em) st) (\<lambda>identity st.
      pure (found_or_404 identity) st))"

definition lookup_identity_by_external_id_route ::
  "('r, 'j) platform \<Rightarrow> http_request \<Rightarrow> account_type \<Rightarrow> int \<Rightarrow> app_state \<times> 'r
    \<Rightarrow> (exn, app_state \<times> 'r, identity_response) outcome" where
  "lookup_identity_by_external_id_route P request account_type database_id st =
    and_then (pure (require_keycloak_service P (fst st) request) st) (\<lambda>_ st.
    and_then (get_database (lookup_identity_by_external_id (pf_postgres P) account_type database_id) st)
      (\<lambda>identity st. pure (found_or_404 identity) st))"

definition credentials_detail :: string where
  "credentials_detail = ''Credenciais inv'' @ [CHR 0xE1] @ ''lidas.''"

definition verify_internal_credentials ::
  "('r, 'j) platform \<Rightarrow> http_request \<Rightarrow> credential_request \<Rightarrow> app_state \<times> 'r
    \<Rightarrow> (exn, app_state \<times> 'r, credential_response) outcome" where
  "verify_internal_credentials P request payload st =
    and_then (pure (require_keycloak_service P (fst st) request) st) (\<lambda>_ st.
      case auth_verify P payload st of
        (Inl InvalidCredentialsError, st1) \<Rightarrow> (Inl (HTTPException 403 credentials_detail []), st1)
      | (res, st1) \<Rightarrow> (res, st1))"

end
