(* ===== verification/App.thy ===== *)
theory App
  imports Routes
begin

text \<open>
  \<open>app/main.py\<close>: building the application from the settings, the routers, the exception
  handlers, the two middlewares, and the shutdown. A request reaches the model with its body
  and parameters validated, as a \<open>call\<close>; what the framework answers by itself (404, 405, 422)
  is the call \<open>Call_rejected\<close>. The CORS middleware is library code and is not modelled.
\<close>

section \<open>Building the application\<close>

text \<open>\<open>env\<close> is the environment, \<open>read_settings\<close> what pydantic-settings makes of it.\<close>

definition create_app :: "settings \<Rightarrow> exn + app_state" where
  "create_app cfg =
    (let database = init_database cfg;
         email_otp_service = init_otp cfg;
         password_reset_service = init_reset_service cfg database email_otp_service NoClient
     in case init_verifier cfg None None of
          Inl e \<Rightarrow> Inl e
        | Inr service_token_verifier \<Rightarrow>
            (case init_verifier cfg (Some (keycloak_metrics_audience cfg))
                    (Some (metrics_keycloak_authorized_party cfg)) of
               Inl e \<Rightarrow> Inl e
             | Inr metrics_token_verifier \<Rightarrow>
                 Inr \<lparr>ap_settings = cfg, ap_limiter = init_limiter cfg, ap_reset = password_reset_service,
                      ap_broker = init_broker cfg, ap_service_verifier = service_token_verifier,
                      ap_metrics_verifier = metrics_token_verifier, ap_registry = []\<rparr>))"

definition resolve_dependencies ::
  "(string \<Rightarrow> string list \<Rightarrow> exn + (string \<times> string) list) \<Rightarrow> (environ \<Rightarrow> exn + settings)
    \<Rightarrow> settings option \<Rightarrow> environ \<Rightarrow> (exn, environ, app_state) outcome" where
  "resolve_dependencies client read_settings cfg env =
    and_then
      (case cfg of
         Some s \<Rightarrow> (Inr s, env)
       | None \<Rightarrow> and_then (load_infisical_secrets client env) (\<lambda>_ env. (read_settings env, env)))
      (\<lambda>s env. (create_app s, env))"

section \<open>Calls and responses\<close>

datatype call =
    Call_root
  | Call_health
  | Call_metrics
  | Call_ready
  | Call_credentials_verify credential_request
  | Call_login_start token_login_request
  | Call_login_verify native_login_verify_request
  | Call_web_login_verify native_login_verify_request
  | Call_web_refresh
  | Call_web_logout
  | Call_token token_login_request
  | Call_token_refresh token_refresh_request
  | Call_reset_start reset_start_request
  | Call_reset_verify reset_verify_request
  | Call_reset_confirm reset_confirm_request
  | Call_internal_by_email string
  | Call_internal_by_id account_type int
  | Call_internal_verify credential_request
  | Call_rejected int

datatype http_body =
    Info "(string \<times> string) list"
  | Status_ok string
  | Samples registry
  | Credentials credential_response
  | Login_started login_start_response
  | Tokens keycloak_token_response
  | Web_tokens web_access_token_response
  | Reset_started reset_start_response
  | Reset_token reset_verify_response
  | Message string
  | Identity identity_response
  | Detail string
  | Empty_body

record http_response =
  hr_status :: int
  hr_body :: http_body
  hr_headers :: "(string \<times> string) list"
  hr_cookies :: "cookie list"

definition respond :: "int \<Rightarrow> http_body \<Rightarrow> cookie list \<Rightarrow> http_response" where
  "respond status body cookies =
     \<lparr>hr_status = status, hr_body = body, hr_headers = [], hr_cookies = cookies\<rparr>"

definition JSONResponse :: "int \<Rightarrow> string \<Rightarrow> (string \<times> string) list \<Rightarrow> http_response" where
  "JSONResponse status detail headers =
     \<lparr>hr_status = status, hr_body = Detail detail, hr_headers = headers, hr_cookies = []\<rparr>"

definition answer :: "('a \<Rightarrow> http_body) \<Rightarrow> (exn, 's, 'a) outcome \<Rightarrow> (exn, 's, http_response) outcome" where
  "answer body m = and_then m (\<lambda>v st. (Inr (respond 200 (body v) []), st))"

definition answer_web ::
  "(exn, 's, web_access_token_response \<times> cookie list) outcome \<Rightarrow> (exn, 's, http_response) outcome" where
  "answer_web m = and_then m (\<lambda>(v, cookies) st. (Inr (respond 200 (Web_tokens v) cookies), st))"

fun run_call ::
  "('r, 'j) platform \<Rightarrow> draws \<Rightarrow> http_request \<Rightarrow> call \<Rightarrow> app_state \<times> 'r
    \<Rightarrow> (exn, app_state \<times> 'r, http_response) outcome" where
  "run_call P d rq Call_root st = (Inr (respond 200 (Info root) []), st)"
| "run_call P d rq Call_health st = (Inr (respond 200 (Status_ok health) []), st)"
| "run_call P d rq Call_metrics st = answer Samples (metrics P rq st)"
| "run_call P d rq Call_ready st = answer Status_ok (ready P st)"
| "run_call P d rq (Call_credentials_verify p) st = answer Credentials (verify_credentials_route P d rq p st)"
| "run_call P d rq (Call_login_start p) st = answer Login_started (start_native_login P d rq p st)"
| "run_call P d rq (Call_login_verify p) st = answer Tokens (verify_native_login P d p st)"
| "run_call P d rq (Call_web_login_verify p) st = answer_web (verify_web_login P d rq p st)"
| "run_call P d rq Call_web_refresh st = answer_web (refresh_web_session P rq st)"
| "run_call P d rq Call_web_logout st =
     and_then (logout_web_session rq st) (\<lambda>cookies st. (Inr (respond 204 Empty_body cookies), st))"
| "run_call P d rq (Call_token p) st = answer Tokens (issue_keycloak_token P d rq p st)"
| "run_call P d rq (Call_token_refresh p) st = answer Tokens (refresh_keycloak_token P p st)"
| "run_call P d rq (Call_reset_start p) st = answer Reset_started (start_password_reset_route P d rq p st)"
| "run_call P d rq (Call_reset_verify p) st = answer Reset_token (verify_password_reset_route P d p st)"
| "run_call P d rq (Call_reset_confirm p) st = answer Message (confirm_password_reset P d p st)"
| "run_call P d rq (Call_internal_by_email em) st = answer Identity (lookup_identity_by_email_route P rq em st)"
| "run_call P d rq (Call_internal_by_id a i) st = answer Identity (lookup_identity_by_external_id_route P rq a i st)"
| "run_call P d rq (Call_internal_verify p) st = answer Credentials (verify_internal_credentials P rq p st)"
| "run_call P d rq (Call_rejected status) st = (Inr (respond status Empty_body []), st)"

section \<open>Exception handlers\<close>

definition temporarily_unavailable :: "string \<Rightarrow> string" where
  "temporarily_unavailable what = what @ '' temporariamente indispon'' @ [CHR 0xED] @ ''vel.''"

definition broker_detail :: string where
  "broker_detail = temporarily_unavailable (''Autentica'' @ [CHR 0xE7, CHR 0xE3] @ ''o'')"

definition otp_detail :: string where
  "otp_detail = ''C'' @ [CHR 0xF3] @ ''digo inv'' @ [CHR 0xE1] @ ''lido ou expirado.''"

definition otp_unavailable_detail :: string where
  "otp_unavailable_detail = temporarily_unavailable (''Verifica'' @ [CHR 0xE7, CHR 0xE3] @ ''o por e-mail'')"

definition ambiguous_detail :: string where
  "ambiguous_detail = ''As credenciais correspondem a mais de uma conta. Informe account_type.''"

definition rate_limit_detail :: string where
  "rate_limit_detail = ''Muitas tentativas. Tente novamente mais tarde.''"

definition reset_otp_detail :: string where
  "reset_otp_detail = ''C'' @ [CHR 0xF3] @ ''digo inv'' @ [CHR 0xE1] @ ''lido, incorreto ou expirado.''"

definition reset_attempts_detail :: string where
  "reset_attempts_detail = ''N'' @ [CHR 0xFA] @ ''mero m'' @ [CHR 0xE1] @ ''ximo de tentativas de digita''
     @ [CHR 0xE7, CHR 0xE3] @ ''o do c'' @ [CHR 0xF3] @ ''digo excedido.''"

definition reset_unavailable_detail :: string where
  "reset_unavailable_detail = temporarily_unavailable (''Servi'' @ [CHR 0xE7] @ ''o de recupera''
     @ [CHR 0xE7, CHR 0xE3] @ ''o de senha'')"

definition py_str_int :: "int \<Rightarrow> string" where
  "py_str_int i = (if i < 0 then ''-'' else []) @ decimal (nat \<bar>i\<bar>)"

text \<open>The registered handlers; \<open>None\<close>: no handler, the exception leaves the application.\<close>

fun exception_response :: "exn \<Rightarrow> http_response option" where
  "exception_response (KeycloakTokenBrokerUnavailable _) = Some (JSONResponse 503 broker_detail [])"
| "exception_response EmailOtpInvalidError = Some (JSONResponse 401 otp_detail [])"
| "exception_response (EmailOtpUnavailable _) = Some (JSONResponse 503 otp_unavailable_detail [])"
| "exception_response InvalidCredentialsError = Some (JSONResponse 401 credentials_detail [])"
| "exception_response AmbiguousIdentityError = Some (JSONResponse 409 ambiguous_detail [])"
| "exception_response (RateLimitExceeded retry_after) =
     Some (JSONResponse 429 rate_limit_detail [(''Retry-After'', py_str_int retry_after)])"
| "exception_response PasswordResetOtpInvalidError = Some (JSONResponse 400 reset_otp_detail [])"
| "exception_response PasswordResetOtpAttemptsExceededError = Some (JSONResponse 429 reset_attempts_detail [])"
| "exception_response (PasswordResetTokenInvalidError m) =
     Some (JSONResponse 400 (if m = [] then reset_token_detail else m) [])"
| "exception_response (PasswordResetSpringError detail status) = Some (JSONResponse status detail [])"
| "exception_response (PasswordResetUnavailable _) = Some (JSONResponse 503 reset_unavailable_detail [])"
| "exception_response (HTTPException status detail headers) = Some (JSONResponse status detail headers)"
| "exception_response _ = None"

definition handle_exceptions ::
  "(exn, app_state \<times> 'r, http_response) outcome \<Rightarrow> (exn, app_state \<times> 'r, http_response) outcome" where
  "handle_exceptions m =
    (case m of
       (Inr response, st) \<Rightarrow> (Inr response, st)
     | (Inl e, a, r) \<Rightarrow>
         (case exception_response e of
            None \<Rightarrow> (Inl e, a, r)
          | Some response \<Rightarrow>
              (Inr response,
               (case e of RateLimitExceeded _ \<Rightarrow> a\<lparr>ap_registry := ap_registry a @ [RATE_LIMIT_HITS]\<rparr> | _ \<Rightarrow> a),
               r)))"

section \<open>Middlewares\<close>

definition password_broker_cutover_guard ::
  "string \<Rightarrow> string \<Rightarrow> (app_state \<times> 'r \<Rightarrow> (exn, app_state \<times> 'r, http_response) outcome)
    \<Rightarrow> app_state \<times> 'r \<Rightarrow> (exn, app_state \<times> 'r, http_response) outcome" where
  "password_broker_cutover_guard request_method path call_next st =
    (if \<not> keycloak_password_broker_enabled (ap_settings (fst st)) \<and> request_method = ''POST'' \<and> path = ''/v1/auth/token''
     then (Inr (JSONResponse 404 ''Not Found'' []), st) else call_next st)"

text \<open>\<open>duration\<close> is the time the request took.\<close>

definition prometheus_request_metrics ::
  "string \<Rightarrow> string \<Rightarrow> seconds \<Rightarrow> (app_state \<times> 'r \<Rightarrow> (exn, app_state \<times> 'r, http_response) outcome)
    \<Rightarrow> app_state \<times> 'r \<Rightarrow> (exn, app_state \<times> 'r, http_response) outcome" where
  "prometheus_request_metrics request_method path duration call_next st =
    (case call_next st of
       (res, a, r) \<Rightarrow>
         (res,
          a\<lparr>ap_registry := record_request request_method path
              (case res of Inr response \<Rightarrow> hr_status response | Inl _ \<Rightarrow> 500) duration (ap_registry a)\<rparr>,
          r))"

text \<open>
  One request. The middleware added last runs outermost; an exception without a handler
  becomes the plain 500 of the framework.
\<close>

definition serve ::
  "('r, 'j) platform \<Rightarrow> draws \<Rightarrow> string \<Rightarrow> string \<Rightarrow> seconds \<Rightarrow> http_request \<Rightarrow> call
    \<Rightarrow> app_state \<times> 'r \<Rightarrow> http_response \<times> app_state \<times> 'r" where
  "serve P d request_method path duration rq call st =
    (case prometheus_request_metrics request_method path duration
            (password_broker_cutover_guard request_method path
              (\<lambda>st. handle_exceptions (run_call P d rq call st))) st of
       (Inr response, st1) \<Rightarrow> (response, st1)
     | (Inl _, st1) \<Rightarrow> (respond 500 (Message ''Internal Server Error'') [], st1))"

section \<open>Shutdown\<close>

definition app_shutdown ::
  "('r, 'j) platform \<Rightarrow> app_state \<times> 'r \<Rightarrow> (exn, app_state \<times> 'r, unit) outcome" where
  "app_shutdown P st =
    and_then (get_password_reset_service (\<lambda>(s, r). (Inr (), ps_close s, r)) st) (\<lambda>_ st.
    and_then
      (get_email_otp_service
        (otp_close (pf_redis P) (send_password_reset_email (ap_settings (fst st)) (pf_smtp P))) st) (\<lambda>_ st.
    and_then (get_rate_limiter (\<lambda>(l, r). (Inr (), lim_close l, r)) st) (\<lambda>_ st.
      get_database (\<lambda>d. (Inr (), db_close d)) st)))"

end
