(* ===== verification/RouteProps.thy ===== *)
theory RouteProps
  imports App
begin

text \<open>
  Properties of the routes: what a browser session may be given and to whom, which routes need
  a service token, what a login start tells about accounts, and what a token response proves.
\<close>

section \<open>Calls of the components\<close>

lemma get_rate_limiter_eq [simp]:
  "get_rate_limiter f (a, r) =
    (fst (f (ap_limiter a, r)), a\<lparr>ap_limiter := fst (snd (f (ap_limiter a, r)))\<rparr>, snd (snd (f (ap_limiter a, r))))"
  by (simp add: get_rate_limiter_def split: prod.splits)

lemma get_password_reset_service_eq [simp]:
  "get_password_reset_service f (a, r) =
    (fst (f (ap_reset a, r)), a\<lparr>ap_reset := fst (snd (f (ap_reset a, r)))\<rparr>, snd (snd (f (ap_reset a, r))))"
  by (simp add: get_password_reset_service_def split: prod.splits)

lemma get_email_otp_service_eq [simp]:
  "get_email_otp_service f (a, r) =
    (fst (f (ap_otp a, r)), a\<lparr>ap_reset := (ap_reset a)\<lparr>ps_otp := fst (snd (f (ap_otp a, r)))\<rparr>\<rparr>,
     snd (snd (f (ap_otp a, r))))"
  by (simp add: get_email_otp_service_def with_otp_def split: prod.splits)

lemma get_auth_service_eq [simp]:
  "get_auth_service f (a, r) =
    (fst (f (ap_db a, [])), a\<lparr>ap_reset := (ap_reset a)\<lparr>ps_db := fst (snd (f (ap_db a, [])))\<rparr>\<rparr>, r)"
  by (simp add: get_auth_service_def get_database_def split: prod.splits)

lemma get_database_eq [simp]:
  "get_database f (a, r) =
    (fst (f (ap_db a)), a\<lparr>ap_reset := (ap_reset a)\<lparr>ps_db := snd (f (ap_db a))\<rparr>\<rparr>, r)"
  by (simp add: get_database_def split: prod.splits)

lemma get_token_broker_eq [simp]:
  "get_token_broker f (a, r) = (fst (f (ap_broker a) r), a, snd (f (ap_broker a) r))"
  by (simp add: get_token_broker_def split: prod.splits)

lemma pure_simps [simp]: "pure (Inl e) st = (Inl e, st)" "pure (Inr v) st = (Inr v, st)"
  by (simp_all add: pure_def)

lemma pure_eq_Inr [simp]: "pure res st = (Inr v, st') \<longleftrightarrow> res = Inr v \<and> st' = st"
  by (auto simp: pure_def)

section \<open>An example platform\<close>

text \<open>Keycloak of the example answers every grant with one access token, which passes the local check.\<close>

definition example_token_body :: pyval where
  "example_token_body = PDict [(''access_token'', PStr ''at''), (''expires_in'', PInt 300),
     (''refresh_expires_in'', PInt 0), (''refresh_token'', PStr ''rt''), (''token_type'', PStr ''Bearer'')]"

definition example_platform :: "((string \<times> pyval) list, pyval) platform" where
  "example_platform = \<lparr>pf_redis = example_redis, pf_codec = example_codec, pf_hmac = example_hash,
     pf_sha256 = (\<lambda>s. s), pf_postgres = example_postgres, pf_checkpw = example_checkpw,
     pf_dummy_hash = ''$2b$dummy'',
     pf_jwt = \<lparr>jw_encode = (\<lambda>_ _. ''jwt''), jw_decode = (\<lambda>_ _ _ _. None)\<rparr>, pf_repr = (\<lambda>_. []),
     pf_jwks_decode = (\<lambda>_ _ _. Inr example_access_claims), pf_field_int = as_int,
     pf_keycloak = (\<lambda>_ _ r. (TokenReply 200 (Some example_token_body), r)),
     pf_spring = (\<lambda>_ r. (Status 200, r)), pf_smtp = (\<lambda>_. Inr ()), pf_service_decode = (\<lambda>_ _ _. Inl InvalidTokenError)\<rparr>"

definition example_draws :: draws where
  "example_draws = \<lparr>dr_token = ''challenge-0123456789'', dr_decoy = ''decoy-0123456789abcd'', dr_number = 42,
     dr_jti = ''jti'', dr_time = (\<lambda>_. 100), dr_monotonic = (\<lambda>_. 7)\<rparr>"

definition example_app :: app_state where
  "example_app = \<lparr>ap_settings = example_settings, ap_limiter = init_limiter example_settings,
     ap_reset = init_reset_service example_settings \<lparr>db_settings = example_settings, db_pool = True\<rparr>
       (init_otp example_settings) NoClient,
     ap_broker = (init_broker example_settings)\<lparr>kb_client_secret := Some ''secret''\<rparr>,
     ap_service_verifier = \<lparr>sv_issuer = ''i'', sv_audience = ''a'', sv_client_id = ''c''\<rparr>,
     ap_metrics_verifier = \<lparr>sv_issuer = ''i'', sv_audience = ''a'', sv_client_id = ''c''\<rparr>, ap_registry = []\<rparr>"

definition example_browser :: http_request where
  "example_browser = \<lparr>rq_client = Some ''10.0.0.1'', rq_headers = [(''origin'', ''http://localhost:5173/'')],
     rq_scheme = ''https'', rq_cookies = [(''ouros_web_refresh'', ''rt0'')], rq_json = None\<rparr>"

section \<open>Browser sessions\<close>

text \<open>C18: The three browser routes accept a request exactly when it has an \<open>Origin\<close> header which,
  without trailing slashes, is a non-empty entry of the allowed origins; any other request gets
  403 and changes nothing: no code is checked, no token requested, no cookie cleared.\<close>

theorem web_origin_guard:
  "(require_web_origin rq cfg = Inr () \<longleftrightarrow>
     (\<exists>h. map_of (rq_headers rq) ''origin'' = Some h \<and> py_rstrip_char (CHR ''/'') h \<noteq> [] \<and>
        py_rstrip_char (CHR ''/'') h \<in> set (web_allowed_origins cfg))) \<and>
   (require_web_origin rq (ap_settings a) = Inr () \<or>
     (let refused = (Inl (HTTPException 403 origin_detail []), a, r)
      in run_call P d rq (Call_web_login_verify p) (a, r) = refused \<and>
         run_call P d rq Call_web_refresh (a, r) = refused \<and>
         run_call P d rq Call_web_logout (a, r) = refused))"
proof -
  have "py_rstrip_char (CHR ''/'') [] = []" by (simp add: py_rstrip_char_def drop_end_def)
  then have "require_web_origin rq cfg = Inr () \<longleftrightarrow>
     (\<exists>h. map_of (rq_headers rq) ''origin'' = Some h \<and> py_rstrip_char (CHR ''/'') h \<noteq> [] \<and>
        py_rstrip_char (CHR ''/'') h \<in> set (web_allowed_origins cfg))"
    by (auto simp: require_web_origin_def request_origin_def split: option.splits)
  moreover have "require_web_origin rq (ap_settings a) = Inr () \<or>
      require_web_origin rq (ap_settings a) = Inl (HTTPException 403 origin_detail [])"
    by (simp add: require_web_origin_def)
  ultimately show ?thesis
    by (auto simp: verify_web_login_def refresh_web_session_def logout_web_session_def answer_web_def Let_def)
qed

lemma answer_InrE:
  assumes "answer body m = (Inr response, st')"
  obtains v where "m = (Inr v, st')" and "response = respond 200 (body v) []"
  using assms unfolding answer_def by (elim and_then_InrE) simp

lemma fst_answer [simp]: "fst (answer body m) = Inl e \<longleftrightarrow> fst m = Inl e"
  by (cases m; cases "fst m") (auto simp: answer_def)

lemma answer_error: "answer body (Inl e, st) = (Inl e, st)"
  by (simp add: answer_def)

lemma answer_cookies: "answer body m = (Inr response, st') \<Longrightarrow> hr_cookies response = []"
  by (elim answer_InrE) (simp add: respond_def)

lemma set_web_refresh_cookie_in:
  "ck \<in> set (set_web_refresh_cookie token cfg rq) \<longleftrightarrow>
    (\<exists>value. kt_refresh_token token = Some value \<and> value \<noteq> [] \<and>
       ck = refresh_cookie value (nonzero (kt_refresh_expires_in token)) (is_secure_request rq cfg))"
  by (auto simp: set_web_refresh_cookie_def str_falsy_iff)

lemma nonzero_not_0: "nonzero v \<noteq> Some 0"
  by (simp add: nonzero_def split: option.splits)

lemma verify_web_login_settings:
  "verify_web_login P d rq p (a, r) = (Inr (v, cookies), st') \<Longrightarrow>
    require_web_origin rq (ap_settings a) = Inr () \<and>
    (\<exists>token. v = web_access_token_response token \<and> cookies = set_web_refresh_cookie token (ap_settings a) (Some rq))"
  by (auto simp: verify_web_login_def otp_check_def broker_password_def require_web_origin_def elim!: and_then_InrE
      split: if_splits)

lemma refresh_web_session_settings:
  "refresh_web_session P rq (a, r) = (Inr (v, cookies), st') \<Longrightarrow>
    require_web_origin rq (ap_settings a) = Inr () \<and>
    (\<exists>token. v = web_access_token_response token \<and> cookies = set_web_refresh_cookie token (ap_settings a) (Some rq))"
  by (auto simp: refresh_web_session_def broker_refresh_def require_web_origin_def elim!: and_then_InrE
      split: if_splits)

lemma answer_web_InrE:
  assumes "answer_web m = (Inr response, st')"
  obtains v cookies where "m = (Inr (v, cookies), st')" and "response = respond 200 (Web_tokens v) cookies"
  using assms unfolding answer_web_def by (elim and_then_InrE) (auto split: prod.splits)

text \<open>The calls that answer cookies.\<close>

lemma run_call_cookies:
  assumes "run_call P d rq c (a, r) = (Inr response, st')" "hr_cookies response \<noteq> []"
  shows "require_web_origin rq (ap_settings a) = Inr () \<and>
    (c = Call_web_logout \<and>
       hr_cookies response = [refresh_cookie [] (Some 0) (is_secure_request (Some rq) (ap_settings a))] \<or>
     c \<noteq> Call_web_logout \<and>
       (\<exists>token. hr_body response = Web_tokens (web_access_token_response token) \<and>
          hr_cookies response = set_web_refresh_cookie token (ap_settings a) (Some rq)))"
proof (cases c)
  case (Call_web_login_verify p)
  with assms(1) obtain v cookies where "verify_web_login P d rq p (a, r) = (Inr (v, cookies), st')"
      "response = respond 200 (Web_tokens v) cookies"
    by (auto elim: answer_web_InrE)
  then show ?thesis using Call_web_login_verify by (auto dest!: verify_web_login_settings simp: respond_def)
next
  case Call_web_refresh
  with assms(1) obtain v cookies where "refresh_web_session P rq (a, r) = (Inr (v, cookies), st')"
      "response = respond 200 (Web_tokens v) cookies"
    by (auto elim: answer_web_InrE)
  then show ?thesis using Call_web_refresh by (auto dest!: refresh_web_session_settings simp: respond_def)
next
  case Call_web_logout
  with assms(1) show ?thesis
    by (auto simp: logout_web_session_def respond_def require_web_origin_def split: if_splits)
qed (use assms in \<open>auto dest: answer_cookies simp: respond_def\<close>)

text \<open>C17: Every cookie any route sets is the refresh cookie, set for an allowed origin only: hidden
  from scripts, restricted to the browser routes, and secure exactly when the request is HTTPS, by
  the forwarded protocol if the proxy names one and otherwise by the scheme, or the environment is
  not a development one; it is cross-site exactly when it is secure. Other than at logout it holds
  a non-empty refresh token which the JSON body does not repeat, and never the lifetime 0 that
  would delete it at once.\<close>

theorem refresh_cookie_protected:
  assumes "run_call P d rq c (a, r) = (Inr response, st')" and "ck \<in> set (hr_cookies response)"
  shows "require_web_origin rq (ap_settings a) = Inr () \<and> ck_key ck = ''ouros_web_refresh'' \<and> ck_httponly ck \<and>
    ck_path ck = ''/v1/auth/web'' \<and>
    (ck_secure ck \<longleftrightarrow>
      (case map_of (rq_headers rq) ''x-forwarded-proto'' of
         Some proto \<Rightarrow> py_lower proto = ''https'' | None \<Rightarrow> py_lower (rq_scheme rq) = ''https'') \<or>
      py_lower (environment (ap_settings a)) \<notin> {''development'', ''dev'', ''local''}) \<and>
    ck_samesite ck = (if ck_secure ck then ''none'' else ''lax'') \<and>
    (if c = Call_web_logout then ck_value ck = [] \<and> ck_max_age ck = Some 0
     else \<exists>token. hr_body response = Web_tokens (web_access_token_response token) \<and>
       kt_refresh_token token = Some (ck_value ck) \<and> ck_value ck \<noteq> [] \<and> ck_max_age ck \<noteq> Some 0)"
proof -
  have secure: "is_secure_request (Some rq) (ap_settings a) \<longleftrightarrow>
      (case map_of (rq_headers rq) ''x-forwarded-proto'' of
         Some proto \<Rightarrow> py_lower proto = ''https'' | None \<Rightarrow> py_lower (rq_scheme rq) = ''https'') \<or>
      py_lower (environment (ap_settings a)) \<notin> {''development'', ''dev'', ''local''}"
    by (auto simp: is_secure_request_def split: option.splits)
  from assms(2) have "hr_cookies response \<noteq> []" by auto
  note cookies = run_call_cookies [OF assms(1) this]
  show ?thesis
  proof (cases "c = Call_web_logout")
    case True
    with cookies assms(2) have "ck = refresh_cookie [] (Some 0) (is_secure_request (Some rq) (ap_settings a))"
      by simp
    with cookies True show ?thesis
      unfolding secure [symmetric] by (simp add: refresh_cookie_def WEB_REFRESH_COOKIE_def)
  next
    case False
    with cookies obtain token where body: "hr_body response = Web_tokens (web_access_token_response token)"
      and "hr_cookies response = set_web_refresh_cookie token (ap_settings a) (Some rq)" by blast
    with assms(2) obtain v where v: "kt_refresh_token token = Some v" "v \<noteq> []"
      and "ck = refresh_cookie v (nonzero (kt_refresh_expires_in token)) (is_secure_request (Some rq) (ap_settings a))"
      by (auto simp: set_web_refresh_cookie_in)
    with cookies False body v show ?thesis
      unfolding secure [symmetric] by (auto simp: refresh_cookie_def WEB_REFRESH_COOKIE_def nonzero_not_0)
  qed
qed

definition example_tokens :: keycloak_token_response where
  "example_tokens = \<lparr>kt_access_token = ''at'', kt_expires_in = 300, kt_refresh_expires_in = Some 0,
     kt_refresh_token = Some ''rt'', kt_token_type = ''Bearer'', kt_scope = None\<rparr>"

lemma example_contract:
  "validate_access_token_contract (\<lambda>_ _ _. Inr example_access_claims)
     ((init_broker example_settings)\<lparr>kb_client_secret := Some ''secret''\<rparr>) t = Inr example_access_claims"
  by code_simp

lemma example_body: "model_validate as_int example_token_body = Some example_tokens"
  by code_simp

lemma example_broker [simp]:
  "broker_password example_platform credentials (a\<lparr>ap_broker := ap_broker example_app\<rparr>, r) =
     (Inr example_tokens, a\<lparr>ap_broker := ap_broker example_app\<rparr>, r)"
  "broker_refresh example_platform payload (a\<lparr>ap_broker := ap_broker example_app\<rparr>, r) =
     (Inr example_tokens, a\<lparr>ap_broker := ap_broker example_app\<rparr>, r)"
  using example_contract example_body
  by (simp_all add: broker_password_def broker_refresh_def issue_password_token_def refresh_token_def
      exchange_token_def example_platform_def example_app_def example_tokens_def)

lemma example_broker_app [simp]:
  "broker_password example_platform credentials (example_app, r) = (Inr example_tokens, example_app, r)"
  "broker_refresh example_platform payload (example_app, r) = (Inr example_tokens, example_app, r)"
  using example_broker [where a = example_app and r = r] by (simp_all add: example_app_def)

lemma example_origin [simp]: "require_web_origin example_browser example_settings = Inr ()"
  by code_simp

theorem refresh_cookie_protected_witness:
  "\<exists>response ck. run_call example_platform example_draws example_browser Call_web_refresh (example_app, [])
     = (Inr response, example_app, []) \<and> hr_cookies response = [ck] \<and> ck_httponly ck \<and> ck_secure ck \<and>
     ck_samesite ck = ''none'' \<and> ck_value ck = ''rt'' \<and> ck_max_age ck \<noteq> Some 0"
proof -
  have settings: "ap_settings example_app = example_settings" by (simp add: example_app_def)
  have token: "web_refresh_token (pf_repr example_platform) example_browser = Some ''rt0''"
    by (simp add: web_refresh_token_def example_browser_def WEB_REFRESH_COOKIE_def)
  define ck where "ck = refresh_cookie ''rt'' None (is_secure_request (Some example_browser) example_settings)"
  define response where "response = respond 200 (Web_tokens (web_access_token_response example_tokens)) [ck]"
  have run: "run_call example_platform example_draws example_browser Call_web_refresh (example_app, [])
      = (Inr response, example_app, [])"
    by (simp add: refresh_web_session_def settings token mk_token_refresh_request_def validate_refresh_token_def
        answer_web_def response_def ck_def set_web_refresh_cookie_def example_tokens_def nonzero_def)
  have cookies: "hr_cookies response = [ck]" by (simp add: response_def respond_def)
  have https: "py_lower ''https'' = ''https''" by code_simp
  have "ck_httponly ck \<and> ck_secure ck \<and> ck_samesite ck = ''none'' \<and> ck_max_age ck \<noteq> Some 0"
    using refresh_cookie_protected [OF run, of ck] cookies by (auto simp: example_browser_def https)
  moreover have "ck_value ck = ''rt''" by (simp add: ck_def refresh_cookie_def)
  ultimately show ?thesis using run cookies by blast
qed

section \<open>Service routes\<close>

lemma verify_header_error:
  "verify_authorization_header decode v header = Inl e \<Longrightarrow>
    (\<exists>m. e = ServiceAuthenticationError m) \<or> (\<exists>j. e = JwtError j)"
proof (rule verify_authorization_header_cases [of header decode v])
  fix token
  assume "verify_authorization_header decode v header = Inl e"
    and "verify_authorization_header decode v header = decode_service_token decode v token"
  then show ?thesis using decode_service_token_cases(3) by metis
qed auto

lemma require_bearer_cases:
  "require_bearer detail decode v rq =
    (case verify_authorization_header decode v (map_of (rq_headers rq) ''authorization'') of
       Inr _ \<Rightarrow> Inr ()
     | Inl (JwtError j) \<Rightarrow> Inl (JwtError j)
     | Inl _ \<Rightarrow> Inl (HTTPException 401 detail bearer_challenge))"
  by (cases "verify_authorization_header decode v (map_of (rq_headers rq) ''authorization'')")
    (auto simp: require_bearer_def dest!: verify_header_error)

lemma require_bearer_401:
  "require_bearer detail decode v rq = Inl e \<Longrightarrow>
    e = HTTPException 401 detail bearer_challenge \<or> (\<exists>j. e = JwtError j)"
  by (auto simp: require_bearer_cases split: sum.splits exn.splits)

lemma require_bearer_refusal:
  "verify_authorization_header decode v (map_of (rq_headers rq) ''authorization'') = Inl e \<Longrightarrow>
    require_bearer detail decode v rq =
      Inl (case e of JwtError j \<Rightarrow> JwtError j | _ \<Rightarrow> HTTPException 401 detail bearer_challenge)"
  by (cases e) (simp_all add: require_bearer_cases)


section \<open>Logins\<close>

lemma issue_password_token_InrE:
  assumes "issue_password_token decode as_field_int kc b credentials r = (Inr token, r')"
  obtains secret body claims where "kb_client_secret b = Some secret"
    and "kc (kb_token_url b) (password_form b secret (tl_email credentials) (tl_password credentials)) r
      = (TokenReply 200 (Some body), r')"
    and "model_validate as_field_int body = Some token"
    and "validate_access_token_contract decode b (kt_access_token token) = Inr claims"
  using assms unfolding issue_password_token_def exchange_token_def password_form_def [symmetric]
  by (auto split: option.splits prod.splits token_reply.splits if_splits sum.splits exn.splits jwt_error.splits
      simp: bind_eq_Some_conv)

lemma mk_token_login_request_InrD:
  "mk_token_login_request em password = Inr t \<Longrightarrow>
    tl_email t = py_lower (py_strip em) \<and> tl_password t = password"
  by (auto simp: mk_token_login_request_def validate_email_shape_def validate_password_length_def Let_def
      split: if_splits sum.splits prod.splits)

lemma otp_check_eq:
  "otp_check P d p (a, r) =
    (case otp_verify (pf_redis P) (pf_codec P) (pf_hmac P) (dr_time d 0, dr_time d 1, dr_time d 2)
            (nv_challenge_id p) (tl_email p) (nv_code p) (ap_otp a, r) of
       (res, o1, r1) \<Rightarrow> (res, a\<lparr>ap_reset := (ap_reset a)\<lparr>ps_otp := o1\<rparr>\<rparr>, r1))"
  by (simp add: otp_check_def split: prod.splits)

text \<open>What a completed second step went through, the same for both clients.\<close>

lemma login_verify_steps:
  assumes "run_call P d rq c (a, r) = (Inr response, a', r')"
    and "c = Call_login_verify p \<or> c = Call_web_login_verify p"
  obtains t token r1 where
    "otp_verify (pf_redis P) (pf_codec P) (pf_hmac P) (dr_time d 0, dr_time d 1, dr_time d 2)
       (nv_challenge_id p) (tl_email p) (nv_code p) (ap_otp a, r) = (Inr (), ap_otp a', r1)"
    and "mk_token_login_request (tl_email p) (tl_password p) = Inr t"
    and "issue_password_token (pf_jwks_decode P) (pf_field_int P) (pf_keycloak P) (ap_broker a) t r1 = (Inr token, r')"
    and "hr_body response = Tokens token \<or> hr_body response = Web_tokens (web_access_token_response token)"
proof -
  obtain token where run: "and_then (otp_check P d p (a, r)) (\<lambda>_ st.
      and_then (pure (mk_token_login_request (tl_email p) (tl_password p)) st) (\<lambda>credentials st.
        broker_password P credentials st)) = (Inr token, a', r')"
    and body: "hr_body response = Tokens token \<or> hr_body response = Web_tokens (web_access_token_response token)"
  proof (cases "c = Call_login_verify p")
    case True
    with assms(1) obtain token where "verify_native_login P d p (a, r) = (Inr token, a', r')"
        "response = respond 200 (Tokens token) []" by (auto elim: answer_InrE)
    then show thesis by (intro that [of token]) (simp_all add: verify_native_login_def respond_def)
  next
    case False
    with assms obtain v cookies where "verify_web_login P d rq p (a, r) = (Inr (v, cookies), a', r')"
        "response = respond 200 (Web_tokens v) cookies" by (auto elim: answer_web_InrE)
    then obtain token where "and_then (otp_check P d p (a, r)) (\<lambda>_ st.
        and_then (pure (mk_token_login_request (tl_email p) (tl_password p)) st) (\<lambda>credentials st.
          broker_password P credentials st)) = (Inr token, a', r')" "v = web_access_token_response token"
      unfolding verify_web_login_def by (auto elim!: and_then_InrE)
    with \<open>response = _\<close> show thesis by (intro that [of token]) (simp_all add: respond_def)
  qed
  obtain res o1 r1 where v: "otp_verify (pf_redis P) (pf_codec P) (pf_hmac P) (dr_time d 0, dr_time d 1, dr_time d 2)
       (nv_challenge_id p) (tl_email p) (nv_code p) (ap_otp a, r) = (res, o1, r1)" by (rule prod_cases3)
  then have check: "otp_check P d p (a, r) = (res, a\<lparr>ap_reset := (ap_reset a)\<lparr>ps_otp := o1\<rparr>\<rparr>, r1)"
    unfolding otp_check_eq by simp
  obtain t where "res = Inr ()" and t: "mk_token_login_request (tl_email p) (tl_password p) = Inr t"
    using run unfolding check by (cases res) (auto elim!: and_then_InrE)
  obtain res2 r2 where i: "issue_password_token (pf_jwks_decode P) (pf_field_int P) (pf_keycloak P) (ap_broker a) t r1
      = (res2, r2)" by (rule prod.exhaust)
  then have "res2 = Inr token" "r2 = r'" "ap_otp a' = o1"
    using run \<open>res = Inr ()\<close> t unfolding check by (auto simp: broker_password_def)
  with v body i t \<open>res = Inr ()\<close> show thesis by (intro that) auto
qed

text \<open>C2: The second step of a login, native or in the browser, answers tokens only after both
  factors: a stored challenge of the presented id with the same email, the keyed hash of the
  presented code, not expired, and removed before anything else; and then a password grant for that
  email and the presented password, which Keycloak answered with 200 and with exactly the token
  returned, and whose access token passed the local check. The direct token route, which takes the
  password alone while the broker is enabled, and the two refresh routes are not covered.\<close>

theorem tokens_need_code_and_password:
  assumes "run_call P d rq c (a, r) = (Inr response, a', r')"
    and "c = Call_login_verify p \<or> c = Call_web_login_verify p"
  shows "\<exists>rec st1 key expires_at r2 secret body token claims.
    otp_load (pf_redis P) (pf_codec P) None (nv_challenge_id p) (dr_time d 0) (ap_otp a, r) = (Inr (Some rec), st1) \<and>
    ouros_email_otp_hmac_secret (otp_settings (fst st1)) = Some key \<and>
    dget rec ''email'' = PStr (py_lower (py_strip (tl_email p))) \<and>
    dget rec ''code_digest'' = PStr (pf_hmac P key (nv_challenge_id p @ '':'' @ nv_code p)) \<and>
    as_int (dget rec ''expires_at'') = Some expires_at \<and> py_int (dr_time d 1) < expires_at \<and>
    otp_delete (pf_redis P) None (nv_challenge_id p) st1 = (Inr (), ap_otp a', r2) \<and>
    kb_client_secret (ap_broker a) = Some secret \<and>
    pf_keycloak P (kb_token_url (ap_broker a))
      (password_form (ap_broker a) secret (py_lower (py_strip (tl_email p))) (tl_password p)) r2
      = (TokenReply 200 (Some body), r') \<and>
    model_validate (pf_field_int P) body = Some token \<and>
    validate_access_token_contract (pf_jwks_decode P) (ap_broker a) (kt_access_token token) = Inr claims \<and>
    (hr_body response = Tokens token \<or> hr_body response = Web_tokens (web_access_token_response token))"
proof -
  obtain t token r1 where v: "otp_verify (pf_redis P) (pf_codec P) (pf_hmac P) (dr_time d 0, dr_time d 1, dr_time d 2)
       (nv_challenge_id p) (tl_email p) (nv_code p) (ap_otp a, r) = (Inr (), ap_otp a', r1)"
    and t: "mk_token_login_request (tl_email p) (tl_password p) = Inr t"
    and i: "issue_password_token (pf_jwks_decode P) (pf_field_int P) (pf_keycloak P) (ap_broker a) t r1 = (Inr token, r')"
    and body: "hr_body response = Tokens token \<or> hr_body response = Web_tokens (web_access_token_response token)"
    using login_verify_steps [OF assms] by blast
  obtain rec st1 where "otp_load (pf_redis P) (pf_codec P) None (nv_challenge_id p) (dr_time d 0) (ap_otp a, r)
      = (Inr (Some rec), st1)"
    and "verify_decide (pf_hmac P) (fst st1) (nv_challenge_id p) (tl_email p) (nv_code p) (dr_time d 1) rec = Accept"
    and "otp_delete (pf_redis P) None (nv_challenge_id p) st1 = (Inr (), ap_otp a', r1)"
    using v by (rule otp_verify_InrE)
  moreover obtain secret b claims where "kb_client_secret (ap_broker a) = Some secret"
    and "pf_keycloak P (kb_token_url (ap_broker a))
      (password_form (ap_broker a) secret (py_lower (py_strip (tl_email p))) (tl_password p)) r1
      = (TokenReply 200 (Some b), r')"
    and "model_validate (pf_field_int P) b = Some token"
    and "validate_access_token_contract (pf_jwks_decode P) (ap_broker a) (kt_access_token token) = Inr claims"
    using i mk_token_login_request_InrD [OF t] by (auto elim: issue_password_token_InrE)
  ultimately show ?thesis using body by (auto dest!: verify_decide_Accept)
qed

definition example_record :: pydict where
  "example_record = login_record ''challenge-0123456789:000042'' ''a@b.c'' 150"

definition example_waiting :: app_state where
  "example_waiting = example_app\<lparr>ap_reset := (ap_reset example_app)\<lparr>ps_otp :=
     otp_put 90 ''challenge-0123456789'' example_record (init_otp example_settings)\<rparr>\<rparr>"

definition example_second_step :: native_login_verify_request where
  "example_second_step = \<lparr>tl_email = ''a@b.c'', tl_password = ''secret'',
     nv_challenge_id = ''challenge-0123456789'', nv_code = ''000042''\<rparr>"

lemma example_native_login:
  "\<exists>o1. verify_native_login example_platform example_draws example_second_step (example_waiting, []) =
    (Inr example_tokens, example_waiting\<lparr>ap_reset := (ap_reset example_waiting)\<lparr>ps_otp := o1\<rparr>\<rparr>, [])"
proof -
  let ?s = "otp_put 90 ''challenge-0123456789'' example_record (init_otp example_settings)"
  have view: "otp_view 100 ?s ''challenge-0123456789'' = Some example_record"
    unfolding example_record_def
    by (rule challenges.view_put_same) (simp_all add: otp_in_memoryD live_typed [OF typed_login_record])
  have "verify_decide example_hash ?s ''challenge-0123456789'' ''a@b.c'' ''000042'' 100 example_record = Accept"
    by (simp add: verify_decide_def code_digest_def compare_digest_str_def Let_def dget_def example_record_def
        login_record_def example_hash_def) (simp add: is_ascii_def)
  with view obtain o1 where v: "otp_verify example_redis example_codec example_hash (100, 100, 100)
      ''challenge-0123456789'' ''a@b.c'' ''000042'' (?s, []) = (Inr (), o1, [])"
    by (simp add: otp_verify_memory)
  have t: "mk_token_login_request ''a@b.c'' ''secret'' = Inr \<lparr>tl_email = ''a@b.c'', tl_password = ''secret''\<rparr>"
    by code_simp
  let ?a = "example_waiting\<lparr>ap_reset := (ap_reset example_waiting)\<lparr>ps_otp := o1\<rparr>\<rparr>"
  have "ap_broker ?a = ap_broker example_app" by (simp add: example_waiting_def)
  then have keep: "?a\<lparr>ap_broker := ap_broker example_app\<rparr> = ?a" by simp
  have "otp_check example_platform example_draws example_second_step (example_waiting, []) = (Inr (), ?a, [])"
    using v by (simp add: otp_check_eq example_platform_def example_draws_def example_second_step_def example_waiting_def)
  then have "verify_native_login example_platform example_draws example_second_step (example_waiting, [])
      = (Inr example_tokens, ?a, [])"
    using example_broker(1) [where a = ?a and r = "[]"] t
    by (simp add: verify_native_login_def example_second_step_def keep)
  then show ?thesis by blast
qed

theorem tokens_need_code_and_password_witness:
  "\<exists>rec r2. dget rec ''email'' = PStr ''a@b.c'' \<and>
    pf_keycloak example_platform (kb_token_url (ap_broker example_waiting))
      (password_form (ap_broker example_waiting) ''secret'' ''a@b.c'' ''secret'') r2
      = (TokenReply 200 (Some example_token_body), [])"
proof -
  obtain o1 where "verify_native_login example_platform example_draws example_second_step (example_waiting, []) =
      (Inr example_tokens, example_waiting\<lparr>ap_reset := (ap_reset example_waiting)\<lparr>ps_otp := o1\<rparr>\<rparr>, [])"
    using example_native_login by blast
  then have run: "run_call example_platform example_draws example_browser (Call_login_verify example_second_step)
      (example_waiting, []) = (Inr (respond 200 (Tokens example_tokens) []),
        example_waiting\<lparr>ap_reset := (ap_reset example_waiting)\<lparr>ps_otp := o1\<rparr>\<rparr>, [])"
    by (simp add: answer_def)
  have "kb_client_secret (ap_broker example_waiting) = Some ''secret''"
    by (simp add: example_waiting_def example_app_def)
  with tokens_need_code_and_password [OF run, where p = example_second_step] show ?thesis
    by (auto simp: example_second_step_def example_platform_def)
qed

end
