(* ===== verification/AppProps.thy ===== *)
theory AppProps
  imports RouteProps
begin

text \<open>
  Properties of whole requests, through the middlewares and exception handlers: what a login
  start tells about accounts, the login flow from start to tokens, what an error answer can
  say, how requests are counted, the cutover of the password broker, and the shutdown.
\<close>

section \<open>Starting a login\<close>

lemma check_rules_result:
  "fst (check_rules R digest rules clock client em s) = Inr () \<or>
   (\<exists>n \<ge> 1. fst (check_rules R digest rules clock client em s) = Inl (RateLimitExceeded n))"
  by (auto simp: check_rules_def rate_limit_exceeded_def split: prod.splits)

lemma limit_credentials_cases:
  obtains (admitted) l r1 where "limit_credentials P d rq em (a, r) = (Inr (), a\<lparr>ap_limiter := l\<rparr>, r1)"
    | (limited) n l r1 where "1 \<le> n"
        "limit_credentials P d rq em (a, r) = (Inl (RateLimitExceeded n), a\<lparr>ap_limiter := l\<rparr>, r1)"
  using check_rules_result [of "pf_redis P" "pf_sha256 P" "lim_rules (ap_limiter a)" "dr_monotonic d"
      "rq_client rq" em "(ap_limiter a, r)"]
  unfolding limit_credentials_def check_credentials_attempt_def get_rate_limiter_eq fst_conv
  by blast

lemma limit_credentials_postgres [simp]:
  "limit_credentials (P\<lparr>pf_postgres := pg\<rparr>) = limit_credentials P"
  by (intro ext) (simp add: limit_credentials_def)

definition no_account_matches :: "('r, 'j) platform \<Rightarrow> postgres \<Rightarrow> string \<Rightarrow> string \<Rightarrow> bool" where
  "no_account_matches P pg em password \<longleftrightarrow>
    pg_statement pg = Inr () \<and>
    filter (\<lambda>i. password_matches (pf_checkpw P) password (si_password_hash i)) (found_identities pg em None) = []"

lemma start_native_login_refused:
  assumes "bcrypt_total (pf_checkpw P)" "db_pool (ap_db a)" "mk_token_login_request em pw = Inr payload"
    and "no_account_matches P (pf_postgres P) (tl_email payload) (tl_password payload)"
  shows "start_native_login P d rq payload (a, r) =
    and_then (limit_credentials P d rq (tl_email payload) (a, r)) (\<lambda>_ st. (Inl InvalidCredentialsError, st))"
proof (cases rule: limit_credentials_cases [where P = P and d = d and rq = rq and em = "tl_email payload"
      and a = a and r = r])
  case (admitted l r1)
  have "\<exists>work'. AuthService.verify_credentials (pf_postgres P) (pf_checkpw P) (pf_dummy_hash P)
      \<lparr>cr_email = tl_email payload, cr_password = tl_password payload, cr_account_type = None\<rparr> (ap_db a, [])
      = (Inl InvalidCredentialsError, ap_db a, work')"
    using assms by (intro verify_credentials_no_match) (simp_all add: no_account_matches_def)
  then show ?thesis
    by (auto simp: start_native_login_def admitted revalidated(2) [OF assms(3)] auth_verify_def)
qed (simp add: start_native_login_def)

text \<open>C14: A login start does not tell whether an account exists: for any two contents of the
  identity tables in which no account of the email has the presented password, one without the
  email and one with it for instance, the whole answer and every effect are the same. It is
  401, or 429 when the limiter refuses, and no challenge is created.\<close>

theorem login_start_no_enumeration:
  assumes "bcrypt_total (pf_checkpw P)" "db_pool (ap_db a)" "mk_token_login_request em pw = Inr payload"
    and "no_account_matches P (pf_postgres P) (tl_email payload) (tl_password payload)"
    and "no_account_matches P pg' (tl_email payload) (tl_password payload)"
  shows "\<exists>response a' r'.
    serve P d ''POST'' ''/v1/auth/login/start'' t rq (Call_login_start payload) (a, r) = (response, a', r') \<and>
    serve (P\<lparr>pf_postgres := pg'\<rparr>) d ''POST'' ''/v1/auth/login/start'' t rq (Call_login_start payload) (a, r)
      = (response, a', r') \<and>
    hr_status response \<in> {401, 429} \<and> ap_reset a' = ap_reset a"
proof -
  have first: "start_native_login P d rq payload (a, r) =
      and_then (limit_credentials P d rq (tl_email payload) (a, r)) (\<lambda>_ st. (Inl InvalidCredentialsError, st))"
    by (rule start_native_login_refused [OF assms(1-4)])
  have "start_native_login (P\<lparr>pf_postgres := pg'\<rparr>) d rq payload (a, r) =
      and_then (limit_credentials (P\<lparr>pf_postgres := pg'\<rparr>) d rq (tl_email payload) (a, r))
        (\<lambda>_ st. (Inl InvalidCredentialsError, st))"
    using assms by (intro start_native_login_refused [where em = em and pw = pw])
      (simp_all add: no_account_matches_def)
  then have second: "start_native_login (P\<lparr>pf_postgres := pg'\<rparr>) d rq payload (a, r)
      = start_native_login P d rq payload (a, r)"
    by (simp add: first)
  have "\<exists>response a' r'.
    serve P d ''POST'' ''/v1/auth/login/start'' t rq (Call_login_start payload) (a, r) = (response, a', r') \<and>
    hr_status response \<in> {401, 429} \<and> ap_reset a' = ap_reset a"
    by (cases rule: limit_credentials_cases [where P = P and d = d and rq = rq and em = "tl_email payload"
          and a = a and r = r])
      (simp_all add: serve_def prometheus_request_metrics_def password_broker_cutover_guard_def first
        answer_error handle_exceptions_def JSONResponse_def)
  moreover have "serve (P\<lparr>pf_postgres := pg'\<rparr>) d ''POST'' ''/v1/auth/login/start'' t rq (Call_login_start payload) (a, r)
      = serve P d ''POST'' ''/v1/auth/login/start'' t rq (Call_login_start payload) (a, r)"
    by (simp add: serve_def prometheus_request_metrics_def password_broker_cutover_guard_def second)
  ultimately show ?thesis by metis
qed

definition empty_postgres :: postgres where
  "empty_postgres = example_postgres\<lparr>pg_tables := \<lparr>farm_owners = [], company_employees = [], adms = []\<rparr>\<rparr>"

theorem login_start_no_enumeration_witness:
  "found_identities example_postgres ''ana@farm.br'' None \<noteq> [] \<and>
   fst (serve example_platform example_draws ''POST'' ''/v1/auth/login/start'' 1 example_browser
     (Call_login_start \<lparr>tl_email = ''ana@farm.br'', tl_password = ''wrong''\<rparr>) (example_app, [])) =
   fst (serve (example_platform\<lparr>pf_postgres := empty_postgres\<rparr>) example_draws ''POST'' ''/v1/auth/login/start'' 1
     example_browser (Call_login_start \<lparr>tl_email = ''ana@farm.br'', tl_password = ''wrong''\<rparr>) (example_app, []))"
proof
  have hashes: "map si_password_hash (found_identities example_postgres ''ana@farm.br'' None) = [''h2'', ''h1'']"
    by code_simp
  then show "found_identities example_postgres ''ana@farm.br'' None \<noteq> []" by force
  have none: "found_identities empty_postgres ''ana@farm.br'' None = []" by code_simp
  have "filter (\<lambda>i. password_matches example_checkpw ''wrong'' (si_password_hash i))
      (found_identities example_postgres ''ana@farm.br'' None) = []"
  proof -
    have "list_all (\<lambda>h. \<not> password_matches example_checkpw ''wrong'' h)
        (map si_password_hash (found_identities example_postgres ''ana@farm.br'' None))"
      unfolding hashes by code_simp
    then show ?thesis by (simp add: filter_empty_conv list_all_iff)
  qed
  then have some: "no_account_matches example_platform example_postgres ''ana@farm.br'' ''wrong''"
    by (simp add: no_account_matches_def example_platform_def)
  have empty: "no_account_matches example_platform empty_postgres ''ana@farm.br'' ''wrong''"
    using none by (simp add: no_account_matches_def) (simp add: empty_postgres_def)
  have payload: "mk_token_login_request ''ana@farm.br'' ''wrong''
      = Inr \<lparr>tl_email = ''ana@farm.br'', tl_password = ''wrong''\<rparr>"
    by code_simp
  show "fst (serve example_platform example_draws ''POST'' ''/v1/auth/login/start'' 1 example_browser
     (Call_login_start \<lparr>tl_email = ''ana@farm.br'', tl_password = ''wrong''\<rparr>) (example_app, [])) =
   fst (serve (example_platform\<lparr>pf_postgres := empty_postgres\<rparr>) example_draws ''POST'' ''/v1/auth/login/start'' 1
     example_browser (Call_login_start \<lparr>tl_email = ''ana@farm.br'', tl_password = ''wrong''\<rparr>) (example_app, []))"
    using login_start_no_enumeration [where P = example_platform and a = example_app and r = "[]" and pg' = empty_postgres
        and d = example_draws and t = 1 and rq = example_browser, OF _ _ payload] some empty
    by (auto simp: example_platform_def example_app_def init_reset_service_def)
qed

section \<open>The login flow\<close>

lemma start_native_login_accepted:
  assumes "limit_credentials P d rq (tl_email payload) (a, r) = (Inr (), a\<lparr>ap_limiter := l\<rparr>, r1)"
    and "mk_token_login_request em pw = Inr payload"
    and "bcrypt_total (pf_checkpw P)" "db_pool (ap_db a)" "pg_statement (pf_postgres P) = Inr ()"
    and "filter (\<lambda>i. password_matches (pf_checkpw P) (tl_password payload) (si_password_hash i))
      (found_identities (pf_postgres P) (tl_email payload) None) = [i]"
    and "otp_in_memory (ap_otp a)" "require_ready (ap_otp a) = Inr ()"
    and "ouros_email_otp_hmac_secret (otp_settings (ap_otp a)) = Some key"
    and "py_lower (py_strip (si_email i)) = tl_email payload"
    and "send_email (ap_settings a) (pf_smtp P) (tl_email payload) (otp_code (dr_number d)) = Inr ()"
    and "length_between 20 256 (dr_token d)" "length_between 3 255 (mask_email (tl_email payload))"
    and "0 < ouros_email_otp_ttl_seconds (otp_settings (ap_otp a))"
  shows "start_native_login P d rq payload (a, r) =
    (Inr \<lparr>ls_challenge_id = dr_token d, ls_expires_in = ouros_email_otp_ttl_seconds (otp_settings (ap_otp a)),
          ls_masked_email = mask_email (tl_email payload)\<rparr>,
     a\<lparr>ap_limiter := l, ap_reset := (ap_reset a)\<lparr>ps_otp := otp_put (dr_time d 1) (dr_token d)
        (login_record (pf_hmac P key (dr_token d @ '':'' @ otp_code (dr_number d))) (tl_email payload)
          (py_int (dr_time d 0) + ouros_email_otp_ttl_seconds (otp_settings (ap_otp a)))) (ap_otp a)\<rparr>\<rparr>, r1)"
proof -
  let ?q = "\<lparr>cr_email = tl_email payload, cr_password = tl_password payload, cr_account_type = None\<rparr>"
  obtain work' where verify: "AuthService.verify_credentials (pf_postgres P) (pf_checkpw P) (pf_dummy_hash P) ?q (ap_db a, [])
      = (Inr \<lparr>cp_authenticated = True, cp_identity = from_identity i\<rparr>, ap_db a, work')"
    using verify_credentials_one_match [OF assms(3-5), of ?q i "pf_dummy_hash P" "[]"] assms(6) by auto
  have email: "ir_email (from_identity i) = si_email i" by (simp add: from_identity_def)
  note start = otp_start_memory [OF assms(7-9), where em = "si_email i" and send = "send_email (ap_settings a) (pf_smtp P)"
      and n = "dr_number d" and R = "pf_redis P" and J = "pf_codec P" and H = "pf_hmac P" and token = "dr_token d"
      and t_exp = "dr_time d 0" and t_save = "dr_time d 1" and r = r1, unfolded assms(10), OF assms(11)]
  show ?thesis
    using start assms(12-14)
    by (simp add: start_native_login_def assms(1) revalidated(2) [OF assms(2)] auth_verify_def verify email
        mk_login_start_response_def)
qed

text \<open>The requests that present a code, and a sequence of requests.\<close>

fun second_step :: "call \<Rightarrow> native_login_verify_request option" where
  "second_step (Call_login_verify p) = Some p"
| "second_step (Call_web_login_verify p) = Some p"
| "second_step _ = None"

fun run_calls :: "('r, 'j) platform \<Rightarrow> (draws \<times> http_request \<times> call) list \<Rightarrow> app_state \<times> 'r \<Rightarrow> app_state \<times> 'r" where
  "run_calls P [] st = st"
| "run_calls P ((d, rq, c) # cs) st = run_calls P cs (snd (run_call P d rq c st))"

text \<open>The challenge id has no entry in the store of the process.\<close>

definition unused_challenge :: "string \<Rightarrow> app_state \<Rightarrow> bool" where
  "unused_challenge k a \<longleftrightarrow> otp_in_memory (ap_otp a) \<and> require_ready (ap_otp a) = Inr () \<and>
     map_of (otp_memory (ap_otp a)) k = None"

lemma otp_check_unused:
  assumes "unused_challenge k a" "otp_check P d p (a, r) = (res, a', r')"
  shows "unused_challenge k a' \<and> (nv_challenge_id p = k \<longrightarrow> res = Inl EmailOtpInvalidError \<and> r' = r)"
proof -
  obtain res1 o1 r1 where v: "otp_verify (pf_redis P) (pf_codec P) (pf_hmac P) (dr_time d 0, dr_time d 1, dr_time d 2)
      (nv_challenge_id p) (tl_email p) (nv_code p) (ap_otp a, r) = (res1, o1, r1)" by (rule prod_cases3)
  with assms(2) have "res = res1" "a' = a\<lparr>ap_reset := (ap_reset a)\<lparr>ps_otp := o1\<rparr>\<rparr>" "r' = r1"
    by (auto simp: otp_check_eq)
  with verify_absent [OF _ _ _ v, of k] assms(1) show ?thesis by (auto simp: unused_challenge_def)
qed

lemma tokens_keep_app:
  "fst (snd (and_then (pure (mk_token_login_request em pw) (a, r)) (\<lambda>credentials st. broker_password P credentials st))) = a"
  by (cases "mk_token_login_request em pw") (simp_all add: broker_password_def)

lemma second_step_unused:
  assumes "second_step c = Some p" "unused_challenge k (fst st)" "run_call P d rq c st = (res, a', r')"
  shows "unused_challenge k a' \<and> (nv_challenge_id p = k \<longrightarrow> r' = snd st \<and>
    (res = Inl EmailOtpInvalidError \<or> c = Call_web_login_verify p \<and> res = Inl (HTTPException 403 origin_detail [])))"
proof -
  obtain a r where st: "st = (a, r)" by (rule prod.exhaust)
  obtain res1 a1 r1 where check: "otp_check P d p (a, r) = (res1, a1, r1)" by (rule prod_cases3)
  note unused = otp_check_unused [OF assms(2) [unfolded st fst_conv] check]
  have keep: "fst (snd (and_then (pure (mk_token_login_request (tl_email p) (tl_password p)) (a1, r1))
      (\<lambda>credentials st. and_then (broker_password P credentials st) f))) = a1"
    if "\<And>v b q. fst (snd (f v (b, q))) = b" for f :: "keycloak_token_response \<Rightarrow> app_state \<times> 'a \<Rightarrow> (exn, app_state \<times> 'a, 'c) outcome"
    using that by (cases "mk_token_login_request (tl_email p) (tl_password p)")
      (auto simp: broker_password_def and_then_def split: sum.split)
  from assms(1) consider "c = Call_login_verify p" | "c = Call_web_login_verify p"
    by (cases c) auto
  then show ?thesis
  proof cases
    case 1
    then have run: "answer Tokens (verify_native_login P d p (a, r)) = (res, a', r')" using assms(3) by (simp add: st)
    show ?thesis
    proof (cases res1)
      case (Inl e)
      with run check unused 1 st show ?thesis by (auto simp: verify_native_login_def answer_error)
    next
      case (Inr u)
      have "a' = a1"
        using run tokens_keep_app [of "tl_email p" "tl_password p" a1 r1 P]
        by (auto simp: verify_native_login_def check Inr answer_def and_then_def split: sum.splits prod.splits)
      with unused Inr show ?thesis by auto
    qed
  next
    case 2
    then have run: "answer_web (verify_web_login P d rq p (a, r)) = (res, a', r')" using assms(3) by (simp add: st)
    show ?thesis
    proof (cases "require_web_origin rq (ap_settings a)")
      case (Inl e)
      then have "e = HTTPException 403 origin_detail []" by (auto simp: require_web_origin_def split: if_splits)
      with Inl run assms(2) 2 st show ?thesis by (auto simp: verify_web_login_def answer_web_def)
    next
      case origin: (Inr u)
      show ?thesis
      proof (cases res1)
        case (Inl e)
        with run check unused 2 st origin show ?thesis by (auto simp: verify_web_login_def answer_web_def)
      next
        case (Inr u)
        have "a' = a1"
          using run keep [of "\<lambda>token st. (Inr (web_access_token_response token,
            set_web_refresh_cookie token (ap_settings (fst st)) (Some rq)), st)"]
          by (auto simp: verify_web_login_def check Inr origin answer_web_def and_then_def split: sum.splits prod.splits)
        with unused Inr show ?thesis by auto
      qed
    qed
  qed
qed

lemma run_calls_unused:
  "list_all (\<lambda>(_, _, c). second_step c \<noteq> None) cs \<Longrightarrow> unused_challenge k (fst st) \<Longrightarrow>
    unused_challenge k (fst (run_calls P cs st))"
proof (induction cs arbitrary: st)
  case (Cons x cs)
  obtain d rq c where x: "x = (d, rq, c)" by (rule prod_cases3)
  obtain res a' r' where run: "run_call P d rq c st = (res, a', r')" by (rule prod_cases3)
  with Cons second_step_unused [OF _ _ run, of _ k] show ?case by (auto simp: x)
qed simp

text \<open>C3: A login works end to end over the in-process store, for an account with an ASCII email
  whose masked form has 3 to 255 characters. When the OTP service is configured with a positive
  lifetime and attempt limit, the limiter admits the attempt, exactly one account of the email has
  the password and the mail goes out, the start answers the challenge; the code sent to the
  mailbox, presented with the same email and password before the expiry and not before the save,
  gives the tokens of the broker; and after that, behind any sequence of further second steps of
  any clients, none for that challenge, native or in the browser, with whatever email, password or
  code, gets past the code check: it never reaches Keycloak.\<close>

theorem native_login_flow:
  assumes "limit_credentials P d rq (tl_email payload) (a, r) = (Inr (), a\<lparr>ap_limiter := l\<rparr>, r1)"
    and "mk_token_login_request em pw = Inr payload"
    and "bcrypt_total (pf_checkpw P)" "db_pool (ap_db a)" "pg_statement (pf_postgres P) = Inr ()"
    and "filter (\<lambda>i. password_matches (pf_checkpw P) (tl_password payload) (si_password_hash i))
      (found_identities (pf_postgres P) (tl_email payload) None) = [i]"
    and "otp_in_memory (ap_otp a)" "require_ready (ap_otp a) = Inr ()"
    and "py_lower (py_strip (si_email i)) = tl_email payload" "is_ascii (tl_email payload)" "ascii_hash (pf_hmac P)"
    and "send_email (ap_settings a) (pf_smtp P) (tl_email payload) (otp_code (dr_number d)) = Inr ()"
    and "length_between 20 256 (dr_token d)" "length_between 3 255 (mask_email (tl_email payload))"
    and ttl: "ttl = ouros_email_otp_ttl_seconds (otp_settings (ap_otp a))" "0 < ttl"
    and "0 < ouros_email_otp_max_attempts (otp_settings (ap_otp a))"
    and "p = \<lparr>tl_email = tl_email payload, tl_password = tl_password payload,
      nv_challenge_id = dr_token d, nv_code = otp_code (dr_number d)\<rparr>"
    and "dr_time d 1 \<le> dr_time d2 0" "py_int (dr_time d2 0) < py_int (dr_time d 0) + ttl"
    and "py_int (dr_time d2 1) < py_int (dr_time d 0) + ttl"
    and "issue_password_token (pf_jwks_decode P) (pf_field_int P) (pf_keycloak P) (ap_broker a) payload r1 = (Inr token, r2)"
  shows "\<exists>started a1 a2. run_call P d rq (Call_login_start payload) (a, r) = (Inr (respond 200 (Login_started started) []), a1, r1) \<and>
    ls_challenge_id started = dr_token d \<and>
    run_call P d2 rq2 (Call_login_verify p) (a1, r1) = (Inr (respond 200 (Tokens token) []), a2, r2) \<and>
    (\<forall>later r3 d3 rq3 c3 p3. list_all (\<lambda>(_, _, c). second_step c \<noteq> None) later \<and>
      second_step c3 = Some p3 \<and> nv_challenge_id p3 = dr_token d \<longrightarrow>
      (\<exists>e a3. run_call P d3 rq3 c3 (run_calls P later (a2, r3)) = (Inl e, a3, snd (run_calls P later (a2, r3))) \<and>
        (e = EmailOtpInvalidError \<or> c3 = Call_web_login_verify p3 \<and> e = HTTPException 403 origin_detail [])))"
proof -
  obtain key where key: "ouros_email_otp_hmac_secret (otp_settings (ap_otp a)) = Some key"
    using require_ready_secret [OF assms(8)] by blast
  define s1 where "s1 = otp_put (dr_time d 1) (dr_token d)
        (login_record (pf_hmac P key (dr_token d @ '':'' @ otp_code (dr_number d))) (tl_email payload)
          (py_int (dr_time d 0) + ttl)) (ap_otp a)"
  define s2 where "s2 = otp_remove (dr_token d) (otp_sweep (dr_time d2 0) s1)"
  let ?a1 = "a\<lparr>ap_limiter := l, ap_reset := (ap_reset a)\<lparr>ps_otp := s1\<rparr>\<rparr>"
  let ?a2 = "a\<lparr>ap_limiter := l, ap_reset := (ap_reset a)\<lparr>ps_otp := s2\<rparr>\<rparr>"
  let ?started = "\<lparr>ls_challenge_id = dr_token d, ls_expires_in = ttl, ls_masked_email = mask_email (tl_email payload)\<rparr>"
  have "start_native_login P d rq payload (a, r) = (Inr ?started, ?a1, r1)"
    unfolding s1_def ttl(1)
    by (rule start_native_login_accepted [OF assms(1-8) key assms(9,12-14) ttl(2) [unfolded ttl(1)]])
  then have start: "run_call P d rq (Call_login_start payload) (a, r)
      = (Inr (respond 200 (Login_started ?started) []), ?a1, r1)"
    by (simp add: answer_def)
  have "otp_verify (pf_redis P) (pf_codec P) (pf_hmac P) (dr_time d2 0, dr_time d2 1, dr_time d2 2) (dr_token d)
      (tl_email payload) (otp_code (dr_number d)) (s1, r1) = (Inr (), s2, r1)"
    unfolding s1_def s2_def
    by (rule otp_verify_started [OF assms(7,8,11) key assms(10) revalidated(3) [OF assms(2)]])
      (use assms in simp_all)
  then have "otp_check P d2 p (?a1, r1) = (Inr (), ?a2, r1)" by (simp add: otp_check_eq assms(18))
  then have verify: "run_call P d2 rq2 (Call_login_verify p) (?a1, r1) = (Inr (respond 200 (Tokens token) []), ?a2, r2)"
    using assms(22) revalidated(1) [OF assms(2)]
    by (simp add: verify_native_login_def assms(18) broker_password_def answer_def)
  have "unused_challenge (dr_token d) ?a2"
    using assms(7,8) challenges.view_remove [of "otp_sweep (dr_time d2 0) s1"]
    by (simp add: unused_challenge_def s1_def s2_def) (simp add: otp_remove_def delete_conv')
  then have unused: "unused_challenge (dr_token d) (fst (run_calls P later (?a2, r3)))"
    if "list_all (\<lambda>(_, _, c). second_step c \<noteq> None) later" for later r3
    using run_calls_unused [OF that, of "dr_token d" "(?a2, r3)"] by simp
  have later: "\<exists>e a3. run_call P d3 rq3 c3 (run_calls P later (?a2, r3)) = (Inl e, a3, snd (run_calls P later (?a2, r3))) \<and>
        (e = EmailOtpInvalidError \<or> c3 = Call_web_login_verify p3 \<and> e = HTTPException 403 origin_detail [])"
    if "list_all (\<lambda>(_, _, c). second_step c \<noteq> None) later" "second_step c3 = Some p3" "nv_challenge_id p3 = dr_token d"
    for later r3 d3 rq3 c3 p3
  proof -
    obtain res a3 r4 where run: "run_call P d3 rq3 c3 (run_calls P later (?a2, r3)) = (res, a3, r4)" by (rule prod_cases3)
    from second_step_unused [OF that(2) unused [OF that(1)] run] that(3) run show ?thesis by auto
  qed
  from start verify later show ?thesis
    by (intro exI [of _ ?started] exI [of _ ?a1] exI [of _ ?a2]) (simp del: run_call.simps)
qed

definition example_login_platform :: "((string \<times> pyval) list, pyval) platform" where
  "example_login_platform = example_platform\<lparr>pf_checkpw := \<lambda>password h. Inr (password = ''secret'' \<and> h = ''h3'')\<rparr>"

lemma example_admission:
  "\<exists>l. limit_credentials example_login_platform example_draws example_browser ''root@farm.br'' (example_app, [])
    = (Inr (), example_app\<lparr>ap_limiter := l\<rparr>, [])"
proof -
  have "fst (consume example_redis (dimensions (\<lambda>s. s) (Some ''10.0.0.1'') ''root@farm.br'') (\<lambda>_. 7)
      (credential_rules example_settings) 0 (init_limiter example_settings, [] :: (string \<times> pyval) list)) = 0 \<and>
    snd (snd (consume example_redis (dimensions (\<lambda>s. s) (Some ''10.0.0.1'') ''root@farm.br'') (\<lambda>_. 7)
      (credential_rules example_settings) 0 (init_limiter example_settings, [] :: (string \<times> pyval) list))) = []"
    by (simp add: credential_rules_def init_limiter_def increment_def mem_increment_def example_settings_def
        default_settings_def rule_key_def MEMORY_CLEANUP_INTERVAL_def MEMORY_MAX_ENTRIES_def Let_def)
  then show ?thesis
    by (auto simp: limit_credentials_def check_credentials_attempt_def check_rules_def example_login_platform_def
        example_platform_def example_draws_def example_browser_def example_app_def init_limiter_def
        split: prod.splits)
qed

theorem native_login_flow_witness:
  "\<exists>started a1 a2. run_call example_login_platform example_draws example_browser
      (Call_login_start \<lparr>tl_email = ''root@farm.br'', tl_password = ''secret''\<rparr>) (example_app, [])
      = (Inr (respond 200 (Login_started started) []), a1, []) \<and>
    run_call example_login_platform (example_draws\<lparr>dr_time := \<lambda>_. 399\<rparr>) example_browser
      (Call_login_verify \<lparr>tl_email = ''root@farm.br'', tl_password = ''secret'',
         nv_challenge_id = ''challenge-0123456789'', nv_code = otp_code 42\<rparr>) (a1, [])
      = (Inr (respond 200 (Tokens example_tokens) []), a2, [])"
proof -
  let ?P = example_login_platform and ?d2 = "example_draws\<lparr>dr_time := \<lambda>_. 399\<rparr>"
  let ?payload = "\<lparr>tl_email = ''root@farm.br'', tl_password = ''secret''\<rparr>"
  obtain l where admitted: "limit_credentials ?P example_draws example_browser (tl_email ?payload) (example_app, [])
      = (Inr (), example_app\<lparr>ap_limiter := l\<rparr>, [])"
    using example_admission by auto
  have payload: "mk_token_login_request ''Root@farm.br'' ''secret'' = Inr ?payload" by code_simp
  have found: "map (\<lambda>i. (si_email i, si_password_hash i)) (found_identities example_postgres ''root@farm.br'' None)
      = [(''root@farm.br'', ''h3'')]"
    by code_simp
  then obtain i where i: "found_identities example_postgres ''root@farm.br'' None = [i]"
      "si_email i = ''root@farm.br''" "si_password_hash i = ''h3''"
    by auto
  have total: "bcrypt_total (pf_checkpw ?P)" by (simp add: bcrypt_total_def example_login_platform_def)
  have h3: "normalize_bcrypt_prefix ''h3'' = ''h3''" by code_simp
  have matches: "filter (\<lambda>i. password_matches (pf_checkpw ?P) (tl_password ?payload) (si_password_hash i))
      (found_identities (pf_postgres ?P) (tl_email ?payload) None) = [i]"
    using i h3 by (simp add: example_login_platform_def password_matches_def example_platform_def)
  have mail: "send_email (ap_settings example_app) (pf_smtp ?P) (tl_email ?payload) (otp_code (dr_number example_draws)) = Inr ()"
    by (simp add: send_email_def dispatch_email_def smtp_tls_def smtp_auth_def smtp_do_def example_login_platform_def
        example_platform_def example_app_def example_settings_def default_settings_def)
  have strings: "py_lower (py_strip ''root@farm.br'') = ''root@farm.br''" "is_ascii ''root@farm.br''"
      "length_between 3 255 (mask_email ''root@farm.br'')"
    by code_simp+
  have issue: "issue_password_token (pf_jwks_decode ?P) (pf_field_int ?P) (pf_keycloak ?P) (ap_broker example_app) ?payload []
      = (Inr example_tokens, [])"
    using example_broker_app(1) [of ?payload "[]"] by (simp add: broker_password_def example_login_platform_def prod_eq_iff)
  have app: "ap_otp example_app = init_otp example_settings" "db_pool (ap_db example_app)"
    by (simp_all add: example_app_def init_reset_service_def)
  have P: "pf_postgres ?P = example_postgres" "pf_hmac ?P = example_hash"
    by (simp_all add: example_login_platform_def example_platform_def)
  have mask: "mask_email ''root@farm.br'' = ''r***@farm.br''" by code_simp
  show ?thesis
    using native_login_flow [where P = ?P and d = example_draws and ?d2.0 = ?d2 and rq = example_browser and ?rq2.0 = example_browser
        and ttl = 300 and p = "\<lparr>tl_email = ''root@farm.br'', tl_password = ''secret'',
         nv_challenge_id = ''challenge-0123456789'', nv_code = otp_code 42\<rparr>", OF admitted payload total _ _ matches _ _ _ _ _ mail
        _ _ _ _ _ _ _ _ _ issue]
    by (auto simp: app P i strings mask example_draws_def length_between_def)
qed

section \<open>Counting requests\<close>

abbreviation registry_is :: "registry \<Rightarrow> app_state \<times> 'r \<Rightarrow> bool" where
  "registry_is reg \<equiv> \<lambda>st. ap_registry (fst st) = reg"

lemma registry_calls:
  assumes "registry_is reg st"
  shows "yields (registry_is reg) (\<lambda>_. True) (get_rate_limiter f1 st)"
    and "yields (registry_is reg) (\<lambda>_. True) (get_password_reset_service f2 st)"
    and "yields (registry_is reg) (\<lambda>_. True) (get_email_otp_service f3 st)"
    and "yields (registry_is reg) (\<lambda>_. True) (get_database f4 st)"
    and "yields (registry_is reg) (\<lambda>_. True) (get_auth_service f5 st)"
    and "yields (registry_is reg) (\<lambda>_. True) (get_token_broker f6 st)"
    and "yields (registry_is reg) (\<lambda>_. True) (pure res st)"
  using assms by (cases st; simp add: yields_def pure_def)+

lemma yields_pair: "yields I E (res, st) \<longleftrightarrow> I st \<and> (\<forall>e. res = Inl e \<longrightarrow> E e)"
  by (simp add: yields_def)

lemmas handler_defs =
  metrics_def verify_credentials_route_def start_native_login_def verify_native_login_def verify_web_login_def
  refresh_web_session_def logout_web_session_def issue_keycloak_token_def refresh_keycloak_token_def
  start_password_reset_route_def verify_password_reset_route_def confirm_password_reset_def
  lookup_identity_by_email_route_def lookup_identity_by_external_id_route_def
  limit_credentials_def auth_verify_def otp_check_def broker_password_def broker_refresh_def

lemma run_call_registry:
  assumes "c \<noteq> Call_ready"
  shows "yields (registry_is (ap_registry a)) (\<lambda>_. True) (run_call P d rq c (a, r))"
proof -
  have "yields (registry_is (ap_registry a)) (\<lambda>_. True) (verify_internal_credentials P rq q (a, r))" for q
    unfolding verify_internal_credentials_def
    by (intro yields_and_then registry_calls) (auto simp: yields_def auth_verify_def split: sum.splits exn.splits prod.splits)
  then show ?thesis using assms
    by (cases c) (auto simp: handler_defs answer_def answer_web_def yields_pair intro!: yields_and_then registry_calls)
qed

lemma ready_registry:
  assumes "ready P (a, r) = (res, a', r')"
  shows "ap_registry a' = ap_registry a \<or>
    (\<exists>db lim. ap_registry a' = ap_registry a @ [DEPENDENCY_READY ''postgresql'' db, DEPENDENCY_READY ''rate_limiter'' lim]) \<and>
      (\<forall>n. res \<noteq> Inl (RateLimitExceeded n))"
  using assms
  by (auto simp: ready_def Let_def and_then_def split: sum.splits prod.splits if_splits)

text \<open>C15: Every request is counted exactly once: what it appends to the registry ends with one
  request counter and one duration, with the bounded route label and the status the client got,
  and one operation counter with the outcome of that status if its route has an operation; also
  when the cutover guard answers or an exception leaves the application as 500. The only other
  samples, before these, are one rate-limit hit, of a request that got 429, or the two readiness
  gauges, of a readiness probe.\<close>

theorem request_counted_once:
  assumes "serve P d m path t rq c (a, r) = (response, a', r')"
  shows "\<exists>others. ap_registry a' = ap_registry a @ others @
      [HTTP_REQUESTS m (metric_path path) (hr_status response), HTTP_DURATION m (metric_path path) t] @
      (case auth_operation m (metric_path path) of
         None \<Rightarrow> [] | Some operation \<Rightarrow> [AUTH_OPERATIONS operation (outcome_for_status (hr_status response))]) \<and>
    (others = [] \<or> others = [RATE_LIMIT_HITS] \<and> hr_status response = 429 \<or>
     c = Call_ready \<and> (\<exists>db lim. others = [DEPENDENCY_READY ''postgresql'' db, DEPENDENCY_READY ''rate_limiter'' lim]))"
proof -
  have rec: "record_request m path status t reg = reg @ record_request m path status t []" for status reg
    by (simp add: record_request_def Let_def)
  have samples: "[HTTP_REQUESTS m (metric_path path) status, HTTP_DURATION m (metric_path path) t] @
      (case auth_operation m (metric_path path) of
         None \<Rightarrow> [] | Some operation \<Rightarrow> [AUTH_OPERATIONS operation (outcome_for_status status)])
      = record_request m path status t []" for status
    by (simp add: record_request_def Let_def)
  obtain res a1 r1 where run: "run_call P d rq c (a, r) = (res, a1, r1)" by (rule prod_cases3)
  have reg: "ap_registry a1 = ap_registry a \<or> c = Call_ready \<and> (\<forall>n. res \<noteq> Inl (RateLimitExceeded n)) \<and>
      (\<exists>db lim. ap_registry a1 = ap_registry a @ [DEPENDENCY_READY ''postgresql'' db, DEPENDENCY_READY ''rate_limiter'' lim])"
  proof (cases "c = Call_ready")
    case False
    from run_call_registry [OF this, of a P d rq r] run show ?thesis by (simp add: yields_pair)
  next
    case True
    obtain res2 a2 r2 where ready: "ready P (a, r) = (res2, a2, r2)" by (rule prod_cases3)
    with run True have "a2 = a1" "\<forall>e. res = Inl e \<longrightarrow> res2 = Inl e" by (cases res2; auto simp: answer_def)+
    with ready_registry [OF ready] True show ?thesis by blast
  qed
  have "\<exists>others. ap_registry a' = others @ record_request m path (hr_status response) t [] \<and>
      (others = ap_registry a \<or> others = ap_registry a1 \<or>
       others = ap_registry a1 @ [RATE_LIMIT_HITS] \<and> hr_status response = 429 \<and> (\<exists>n. res = Inl (RateLimitExceeded n)))"
    using assms unfolding serve_def prometheus_request_metrics_def password_broker_cutover_guard_def run handle_exceptions_def
      rec [of _ "ap_registry _"]
    by (auto simp: JSONResponse_def respond_def split: if_splits sum.splits option.splits exn.splits)
  with reg show ?thesis unfolding samples by auto
qed

theorem request_counted_once_witness:
  "ap_registry (fst (snd (serve example_platform example_draws ''GET'' ''/nowhere'' 3 example_browser
      (Call_rejected 404) (example_app, []))))
   = [HTTP_REQUESTS ''GET'' ''{unknown}'' 404, HTTP_DURATION ''GET'' ''{unknown}'' 3]"
proof -
  obtain response a' r' where run: "serve example_platform example_draws ''GET'' ''/nowhere'' 3 example_browser
      (Call_rejected 404) (example_app, []) = (response, a', r')" by (rule prod_cases3)
  have label: "metric_path ''/nowhere'' = ''{unknown}''" "auth_operation ''GET'' ''{unknown}'' = None" by code_simp+
  from run have "hr_status response = 404"
    by (auto simp: serve_def prometheus_request_metrics_def password_broker_cutover_guard_def handle_exceptions_def
        respond_def)
  with request_counted_once [OF run] have "ap_registry a' = ap_registry example_app @
      [HTTP_REQUESTS ''GET'' ''{unknown}'' 404, HTTP_DURATION ''GET'' ''{unknown}'' 3]"
    by (auto simp: label)
  then show ?thesis by (simp add: run) (simp add: example_app_def)
qed

section \<open>The cutover of the password broker\<close>

text \<open>With the password broker switched off, a POST to its route is answered 404 before the
  body is looked at: the same answer whatever the body, also one the framework would reject,
  with no counter consumed and Keycloak not asked. The handler itself refuses too.\<close>

lemma broker_hidden_after_cutover:
  assumes "\<not> keycloak_password_broker_enabled (ap_settings a)"
  shows "(\<exists>a'. serve P d ''POST'' ''/v1/auth/token'' t rq c (a, r) = (JSONResponse 404 ''Not Found'' [], a', r) \<and>
      ap_limiter a' = ap_limiter a \<and> ap_reset a' = ap_reset a) \<and>
    run_call P d rq (Call_token q) (a, r) = (Inl (HTTPException 404 ''Not Found'' []), a, r)"
  using assms
  by (simp add: serve_def prometheus_request_metrics_def password_broker_cutover_guard_def JSONResponse_def
      issue_keycloak_token_def require_password_broker_def answer_error)

section \<open>Shutdown\<close>

text \<open>\<open>otp_close\<close> when every delivery sends its mail or fails with an error of the mail server.\<close>

definition mail_only_fails_as_smtp :: "(string \<Rightarrow> string \<Rightarrow> exn + unit) \<Rightarrow> bool" where
  "mail_only_fails_as_smtp send \<longleftrightarrow> (\<forall>em code. send em code = Inr () \<or> send em code = Inl SmtpError)"

lemma otp_delete_error:
  "otp_delete R pre c st = (Inl e, st') \<Longrightarrow> \<exists>m. e = EmailOtpUnavailable m"
  by (cases st)
    (auto simp: otp_delete_def otp_command_def otp_redis_client_def and_then_def
      split: if_splits sum.splits prod.splits option.splits)

lemma otp_delete_deliveries:
  "otp_delete R pre c st = (res, st') \<Longrightarrow> otp_deliveries (fst st') = otp_deliveries (fst st)"
  by (cases st)
    (auto simp: otp_delete_def otp_command_def otp_redis_client_def and_then_def otp_close_redis_def
      split: if_splits sum.splits prod.splits option.splits)

lemma run_delivery_smtp:
  assumes "mail_only_fails_as_smtp send" "otp_deliveries s = task # tasks"
  shows "\<exists>s' r'. run_delivery R send (s, r) = (Inr (), s', r') \<and> otp_deliveries s' = tasks"
proof -
  obtain c em code where task: "task = (c, em, code)" by (rule prod_cases3)
  obtain res s' r' where del: "otp_delete R (Some KEY_PREFIX_RESET) c (s\<lparr>otp_deliveries := tasks\<rparr>, r) = (res, s', r')"
    by (rule prod_cases3)
  have "otp_deliveries s' = tasks" using otp_delete_deliveries [OF del] by simp
  moreover have "\<exists>m. e = EmailOtpUnavailable m" if "res = Inl e" for e using otp_delete_error del that by blast
  moreover have "send em code = Inr () \<or> send em code = Inl SmtpError"
    using assms(1) by (simp add: mail_only_fails_as_smtp_def)
  ultimately show ?thesis
    using del assms(2) by (cases res) (auto simp: run_delivery_def deliver_password_reset_email_def task)
qed

lemma run_deliveries_smtp:
  assumes "mail_only_fails_as_smtp send"
  shows "\<exists>s' r'. run_deliveries R send (length (otp_deliveries s)) (s, r) = (Inr (), s', r') \<and> otp_deliveries s' = []"
proof (induction "otp_deliveries s" arbitrary: s r)
  case (Cons task tasks)
  obtain s1 r1 where step: "run_delivery R send (s, r) = (Inr (), s1, r1)" "otp_deliveries s1 = tasks"
    using run_delivery_smtp [OF assms Cons.hyps(2) [symmetric], of R r] by blast
  with Cons.hyps(1) [of s1 r1] show ?case by (simp flip: Cons.hyps(2))
qed simp

text \<open>C22: A shutdown in which the pending mails are sent or refused by the mail server finishes:
  no delivery is left, and every client the service opened is closed, the three Redis clients,
  the database pool and the HTTP client.\<close>

theorem shutdown_closes_everything:
  assumes "mail_only_fails_as_smtp (send_password_reset_email (ap_settings a) (pf_smtp P))"
  shows "\<exists>a' r'. app_shutdown P (a, r) = (Inr (), a', r') \<and> otp_deliveries (ap_otp a') = [] \<and>
    \<not> otp_redis (ap_otp a') \<and> \<not> ps_redis (ap_reset a') \<and> \<not> lim_redis (ap_limiter a') \<and>
    \<not> db_pool (ap_db a') \<and> ps_http (ap_reset a') \<noteq> OpenClient"
proof -
  let ?send = "send_password_reset_email (ap_settings a) (pf_smtp P)"
  have closed: "\<not> ps_redis (ps_close s)" "ps_http (ps_close s) \<noteq> OpenClient" "ps_otp (ps_close s) = ps_otp s"
      "ps_db (ps_close s) = ps_db s" for s
    by (cases "ps_http s"; simp add: ps_close_def Let_def)+
  obtain o1 r1 where "run_deliveries (pf_redis P) ?send (length (otp_deliveries (ap_otp a))) (ap_otp a, r)
      = (Inr (), o1, r1)" "otp_deliveries o1 = []"
    using run_deliveries_smtp [OF assms, of "pf_redis P" "ap_otp a" r] by blast
  then have "otp_close (pf_redis P) ?send (ap_otp a, r) = (Inr (), otp_close_redis o1, r1)"
      "otp_deliveries (otp_close_redis o1) = []" "\<not> otp_redis (otp_close_redis o1)"
    by (simp_all add: otp_close_def otp_close_redis_def)
  then show ?thesis by (simp add: app_shutdown_def closed lim_close_def db_close_def)
qed

theorem shutdown_closes_everything_witness:
  "\<exists>a' r'. app_shutdown example_platform (example_app, []) = (Inr (), a', r') \<and> \<not> db_pool (ap_db a')"
proof -
  have "mail_only_fails_as_smtp (send_password_reset_email (ap_settings example_app) (pf_smtp example_platform))"
    by (auto simp: mail_only_fails_as_smtp_def send_password_reset_email_def dispatch_email_def smtp_tls_def smtp_auth_def
        smtp_do_def example_platform_def example_app_def example_settings_def default_settings_def)
  from shutdown_closes_everything [OF this, of "[]"] show ?thesis by blast
qed

lemma run_delivery_step:
  assumes "otp_deliveries s = (c, em, code) # tasks" "run_delivery R send (s, r) = (res, s1, r1)"
  shows "otp_deliveries s1 = tasks \<and>
    res = (case send em code of Inr _ \<Rightarrow> Inr () | Inl e \<Rightarrow> if e = SmtpError then Inr () else Inl e) \<and>
    (send em code \<noteq> Inl SmtpError \<longrightarrow> otp_redis s1 = otp_redis s)"
proof -
  obtain res2 s2 r2 where del: "otp_delete R (Some KEY_PREFIX_RESET) c (s\<lparr>otp_deliveries := tasks\<rparr>, r) = (res2, s2, r2)"
    by (rule prod_cases3)
  have "otp_deliveries s2 = tasks" using otp_delete_deliveries [OF del] by simp
  moreover have "\<exists>m. e = EmailOtpUnavailable m" if "res2 = Inl e" for e using otp_delete_error del that by blast
  ultimately show ?thesis
    using assms del by (cases res2) (auto simp: run_delivery_def deliver_password_reset_email_def split: sum.splits exn.splits)
qed

lemma run_deliveries_failure:
  assumes "otp_deliveries s = ds" "run_deliveries R send (length ds) (s, r) = (res, s', r')"
  shows "((\<exists>(c, em, code) \<in> set ds. \<exists>e. send em code = Inl e \<and> e \<noteq> SmtpError) \<longrightarrow>
      (\<exists>e. res = Inl e \<and> e \<noteq> SmtpError \<and> (\<exists>(c, em, code) \<in> set ds. send em code = Inl e))) \<and>
    ((\<forall>(c, em, code) \<in> set ds. send em code \<noteq> Inl SmtpError) \<longrightarrow> otp_redis s' = otp_redis s)"
  using assms
proof (induction ds arbitrary: s r res s' r')
  case (Cons d ds)
  obtain c em code where d: "d = (c, em, code)" by (rule prod_cases3)
  obtain res1 s1 r1 where run: "run_delivery R send (s, r) = (res1, s1, r1)" by (rule prod_cases3)
  obtain res2 s2 r2 where rest: "run_deliveries R send (length ds) (s1, r1) = (res2, s2, r2)" by (rule prod_cases3)
  note step = run_delivery_step [OF Cons.prems(1) [unfolded d] run]
  have "s2 = s'" using Cons.prems(2) run rest by (cases res1) (auto split: sum.splits)
  note IH = Cons.IH [OF conjunct1 [OF step] rest, unfolded this]
  show ?case
  proof (cases "send em code = Inr () \<or> send em code = Inl SmtpError")
    case True
    then have "res1 = Inr ()" using step by auto
    then have "res = res2" using Cons.prems(2) run rest by simp
    with IH True step show ?thesis by (auto simp: d)
  next
    case False
    then obtain e where e: "send em code = Inl e" "e \<noteq> SmtpError" by (cases "send em code") auto
    then have "res1 = Inl e" using step by simp
    then have res: "res = Inl e" using Cons.prems(2) run by simp
    have "otp_redis s1 = otp_redis s" using step e by simp
    with IH e show ?thesis by (simp add: d res)
  qed
qed simp

text \<open>C23: If any pending delivery ends with an exception that is not an error of the mail server,
  whatever the other deliveries do, the shutdown stops with an exception of such a delivery: the
  limiter's Redis client and the database pool stay as they were, open if they were open, and so
  does the OTP service's Redis client when no other mail is refused by the mail server (a refused
  one is deleted from the store over that client).\<close>

theorem failed_delivery_blocks_shutdown:
  assumes "(c, em, code) \<in> set (otp_deliveries (ap_otp a))"
    and "send_password_reset_email (ap_settings a) (pf_smtp P) em code = Inl e" "e \<noteq> SmtpError"
  shows "\<exists>e' a' r'. app_shutdown P (a, r) = (Inl e', a', r') \<and> e' \<noteq> SmtpError \<and>
    (\<exists>(c', em', code') \<in> set (otp_deliveries (ap_otp a)).
       send_password_reset_email (ap_settings a) (pf_smtp P) em' code' = Inl e') \<and>
    ap_limiter a' = ap_limiter a \<and> ap_db a' = ap_db a \<and>
    ((\<forall>(c', em', code') \<in> set (otp_deliveries (ap_otp a)).
        send_password_reset_email (ap_settings a) (pf_smtp P) em' code' \<noteq> Inl SmtpError) \<longrightarrow>
     otp_redis (ap_otp a') = otp_redis (ap_otp a))"
proof -
  let ?send = "send_password_reset_email (ap_settings a) (pf_smtp P)"
  have close: "ps_otp (ps_close s) = ps_otp s" "ps_db (ps_close s) = ps_db s" for s
    by (simp_all add: ps_close_def Let_def)
  obtain res s' r' where run: "run_deliveries (pf_redis P) ?send (length (otp_deliveries (ap_otp a))) (ap_otp a, r)
      = (res, s', r')" by (rule prod_cases3)
  note failure = run_deliveries_failure [OF refl run]
  with assms obtain e' where e': "res = Inl e'" "e' \<noteq> SmtpError"
      "\<exists>(c', em', code') \<in> set (otp_deliveries (ap_otp a)). ?send em' code' = Inl e'" by blast
  then have "otp_close (pf_redis P) ?send (ap_otp a, r) = (Inl e', s', r')"
    using run by (simp add: otp_close_def)
  with e' failure show ?thesis by (simp add: app_shutdown_def close)
qed

theorem failed_delivery_blocks_shutdown_witness:
  "\<exists>e a' r'. app_shutdown (example_platform\<lparr>pf_smtp := \<lambda>_. Inl (ValueError ''ascii'')\<rparr>)
     (example_app\<lparr>ap_reset := (ap_reset example_app)\<lparr>ps_otp := (init_otp example_settings)\<lparr>otp_deliveries :=
        [(''b'', ''x@y.z'', ''000041''), (''c'', ''a@b.c'', ''000042'')]\<rparr>\<rparr>\<rparr>, []) = (Inl e, a', r') \<and> db_pool (ap_db a')"
proof -
  let ?P = "example_platform\<lparr>pf_smtp := \<lambda>_. Inl (ValueError ''ascii'')\<rparr>"
  let ?a = "example_app\<lparr>ap_reset := (ap_reset example_app)\<lparr>ps_otp := (init_otp example_settings)\<lparr>otp_deliveries :=
        [(''b'', ''x@y.z'', ''000041''), (''c'', ''a@b.c'', ''000042'')]\<rparr>\<rparr>\<rparr>"
  have sent: "send_password_reset_email (ap_settings ?a) (pf_smtp ?P) ''a@b.c'' ''000042'' = Inl (ValueError ''ascii'')"
    by (simp add: send_password_reset_email_def dispatch_email_def smtp_do_def example_app_def example_settings_def)
  have pool: "db_pool (ap_db ?a)" by (simp add: example_app_def init_reset_service_def)
  have pending: "(''c'', ''a@b.c'', ''000042'') \<in> set (otp_deliveries (ap_otp ?a))" by simp
  obtain e a' r' where "app_shutdown ?P (?a, []) = (Inl e, a', r')" "ap_db a' = ap_db ?a"
    using failed_delivery_blocks_shutdown [OF pending sent, of "[]"] by blast
  with pool show ?thesis by (intro exI [of _ e] exI [of _ a'] exI [of _ r']) simp
qed

end
