(* ===== verification/AppInvariant.thy ===== *)
theory AppInvariant
  imports AppProps RateLimitProps ResetProps
begin

text \<open>
  The running application: every state reached from the start by requests, background
  deliveries, a shutdown and whatever happens at the servers meanwhile. What all these states
  have in common, and what the error answers given in them can say. Both come from one rule per
  operation, in the calculus of \<open>yields\<close>: it keeps the invariant, and raises only exceptions
  whose answer is in a fixed table.
\<close>

section \<open>Reachable states\<close>

text \<open>
  Each step has its own platform, any one that is \<open>ok\<close>: the contents and the behaviour of the
  database, the mail server and the other servers and libraries may change from step to step.
\<close>

inductive app_step ::
  "(('r, 'j) platform \<Rightarrow> bool) \<Rightarrow> app_state \<times> 'r \<Rightarrow> app_state \<times> 'r \<Rightarrow> bool"
  for ok :: "('r, 'j) platform \<Rightarrow> bool" where
  request: "ok P \<Longrightarrow> app_step ok st (snd (serve P d m path t rq c st))"
| delivery: "ok P \<Longrightarrow> app_step ok (a, r) (snd (get_email_otp_service
    (run_delivery (pf_redis P) (send_password_reset_email (ap_settings a) (pf_smtp P))) (a, r)))"
| shutdown: "ok P \<Longrightarrow> app_step ok st (snd (app_shutdown P st))"
| servers: "app_step ok (a, r) (a, r')"

inductive app_reachable ::
  "(('r, 'j) platform \<Rightarrow> bool) \<Rightarrow> settings \<Rightarrow> app_state \<times> 'r \<Rightarrow> bool"
  for ok :: "('r, 'j) platform \<Rightarrow> bool" and cfg :: settings where
  start: "create_app cfg = Inr a \<Longrightarrow> app_reachable ok cfg (a, r)"
| step: "app_reachable ok cfg st \<Longrightarrow> app_step ok st st' \<Longrightarrow> app_reachable ok cfg st'"

section \<open>The invariant\<close>

text \<open>A record of the in-process challenge store: a login challenge, or a reset challenge under its prefix.\<close>

definition challenge_record :: "settings \<Rightarrow> string \<Rightarrow> pydict \<Rightarrow> bool" where
  "challenge_record cfg key rec \<longleftrightarrow>
    (\<exists>em digest attempts expires_at.
      0 \<le> attempts \<and> (attempts = 0 \<or> attempts < ouros_email_otp_max_attempts cfg) \<and>
      (rec = [(''email'', PStr em), (''code_digest'', PStr digest), (''attempts'', PInt attempts),
              (''expires_at'', PInt expires_at)] \<or>
       (\<exists>token account_type database_id. key = ''reset:'' @ token \<and>
          rec = [(''email'', PStr em), (''account_type'', PStr account_type), (''database_id'', PInt database_id),
                 (''code_digest'', PStr digest), (''attempts'', PInt attempts), (''expires_at'', PInt expires_at),
                 (''purpose'', PStr ''password_reset'')])))"

definition limiter_inv :: "settings \<Rightarrow> limiter \<Rightarrow> bool" where
  "limiter_inv cfg l \<longleftrightarrow> limiter_ok l \<and> lim_rules l = credential_rules cfg \<and> lim_redis_url l = redis_url cfg \<and>
     (redis_url cfg = None \<longrightarrow> \<not> lim_redis l)"

definition otp_inv :: "settings \<Rightarrow> otp \<Rightarrow> bool" where
  "otp_inv cfg s \<longleftrightarrow> otp_settings s = cfg \<and> otp_invar s \<and> (redis_url cfg = None \<longrightarrow> \<not> otp_redis s) \<and>
     (redis_url cfg \<noteq> None \<longrightarrow> otp_memory s = []) \<and>
     (\<forall>(k, rec) \<in> set (otp_memory s). challenge_record cfg k rec)"

definition reset_inv :: "settings \<Rightarrow> reset_service \<Rightarrow> bool" where
  "reset_inv cfg s \<longleftrightarrow> ps_settings s = cfg \<and> used_invar s \<and> (redis_url cfg = None \<longrightarrow> \<not> ps_redis s) \<and>
     (redis_url cfg \<noteq> None \<longrightarrow> ps_blacklist s = []) \<and> ps_http s = NoClient \<and> otp_inv cfg (ps_otp s)"

definition app_inv :: "settings \<Rightarrow> app_state \<Rightarrow> bool" where
  "app_inv cfg a \<longleftrightarrow> ap_settings a = cfg \<and> limiter_inv cfg (ap_limiter a) \<and> reset_inv cfg (ap_reset a) \<and>
     ap_broker a = init_broker cfg \<and> init_verifier cfg None None = Inr (ap_service_verifier a) \<and>
     init_verifier cfg (Some (keycloak_metrics_audience cfg)) (Some (metrics_keycloak_authorized_party cfg))
       = Inr (ap_metrics_verifier a)"

section \<open>The public answers\<close>

definition public_answers :: "(int \<times> string) list" where
  "public_answers =
    [(400, reset_otp_detail), (400, reset_token_detail), (400, reset_purpose_detail), (400, reset_account_detail),
     (400, used_token_detail), (400, password_complexity_detail),
     (400, ''Usu'' @ [CHR 0xE1] @ ''rio n'' @ [CHR 0xE3] @ ''o encontrado para redefini'' @ [CHR 0xE7, CHR 0xE3]
        @ ''o de senha.''),
     (400, ''Dados inv'' @ [CHR 0xE1] @ ''lidos para redefini'' @ [CHR 0xE7, CHR 0xE3] @ ''o de senha.''),
     (401, credentials_detail), (401, otp_detail), (401, session_detail),
     (401, ''Invalid metrics credentials.''), (401, ''Invalid service credentials.''),
     (403, origin_detail), (403, credentials_detail),
     (404, ''Not Found''), (404, ''Identity not found.''),
     (409, ambiguous_detail), (429, rate_limit_detail), (429, reset_attempts_detail),
     (503, broker_detail), (503, otp_unavailable_detail), (503, reset_unavailable_detail),
     (503, ''Database is not ready.''), (503, ''Rate limiter is not ready.'')]"

text \<open>The exceptions whose answer carries text of the exception itself.\<close>

fun public_exn :: "exn \<Rightarrow> bool" where
  "public_exn (HTTPException status detail _) = ((status, detail) \<in> set public_answers)"
| "public_exn (PasswordResetTokenInvalidError m) =
     ((400, if m = [] then reset_token_detail else m) \<in> set public_answers)"
| "public_exn (PasswordResetSpringError _ _) = False"
| "public_exn _ = True"

text \<open>An exception of a library is none of these.\<close>

fun foreign :: "exn \<Rightarrow> bool" where
  "foreign (HTTPException _ _ _) = False"
| "foreign (PasswordResetTokenInvalidError _) = False"
| "foreign (PasswordResetSpringError _ _) = False"
| "foreign _ = True"

lemma foreign_public [simp]: "foreign e \<Longrightarrow> public_exn e"
  by (cases e) auto

definition foreign_errors :: "('r, 'j) platform \<Rightarrow> bool" where
  "foreign_errors P \<longleftrightarrow>
    (\<forall>p h e. pf_checkpw P p h = Inl e \<longrightarrow> foreign e) \<and> (\<forall>c e. pf_smtp P c = Inl e \<longrightarrow> foreign e) \<and>
    (\<forall>e. pg_create_pool (pf_postgres P) = Inl e \<longrightarrow> foreign e) \<and>
    (\<forall>e. pg_statement (pf_postgres P) = Inl e \<longrightarrow> foreign e) \<and>
    (\<forall>q r e r'. pf_spring P q r = (OtherFailure e, r') \<longrightarrow> foreign e)"

lemma public_details [simp]:
  "public_exn (PasswordResetTokenInvalidError used_token_detail)"
  "public_exn (PasswordResetTokenInvalidError reset_token_detail)"
  "public_exn (PasswordResetTokenInvalidError reset_purpose_detail)"
  "public_exn (PasswordResetTokenInvalidError reset_account_detail)"
  "public_exn (PasswordResetTokenInvalidError password_complexity_detail)"
  by (simp_all add: public_answers_def)

lemma public_spring_result:
  "(\<And>e. reply = OtherFailure e \<Longrightarrow> foreign e) \<Longrightarrow> spring_result reply = Inl e \<Longrightarrow> public_exn e"
  by (auto simp: spring_result_def public_answers_def split: http_reply.splits if_splits)

declare public_exn.simps(2) [simp del]

section \<open>The limiter\<close>

lemma lim_connect_inv: "limiter_inv cfg l \<Longrightarrow> limiter_inv cfg (fst (snd (lim_connect R l r)))"
  using lim_connect_ok [of l R r]
  by (auto simp: limiter_inv_def lim_connect_def split: prod.splits option.splits)

lemma lim_close_inv: "limiter_inv cfg l \<Longrightarrow> limiter_inv cfg (lim_close l)"
  by (simp add: limiter_inv_def lim_close_ok) (simp add: lim_close_def)

lemma lim_ping_inv: "limiter_inv cfg l \<Longrightarrow> limiter_inv cfg (fst (snd (lim_ping R l r)))"
  using lim_connect_inv [of cfg l R r]
  by (auto simp: lim_ping_def split: prod.splits option.splits bool.splits if_splits)

lemma increment_inv:
  assumes "limiter_inv cfg l"
  shows "limiter_inv cfg (fst (snd (increment R now key w l r)))"
proof -
  have mem: "limiter_inv cfg (snd (mem_increment now key w l1))" if "limiter_inv cfg l1" for l1
    using that mem_increment_ok [of l1 now key w] by (auto simp: limiter_inv_def mem_increment_eq Let_def)
  obtain l1 r1 where c: "(if lim_redis_url l \<noteq> None \<and> \<not> lim_redis l
      then snd (lim_connect R l r) else (l, r)) = (l1, r1)" by (meson surj_pair)
  have l1: "limiter_inv cfg l1"
    using c assms lim_connect_inv [OF assms, of R r] by (auto split: if_splits)
  obtain reply r2 where call: "redis_call R (redis_script R key w) r1 = (reply, r2)" by (meson surj_pair)
  obtain p l2 q l3 where m: "mem_increment now key w l1 = (p, l2)" "mem_increment now key w (lim_close l1) = (q, l3)"
    by (meson surj_pair)
  show ?thesis
    using mem [OF l1] mem [OF lim_close_inv [OF l1]] l1 m
    unfolding increment_def c Let_def prod.case
    by (cases reply; cases "lim_redis l1") (auto simp: call)
qed

lemma consume_inv:
  "limiter_inv cfg l \<Longrightarrow> limiter_inv cfg (fst (snd (consume R dims clock rules longest (l, r))))"
proof (induction rules arbitrary: l r clock longest)
  case (Cons rule rules)
  obtain count retry l1 r1 where i: "increment R (clock 0) (rule_key rule (dims (rl_dimension rule)))
      (rl_window_seconds rule) l r = ((count, retry), l1, r1)"
    by (metis prod.collapse)
  have "limiter_inv cfg l1"
    using increment_inv [OF Cons.prems, of R "clock 0"] i by (metis fst_conv snd_conv)
  with i show ?case by (simp add: Cons.IH)
qed simp

lemma check_rules_yields:
  "limiter_inv cfg l \<Longrightarrow> yields (\<lambda>st. limiter_inv cfg (fst st)) public_exn (check_rules R digest rules clock client em (l, r))"
  using consume_inv [of cfg l R "dimensions digest client em" clock rules 0 r]
  by (auto simp: check_rules_def rate_limit_exceeded_def split: prod.splits)

section \<open>The OTP service\<close>

abbreviation on_otp :: "settings \<Rightarrow> (exn, otp \<times> 'r, 'a) outcome \<Rightarrow> bool" where
  "on_otp cfg \<equiv> yields (\<lambda>st. otp_inv cfg (fst st)) public_exn"

lemma otp_cleanup_props:
  "distinct (map fst mem) \<Longrightarrow> distinct (map fst (otp_cleanup t mem))"
  "set (otp_cleanup t mem) \<subseteq> set mem"
  by (auto simp: otp_cleanup_def distinct_map_filter')

lemma otp_inv_sweep: "otp_inv cfg s \<Longrightarrow> otp_inv cfg (s\<lparr>otp_memory := otp_cleanup t (otp_memory s)\<rparr>)"
  using otp_cleanup_props(1) [of "otp_memory s" t] otp_cleanup_props(2) [of t "otp_memory s"]
  by (auto simp: otp_inv_def otp_invar_def otp_cleanup_def)

lemma set_AList_delete: "set (AList.delete k m) \<subseteq> set m"
  by (auto simp: AList.delete_eq)

lemma otp_inv_delete: "otp_inv cfg s \<Longrightarrow> otp_inv cfg (s\<lparr>otp_memory := AList.delete k (otp_memory s)\<rparr>)"
  using set_AList_delete [of k "otp_memory s"]
  by (auto simp: otp_inv_def otp_invar_def distinct_delete)

lemma otp_inv_update:
  assumes "otp_inv cfg s" "redis_url cfg = None" "challenge_record cfg k rec"
  shows "otp_inv cfg (s\<lparr>otp_memory := AList.update k rec (otp_memory s)\<rparr>)"
  using assms set_AList_update_subset [of k rec "otp_memory s"]
  by (auto simp: otp_inv_def otp_invar_def distinct_update)

lemma otp_inv_redis [simp]:
  "otp_inv cfg s \<Longrightarrow> otp_inv cfg (otp_close_redis s)"
  "otp_inv cfg s \<Longrightarrow> redis_url cfg \<noteq> None \<Longrightarrow> otp_inv cfg (s\<lparr>otp_redis := True\<rparr>)"
  "otp_inv cfg (s\<lparr>otp_deliveries := ds\<rparr>) = otp_inv cfg s"
  by (auto simp: otp_inv_def otp_invar_def otp_close_redis_def)

lemma otp_inv_settings: "otp_inv cfg s \<Longrightarrow> otp_settings s = cfg"
  by (simp add: otp_inv_def)

lemma otp_command_yields:
  assumes "otp_inv cfg s" "redis_url cfg \<noteq> None"
  shows "on_otp cfg (otp_command R msg cmd (s, r))"
  using assms unfolding otp_command_def
  by (intro yields_and_then)
    (auto simp: otp_redis_client_def otp_inv_settings yields_def split: option.splits prod.splits)

lemma otp_save_yields:
  assumes "otp_inv cfg s" "redis_url cfg = None \<Longrightarrow> challenge_record cfg (mem_key pre c) rec"
  shows "on_otp cfg (otp_save R J pre c rec ttl t (s, r))"
  using assms otp_inv_update [OF otp_inv_sweep [OF assms(1)], of "mem_key pre c" rec t]
  by (auto simp: otp_save_def otp_inv_settings otp_command_yields)

lemma otp_delete_yields:
  assumes "otp_inv cfg s"
  shows "on_otp cfg (otp_delete R pre c (s, r))"
  using assms otp_inv_delete [OF assms, of "mem_key pre c"]
  by (auto simp: otp_delete_def otp_inv_settings otp_command_yields)

lemma otp_load_yields:
  assumes "otp_inv cfg s"
  shows "on_otp cfg (otp_load R J pre c t (s, r))"
proof (cases "redis_url cfg = None")
  case True
  then show ?thesis
    using assms otp_inv_sweep [OF assms, of t] by (simp add: otp_load_def otp_inv_settings Let_def)
next
  case False
  with False assms show ?thesis
    unfolding otp_load_def
    by (auto simp: otp_inv_settings intro!: yields_and_then otp_command_yields otp_delete_yields
        split: option.splits pyval.splits)
qed

lemma otp_load_memory_record:
  assumes "otp_inv cfg s" "redis_url cfg = None" "otp_load R J None c t (s, r) = (Inr (Some rec), st1)"
  shows "challenge_record cfg c rec"
  using assms otp_cleanup_props(2) [of t "otp_memory s"]
  by (auto simp: otp_load_def otp_inv_def Let_def mem_key_def dest!: map_of_SomeD)

lemma login_challenge_record:
  "challenge_record cfg k (login_record digest em expires_at)"
  unfolding challenge_record_def login_record_def by force

lemma reset_challenge_record:
  "challenge_record cfg (mem_key (Some KEY_PREFIX_RESET) c) (reset_record em account_type database_id digest expires_at)"
proof -
  have "mem_key (Some KEY_PREFIX_RESET) c = ''reset:'' @ c"
    by (simp add: mem_key_def KEY_PREFIX_def KEY_PREFIX_RESET_def)
  then show ?thesis unfolding challenge_record_def reset_record_def by force
qed

lemma challenge_record_bump:
  assumes "challenge_record cfg k rec" "as_int (dget rec ''attempts'') = Some n"
    and "n + 1 < ouros_email_otp_max_attempts cfg"
  shows "challenge_record cfg k (AList.update ''attempts'' (PInt (n + 1)) rec)"
  using assms unfolding challenge_record_def by (auto simp: dget_def)

lemma verify_decide_save:
  assumes "verify_decide H s c em code t rec = Reject_save rec' ttl" "otp_settings s = cfg"
    and "challenge_record cfg k rec"
  shows "challenge_record cfg k rec'"
proof -
  obtain n where n: "as_int (dget rec ''attempts'') = Some n" "n + 1 < ouros_email_otp_max_attempts cfg"
      "rec' = AList.update ''attempts'' (PInt (n + 1)) rec"
    using assms(1,2) unfolding verify_decide_def
    by (auto simp: Let_def split: option.splits if_splits sum.splits)
  with challenge_record_bump [OF assms(3)] show ?thesis by simp
qed

lemma verify_decide_escape:
  "verify_decide H s c em code t rec = Escape e \<Longrightarrow> public_exn e"
  by (auto simp: verify_decide_def code_digest_def compare_digest_str_def Let_def split: option.splits if_splits sum.splits)

lemma otp_start_yields:
  assumes "otp_inv cfg s" "\<And>em code e. send em code = Inl e \<Longrightarrow> public_exn e"
  shows "on_otp cfg (otp_start R J H send token n t_exp t_save em (s, r))"
proof -
  have failed: "on_otp cfg (case e of
        SmtpError \<Rightarrow> and_then (otp_delete R None token st) (\<lambda>_ st. (Inl (EmailOtpUnavailable m), st))
      | e \<Rightarrow> (Inl e, st))"
    if "otp_inv cfg (fst st)" "public_exn e" for e m st
    using that otp_delete_yields [OF that(1), of R None token "snd st"]
    by (cases e) (auto intro!: yields_and_then)
  show ?thesis
    using assms
    by (auto simp: otp_start_def Let_def code_digest_def require_ready_def
        intro!: yields_and_then otp_save_yields login_challenge_record failed split: sum.splits option.splits)
qed

lemma start_password_reset_yields:
  assumes "otp_inv cfg s"
  shows "on_otp cfg (start_password_reset R J H token n t_exp t_save em ty i (s, r))"
  using assms
  by (auto simp: start_password_reset_def Let_def code_digest_def require_ready_def
      intro!: yields_and_then otp_save_yields reset_challenge_record split: sum.splits option.splits)

lemma otp_verify_yields:
  assumes inv: "otp_inv cfg s"
  shows "on_otp cfg (otp_verify R J H ts c em code (s, r))"
proof -
  obtain t_load t_now t_save where ts: "ts = (t_load, t_now, t_save)" by (rule prod_cases3)
  have act: "on_otp cfg (verify_act R J c t_save (verify_decide H s1 c em code t_now rec) (s1, r1))"
    if "otp_inv cfg s1" "redis_url cfg = None \<Longrightarrow> challenge_record cfg c rec" for s1 r1 rec
  proof -
    have "on_otp cfg (verify_act R J c t_save a (s1, r1))"
      if a: "verify_decide H s1 c em code t_now rec = a" for a
    proof (cases a)
      case (Reject_save rec' ttl)
      have "challenge_record cfg (mem_key None c) rec'" if "redis_url cfg = None"
        using verify_decide_save [OF a [unfolded Reject_save]] that \<open>otp_inv cfg s1\<close> \<open>_ \<Longrightarrow> challenge_record cfg c rec\<close>
        by (simp add: otp_inv_settings mem_key_def)
      then show ?thesis
        using \<open>otp_inv cfg s1\<close> by (auto simp: verify_act_def Reject_save intro!: yields_and_then otp_save_yields)
    qed (use \<open>otp_inv cfg s1\<close> verify_decide_escape a in
        \<open>auto simp: verify_act_def intro!: yields_and_then otp_delete_yields\<close>)
    then show ?thesis by blast
  qed
  obtain res st1 where l: "otp_load R J None c t_load (s, r) = (res, st1)" by (rule prod.exhaust)
  have st1: "otp_inv cfg (fst st1)" "\<forall>e. res = Inl e \<longrightarrow> public_exn e"
    using yieldsD [OF otp_load_yields [OF inv] l] by auto
  have rec: "challenge_record cfg c rec" if "res = Inr (Some rec)" "redis_url cfg = None" for rec
    by (rule otp_load_memory_record [OF inv that(2) l [unfolded that(1)]])
  show ?thesis
    using inv st1 rec act [of "fst st1" _ "snd st1"]
    by (cases res) (auto simp: otp_verify_def ts l require_ready_def split: sum.splits option.splits)
qed

lemma verify_reset_memory_yields:
  assumes inv: "otp_inv cfg s" "redis_url cfg = None"
  shows "yields (otp_inv cfg) public_exn (verify_reset_memory t c normalized submitted s)"
proof -
  define key where "key = ''reset:'' @ c"
  let ?mem = "otp_cleanup t (otp_memory s)"
  note sweep = otp_inv_sweep [OF inv(1), of t]
  have delete: "otp_inv cfg (s\<lparr>otp_memory := AList.delete key ?mem\<rparr>)"
    using otp_inv_delete [OF sweep, of key] by simp
  have bump: "otp_inv cfg (s\<lparr>otp_memory := AList.update key (AList.update ''attempts'' (PInt (n + 1)) rec) ?mem\<rparr>)"
    if "map_of ?mem key = Some rec" "as_int (dget rec ''attempts'') = Some n"
      "n + 1 < ouros_email_otp_max_attempts cfg" for n rec
  proof -
    have "(key, rec) \<in> set (otp_memory s)"
      using map_of_SomeD [OF that(1)] otp_cleanup_props(2) by blast
    then have "challenge_record cfg key rec" using inv(1) by (auto simp: otp_inv_def)
    from otp_inv_update [OF sweep inv(2) challenge_record_bump [OF this that(2,3)]] show ?thesis by simp
  qed
  show ?thesis
    unfolding verify_reset_memory_def Let_def key_def [symmetric]
    using sweep delete bump by (auto simp: otp_inv_settings [OF inv(1)] split: option.splits)
qed

lemma verify_password_reset_yields:
  assumes "otp_inv cfg s"
  shows "on_otp cfg (verify_password_reset R J H t c em code (s, r))"
proof -
  have "on_otp cfg (case verify_reset_memory t c n d s of (res, s1) \<Rightarrow> (res, s1, r))" if "redis_url cfg = None" for n d
    using verify_reset_memory_yields [OF assms that, of t c n d] by (cases "verify_reset_memory t c n d s") (simp add: yields_def)
  with assms show ?thesis
    by (auto simp: verify_password_reset_def Let_def code_digest_def require_ready_def otp_inv_settings
        intro!: yields_and_then otp_command_yields split: sum.splits option.splits prod.splits)
qed

lemma deliver_yields:
  assumes "otp_inv cfg s" "\<And>em code e. send em code = Inl e \<Longrightarrow> public_exn e"
  shows "on_otp cfg (deliver_password_reset_email R send task (s, r))"
proof -
  obtain c em code where task: "task = (c, em, code)" by (rule prod_cases3)
  obtain res st1 where d: "otp_delete R (Some KEY_PREFIX_RESET) c (s, r) = (res, st1)" by (rule prod.exhaust)
  have "otp_inv cfg (fst st1)" "\<forall>e. res = Inl e \<longrightarrow> public_exn e"
    using yieldsD [OF otp_delete_yields [OF assms(1)] d] by auto
  moreover have "\<exists>m. e = EmailOtpUnavailable m" if "res = Inl e" for e
    using otp_delete_error d [unfolded that] by blast
  ultimately have failed: "on_otp cfg (deliver_password_reset_email R send task (s, r))"
    if "send em code = Inl e" for e
    using assms(1) assms(2) [OF that] that
    by (cases e; cases res) (auto simp: deliver_password_reset_email_def task d)
  then show ?thesis
    using assms(1) by (cases "send em code") (auto simp: deliver_password_reset_email_def task)
qed

lemma run_delivery_yields:
  assumes "otp_inv cfg s" "\<And>em code e. send em code = Inl e \<Longrightarrow> public_exn e"
  shows "on_otp cfg (run_delivery R send (s, r))"
  using assms by (auto simp: run_delivery_def intro!: deliver_yields split: list.splits)

lemma run_deliveries_inv:
  assumes "\<And>em code e. send em code = Inl e \<Longrightarrow> public_exn e"
  shows "otp_inv cfg (fst st) \<Longrightarrow> otp_inv cfg (fst (snd (run_deliveries R send n st)))"
proof (induction n arbitrary: st)
  case (Suc n)
  obtain s r where st: "st = (s, r)" by (rule prod.exhaust)
  obtain res st1 where d: "run_delivery R send st = (res, st1)" by (rule prod.exhaust)
  have "otp_inv cfg (fst st1)"
    using yieldsD [OF run_delivery_yields [OF _ assms, where s = s] d [unfolded st]] Suc.prems st by auto
  with Suc.IH [of st1] d show ?case by (auto split: sum.split)
qed simp

lemma otp_close_inv:
  assumes "otp_inv cfg s" "\<And>em code e. send em code = Inl e \<Longrightarrow> public_exn e"
  shows "otp_inv cfg (fst (snd (otp_close R send (s, r))))"
proof -
  have i: "otp_inv cfg (fst (snd (run_deliveries R send (length (otp_deliveries s)) (s, r))))"
    using assms by (intro run_deliveries_inv) auto
  obtain res s1 r1 where "run_deliveries R send (length (otp_deliveries s)) (s, r) = (res, s1, r1)"
    by (rule prod_cases3)
  with i show ?thesis by (cases res) (simp_all add: otp_close_def)
qed

section \<open>The password-reset service\<close>

abbreviation on_reset :: "settings \<Rightarrow> (exn, reset_service \<times> 'r, 'a) outcome \<Rightarrow> bool" where
  "on_reset cfg \<equiv> yields (\<lambda>st. reset_inv cfg (fst st)) public_exn"

lemma reset_inv_upd [simp]:
  "reset_inv cfg (s\<lparr>ps_db := d\<rparr>) = reset_inv cfg s"
  "reset_inv cfg s \<Longrightarrow> reset_inv cfg (ps_close s)"
  "reset_inv cfg s \<Longrightarrow> redis_url cfg \<noteq> None \<Longrightarrow> reset_inv cfg (s\<lparr>ps_redis := True\<rparr>)"
  "reset_inv cfg s \<Longrightarrow> otp_inv cfg o1 \<Longrightarrow> reset_inv cfg (s\<lparr>ps_otp := o1\<rparr>)"
  by (auto simp: reset_inv_def used_invar_def ps_close_def Let_def)

lemma reset_invD:
  "reset_inv cfg s \<Longrightarrow> ps_settings s = cfg" "reset_inv cfg s \<Longrightarrow> otp_inv cfg (ps_otp s)"
  by (simp_all add: reset_inv_def)

lemma with_otp_yields:
  assumes "reset_inv cfg s" "on_otp cfg (f (ps_otp s, r))"
  shows "on_reset cfg (with_otp f (s, r))"
  using assms by (cases "f (ps_otp s, r)") (auto simp: with_otp_def yields_def)

lemma find_by_email_public:
  assumes "\<And>e. pg_create_pool pg = Inl e \<Longrightarrow> foreign e" "\<And>e. pg_statement pg = Inl e \<Longrightarrow> foreign e"
  shows "yields (\<lambda>_. True) public_exn (find_by_email pg em ty d)"
    and "yields (\<lambda>_. True) public_exn (find_by_external_id pg ty' i d)"
    and "yields (\<lambda>_. True) public_exn (db_ping pg d)"
proof -
  have conn: "yields (\<lambda>_. True) public_exn (db_connection pg body d)" for body :: "tables \<Rightarrow> 'b" and d
    using assms unfolding db_connection_def db_connect_def
    by (intro yields_and_then) (auto split: sum.splits)
  have row: "row_to_identity x = Inl e \<Longrightarrow> public_exn e" for x e
    by (auto simp: row_to_identity_def split: option.splits)
  have rows: "rows_to_identities xs = Inl e \<Longrightarrow> public_exn e" for xs e
    by (induction xs) (auto split: sum.splits dest: row)
  show "yields (\<lambda>_. True) public_exn (find_by_email pg em ty d)"
    unfolding find_by_email_def by (intro yields_and_then conn) (auto simp: yields_def rows)
  show "yields (\<lambda>_. True) public_exn (find_by_external_id pg ty' i d)"
    unfolding find_by_external_id_def by (intro yields_and_then conn) (auto split: list.splits sum.splits dest: row)
  obtain res d1 where c: "db_connection pg (\<lambda>_. 1 :: int) d = (res, d1)" by (rule prod.exhaust)
  show "yields (\<lambda>_. True) public_exn (db_ping pg d)"
    using yieldsD [OF conn c] by (auto simp: db_ping_def c split: sum.splits exn.splits)
qed

lemma start_reset_yields:
  assumes "reset_inv cfg s" "\<And>e. pg_create_pool pg = Inl e \<Longrightarrow> foreign e" "\<And>e. pg_statement pg = Inl e \<Longrightarrow> foreign e"
  shows "on_reset cfg (start_reset R J H pg decoy token n t_exp t_save request (s, r))"
proof -
  obtain found d1 where f: "find_by_email pg (py_lower (py_strip (rs_email request))) (rs_account_type request) (ps_db s)
      = (found, d1)" by (rule prod.exhaust)
  have found: "found = Inl e \<Longrightarrow> public_exn e" for e
    using yieldsD [OF find_by_email_public(1) [OF assms(2,3)] f] by auto
  have response: "mk_reset_start_response decoy m ttl = Inl e \<Longrightarrow> public_exn e" for m ttl e
    by (auto simp: mk_reset_start_response_def split: if_splits)
  have challenge: "on_reset cfg (case with_otp (start_password_reset R J H token n t_exp t_save em ty i) (s\<lparr>ps_db := d1\<rparr>, r) of
        (Inr challenge, st) \<Rightarrow> (Inr (response\<lparr>sr_challenge_id := ch_id challenge\<rparr>), st)
      | (Inl (EmailOtpUnavailable _), st) \<Rightarrow> (Inr response, st)
      | (Inl e, st) \<Rightarrow> (Inl e, st))" for em ty i response
  proof -
    obtain res st where w: "with_otp (start_password_reset R J H token n t_exp t_save em ty i) (s\<lparr>ps_db := d1\<rparr>, r) = (res, st)"
      by (rule prod.exhaust)
    have "on_reset cfg (res, st)"
      unfolding w [symmetric] using assms(1)
      by (intro with_otp_yields) (auto intro!: start_password_reset_yields reset_invD)
    then show ?thesis unfolding w by (auto split: sum.splits exn.splits)
  qed
  show ?thesis
    using assms(1) challenge found response
    by (auto simp: start_reset_def Let_def f split: sum.split list.split)
qed

lemma conversions_public:
  "py_int_value v = Inl e \<Longrightarrow> public_exn e" "py_index d k = Inl e \<Longrightarrow> public_exn e"
  by (cases v; auto split: option.splits) (auto simp: py_index_def split: option.splits)

lemma verify_code_yields:
  assumes "reset_inv cfg s"
  shows "on_reset cfg (verify_code R J H W repr jti t_verify t_mint request (s, r))"
proof -
  have response: "mk_reset_verify_response m ttl = Inl e \<Longrightarrow> public_exn e" for m ttl e
    by (auto simp: mk_reset_verify_response_def split: if_splits)
  show ?thesis
    using assms unfolding verify_code_def
    by (intro yields_and_then with_otp_yields verify_password_reset_yields)
      (auto intro: reset_invD conversions_public response simp: yields_def split: pyval.splits sum.splits prod.splits)
qed

lemma used_invar_cleanup:
  "used_invar s \<Longrightarrow> distinct (map fst (cleanup_blacklist t (ps_blacklist s)))"
  by (simp add: used_invar_def cleanup_blacklist_def distinct_map_filter')

lemma ps_redis_client_yields:
  "reset_inv cfg s \<Longrightarrow> redis_url cfg \<noteq> None \<Longrightarrow> on_reset cfg (ps_redis_client R (s, r))"
  by (auto simp: ps_redis_client_def reset_invD split: option.splits prod.splits)

lemma reserve_token_yields:
  assumes "reset_inv cfg s"
  shows "on_reset cfg (reserve_token R J jti ttl now (s, r))"
proof (cases "redis_url cfg = None")
  case True
  have "reset_inv cfg (s\<lparr>ps_blacklist := b\<rparr>)" if "distinct (map fst b)" for b
    using assms that True by (simp add: reset_inv_def used_invar_def)
  moreover have "distinct (map fst (cleanup_blacklist now (ps_blacklist s)))"
    using assms by (intro used_invar_cleanup) (simp add: reset_inv_def)
  ultimately show ?thesis
    using True by (simp add: reserve_token_def Let_def reset_invD [OF assms] distinct_update)
next
  case False
  then show ?thesis
    using assms unfolding reserve_token_def prod.case
    by (auto simp: reset_invD intro!: yields_and_then ps_redis_client_yields split: option.splits prod.splits)
qed

lemma release_token_yields:
  assumes "reset_inv cfg s"
  shows "on_reset cfg (release_token R jti (s, r))"
proof (cases "redis_url cfg = None")
  case True
  then show ?thesis
    using assms by (simp add: release_token_def reset_inv_def used_invar_def distinct_delete)
next
  case False
  then show ?thesis
    using assms unfolding release_token_def prod.case
    by (auto simp: reset_invD intro!: yields_and_then ps_redis_client_yields split: option.splits prod.splits)
qed

lemma check_confirm_public: "check_confirm W cfg t request = Inl e \<Longrightarrow> public_exn e"
  unfolding check_confirm_def verify_reset_token_def
  by (auto split: option.splits sum.splits if_splits dest: conversions_public)

lemma confirm_reset_yields:
  assumes "reset_inv cfg s" "\<And>q r e r'. post q r = (OtherFailure e, r') \<Longrightarrow> foreign e"
  shows "on_reset cfg (confirm_reset R J W post ts request (s, r))"
proof -
  obtain t_verify t_now t_reserve where ts: "ts = (t_verify, t_now, t_reserve)" by (rule prod_cases3)
  have call: "on_reset cfg (call_spring_internal_reset post ty i pw (s1, r1))" if "reset_inv cfg s1" for ty i pw s1 r1
  proof -
    let ?q = "spring_reset_request (ps_settings s1) ty i pw"
    obtain reply r2 where reply: "post ?q r1 = (reply, r2)" by (rule prod.exhaust)
    have "spring_result reply = Inl e \<Longrightarrow> public_exn e" for e
      by (rule public_spring_result [of reply]) (use assms(2) reply in blast)+
    with that show ?thesis by (auto simp: call_spring_internal_reset_def reply yields_def)
  qed
  have after: "on_reset cfg (case call_spring_internal_reset post ty i pw st1 of
        (Inr _, st2) \<Rightarrow> (Inr v, st2)
      | (Inl e, st2) \<Rightarrow> and_then (release_token R jti st2) (\<lambda>_ st3. (Inl e, st3)))"
    if inv: "reset_inv cfg (fst st1)" for ty i pw st1 v jti
  proof -
    obtain res s2 r2 where c: "call_spring_internal_reset post ty i pw st1 = (res, s2, r2)" by (rule prod_cases3)
    have "reset_inv cfg s2" "\<forall>e. res = Inl e \<longrightarrow> public_exn e"
      using yieldsD [OF call [OF inv, of ty i pw "snd st1"], of res "(s2, r2)"] c by auto
    then show ?thesis
      unfolding c by (cases res) (auto intro!: yields_and_then release_token_yields)
  qed
  show ?thesis
    using assms(1) check_confirm_public after
    by (auto simp: confirm_reset_def ts intro!: yields_and_then reserve_token_yields split: sum.split)
qed

section \<open>Credentials and tokens\<close>

lemma verify_credentials_public:
  assumes "\<And>p h e. checkpw p h = Inl e \<Longrightarrow> foreign e"
    and "\<And>e. pg_create_pool pg = Inl e \<Longrightarrow> foreign e" "\<And>e. pg_statement pg = Inl e \<Longrightarrow> foreign e"
  shows "yields (\<lambda>_. True) public_exn (AuthService.verify_credentials pg checkpw dummy request st)"
proof -
  have compare: "yields (\<lambda>_. True) public_exn (compare_in_thread checkpw raw h st)" for raw h st
    using assms(1) [of raw "normalize_bcrypt_prefix h"]
    by (auto simp: compare_in_thread_def yields_def verify_password_def split: prod.splits sum.splits exn.splits)
  have matching: "yields (\<lambda>_. True) public_exn (matching_identities checkpw raw is st)" for raw "is" st
    by (induction "is" arbitrary: st) (auto intro!: yields_and_then compare)
  obtain db work where st: "st = (db, work)" by (rule prod.exhaust)
  obtain res db1 where f: "find_by_email pg (cr_email request) (cr_account_type request) db = (res, db1)"
    by (rule prod.exhaust)
  have "\<forall>e. res = Inl e \<longrightarrow> public_exn e"
    using yieldsD [OF find_by_email_public(1) [OF assms(2,3)] f] by auto
  then show ?thesis
    unfolding AuthService.verify_credentials_def st prod.case f
    by (intro yields_and_then)
      (auto simp: yields_def [of _ _ "(res, db1, work)"] burn_dummy_password_check_def
        intro!: yields_and_then compare matching split: list.splits)
qed

lemma broker_public:
  "issue_password_token decode as_field_int kc b credentials r = (Inl e, r') \<Longrightarrow> public_exn e"
  "refresh_token decode as_field_int kc b payload r = (Inl e, r') \<Longrightarrow> public_exn e"
proof -
  have contract: "validate_access_token_contract decode b t = Inl e \<Longrightarrow> public_exn e" for t e
    by (auto simp: validate_access_token_contract_def positive_database_id_def Let_def
        split: option.splits if_splits pyval.splits sum.splits)
  have exchange: "exchange_token decode as_field_int kc b f r = (Inl e, r') \<Longrightarrow> public_exn e" for f r r' e
    unfolding exchange_token_def
    by (auto split: option.splits prod.splits token_reply.splits if_splits sum.splits exn.splits jwt_error.splits
        dest: contract)
  show "issue_password_token decode as_field_int kc b credentials r = (Inl e, r') \<Longrightarrow> public_exn e"
    "refresh_token decode as_field_int kc b payload r = (Inl e, r') \<Longrightarrow> public_exn e"
    by (auto simp: issue_password_token_def refresh_token_def split: option.splits if_splits dest: exchange)
qed

section \<open>Requests\<close>

abbreviation on_app :: "settings \<Rightarrow> (exn, app_state \<times> 'r, 'a) outcome \<Rightarrow> bool" where
  "on_app cfg \<equiv> yields (\<lambda>st. app_inv cfg (fst st)) public_exn"

lemma app_invD:
  assumes "app_inv cfg a"
  shows "limiter_inv cfg (ap_limiter a)" "reset_inv cfg (ap_reset a)" "otp_inv cfg (ap_otp a)" "ap_settings a = cfg"
  using assms by (simp_all add: app_inv_def reset_inv_def)

lemma app_inv_upd [simp]:
  "app_inv cfg a \<Longrightarrow> limiter_inv cfg l \<Longrightarrow> app_inv cfg (a\<lparr>ap_limiter := l\<rparr>)"
  "app_inv cfg a \<Longrightarrow> reset_inv cfg s \<Longrightarrow> app_inv cfg (a\<lparr>ap_reset := s\<rparr>)"
  "app_inv cfg (a\<lparr>ap_registry := reg\<rparr>) = app_inv cfg a"
  by (auto simp: app_inv_def)

text \<open>The components' rules, lifted to the application.\<close>

lemma on_app_limiter:
  assumes "app_inv cfg (fst st)" "\<And>l r. limiter_inv cfg l \<Longrightarrow> yields (\<lambda>st. limiter_inv cfg (fst st)) public_exn (f (l, r))"
  shows "on_app cfg (get_rate_limiter f st)"
  using assms(2) [OF app_invD(1) [OF assms(1)]] assms(1) by (cases st) (auto simp: yields_def)

lemma on_app_reset:
  assumes "app_inv cfg (fst st)" "\<And>s r. reset_inv cfg s \<Longrightarrow> on_reset cfg (f (s, r))"
  shows "on_app cfg (get_password_reset_service f st)"
  using assms(2) [OF app_invD(2) [OF assms(1)]] assms(1) by (cases st) (auto simp: yields_def)

lemma on_app_otp:
  assumes "app_inv cfg (fst st)" "\<And>s r. otp_inv cfg s \<Longrightarrow> on_otp cfg (f (s, r))"
  shows "on_app cfg (get_email_otp_service f st)"
  using assms unfolding get_email_otp_service_def
  by (intro on_app_reset with_otp_yields) (auto intro: reset_invD)

lemma on_app_database:
  assumes "app_inv cfg (fst st)" "\<And>d. yields (\<lambda>_. True) public_exn (f d)"
  shows "on_app cfg (get_database f st)"
  using assms(2) [of "ap_db (fst st)"] assms(1) app_invD(2) [OF assms(1)]
  by (cases st) (auto simp: yields_def)

lemma on_app_auth:
  assumes "app_inv cfg (fst st)" "\<And>d. yields (\<lambda>_. True) public_exn (f d)"
  shows "on_app cfg (get_auth_service f st)"
  using assms(2) [of "(ap_db (fst st), [])"] assms(1) app_invD(2) [OF assms(1)]
  by (cases st) (auto simp: yields_def)

lemma on_app_broker:
  assumes "app_inv cfg (fst st)" "\<And>b r e r'. f b r = (Inl e, r') \<Longrightarrow> public_exn e"
  shows "on_app cfg (get_token_broker f st)"
proof -
  obtain a r where st: "st = (a, r)" by (rule prod.exhaust)
  obtain res r1 where "f (ap_broker a) r = (res, r1)" by (rule prod.exhaust)
  with assms show ?thesis by (auto simp: st yields_def)
qed

lemma on_app_pure:
  assumes "app_inv cfg (fst st)" "\<And>e. res = Inl e \<Longrightarrow> public_exn e"
  shows "on_app cfg (pure res st)"
  using assms by (simp add: pure_def yields_def)

lemma on_app_answer: "on_app cfg m \<Longrightarrow> on_app cfg (answer body m)"
  "on_app cfg m' \<Longrightarrow> on_app cfg (answer_web m')"
  unfolding answer_def answer_web_def by (auto intro!: yields_and_then)

lemma public_http [simp]:
  "public_exn (HTTPException 401 ''Invalid metrics credentials.'' h)"
  "public_exn (HTTPException 401 ''Invalid service credentials.'' h)"
  "public_exn (HTTPException 404 ''Not Found'' h)" "public_exn (HTTPException 404 ''Identity not found.'' h)"
  "public_exn (HTTPException 403 origin_detail h)" "public_exn (HTTPException 403 credentials_detail h)"
  "public_exn (HTTPException 401 session_detail h)"
  "public_exn (HTTPException 503 ''Database is not ready.'' h)"
  "public_exn (HTTPException 503 ''Rate limiter is not ready.'' h)"
  by (simp_all add: public_answers_def)

declare public_exn.simps(1) [simp del]

lemma guards_public:
  "require_metrics_bearer P a rq = Inl e \<Longrightarrow> public_exn e"
  "require_keycloak_service P a rq = Inl e \<Longrightarrow> public_exn e"
  "require_password_broker cfg = Inl e \<Longrightarrow> public_exn e"
  "require_web_origin rq cfg = Inl e \<Longrightarrow> public_exn e"
  "found_or_404 i = Inl e \<Longrightarrow> public_exn e"
  by (auto simp: require_metrics_bearer_def require_keycloak_service_def require_password_broker_def
      require_web_origin_def found_or_404_def split: if_splits option.splits dest!: require_bearer_401)

lemma requests_public:
  "mk_token_login_request em pw = Inl e \<Longrightarrow> public_exn e"
  "mk_credential_request em pw ty = Inl e \<Longrightarrow> public_exn e"
  "mk_token_refresh_request t = Inl e \<Longrightarrow> public_exn e"
  "mk_login_start_response c ttl m = Inl e \<Longrightarrow> public_exn e"
  by (auto simp: mk_token_login_request_def mk_credential_request_def mk_token_refresh_request_def
      mk_login_start_response_def validate_email_shape_def validate_password_length_def validate_refresh_token_def
      Let_def split: if_splits sum.splits prod.splits)

lemma mail_public:
  assumes "\<And>c e. reply c = Inl e \<Longrightarrow> foreign e"
  shows "send_email cfg reply em code = Inl e \<Longrightarrow> public_exn e"
    and "send_password_reset_email cfg reply em code = Inl e \<Longrightarrow> public_exn e"
proof -
  have do: "yields (\<lambda>_. True) public_exn (smtp_do reply c d)" for c d
    using assms [of c] by (auto simp: smtp_do_def yields_def)
  have tls: "yields (\<lambda>_. True) public_exn (smtp_tls cfg reply d)" for d
    unfolding smtp_tls_def by (auto intro!: yields_and_then do)
  have auth: "yields (\<lambda>_. True) public_exn (smtp_auth cfg reply d)" for d
    unfolding smtp_auth_def by (auto intro!: do split: option.splits)
  have dispatch: "yields (\<lambda>_. True) public_exn (dispatch_email cfg reply m)" for m
  proof -
    let ?body = "\<lambda>d. and_then (smtp_tls cfg reply d) (\<lambda>_ d.
                and_then (smtp_auth cfg reply d) (\<lambda>_ d. smtp_do reply (Send_message m) d))"
    have quit: "yields (\<lambda>_. True) public_exn (case ?body d of (res, d1) \<Rightarrow>
        (case smtp_do reply Quit d1 of (Inl e, d2) \<Rightarrow> (Inl e, d2) | (Inr _, d2) \<Rightarrow> (res, d2)))" for d
    proof -
      have body: "yields (\<lambda>_. True) public_exn (?body d)" by (intro yields_and_then tls auth do)
      obtain res d1 where d1: "?body d = (res, d1)" by (rule prod.exhaust)
      obtain res2 d2 where "smtp_do reply Quit d1 = (res2, d2)" by (rule prod.exhaust)
      with yieldsD [OF body d1] yieldsD [OF do] show ?thesis
        unfolding d1 by (cases res2) (auto simp: yields_def)
    qed
    then show ?thesis unfolding dispatch_email_def by (auto intro!: yields_and_then do)
  qed
  then show "send_email cfg reply em code = Inl e \<Longrightarrow> public_exn e"
    "send_password_reset_email cfg reply em code = Inl e \<Longrightarrow> public_exn e"
    unfolding send_email_def send_password_reset_email_def yields_def by blast+
qed

lemma foreign_errorsD:
  assumes "foreign_errors P"
  shows "pf_checkpw P p h = Inl e \<Longrightarrow> foreign e" "pf_smtp P c = Inl e \<Longrightarrow> foreign e"
    "pg_create_pool (pf_postgres P) = Inl e \<Longrightarrow> foreign e" "pg_statement (pf_postgres P) = Inl e \<Longrightarrow> foreign e"
    "pf_spring P q r = (OtherFailure e, r') \<Longrightarrow> foreign e"
  using assms unfolding foreign_errors_def by blast+

text \<open>One rule per step the routes share, then per route.\<close>

lemma limit_yields: "app_inv cfg (fst st) \<Longrightarrow> on_app cfg (limit_credentials P d rq em st)"
  unfolding limit_credentials_def
  by (rule on_app_limiter) (simp_all add: check_credentials_attempt_def check_rules_yields)

lemma auth_yields: "foreign_errors P \<Longrightarrow> app_inv cfg (fst st) \<Longrightarrow> on_app cfg (auth_verify P payload st)"
  unfolding auth_verify_def
  by (rule on_app_auth) (auto intro!: verify_credentials_public dest: foreign_errorsD)

lemma otp_check_yields: "app_inv cfg (fst st) \<Longrightarrow> on_app cfg (otp_check P d payload st)"
  unfolding otp_check_def by (rule on_app_otp) (simp_all add: otp_verify_yields)

lemma broker_yields:
  "app_inv cfg (fst st) \<Longrightarrow> on_app cfg (broker_password P credentials st)"
  "app_inv cfg (fst st) \<Longrightarrow> on_app cfg (broker_refresh P payload st)"
  unfolding broker_password_def broker_refresh_def
  by (rule on_app_broker; blast intro: broker_public)+

lemma otp_start_route_yields:
  "foreign_errors P \<Longrightarrow> app_inv cfg (fst st) \<Longrightarrow> on_app cfg (get_email_otp_service
    (otp_start R J H (send_email (ap_settings (fst st)) (pf_smtp P)) token n t1 t2 em) st)"
  by (rule on_app_otp) (auto intro!: otp_start_yields intro: mail_public foreign_errorsD)

lemma reset_routes_yield:
  assumes "app_inv cfg (fst st)" "foreign_errors P"
  shows "on_app cfg (start_password_reset_route P d rq ps st)"
    and "on_app cfg (verify_password_reset_route P d pv st)"
    and "on_app cfg (confirm_password_reset P d pc st)"
  using assms unfolding start_password_reset_route_def verify_password_reset_route_def confirm_password_reset_def
  by (auto intro!: yields_and_then on_app_limiter on_app_reset start_reset_yields verify_code_yields confirm_reset_yields
      check_rules_yields intro: foreign_errorsD simp: check_password_reset_attempt_def)

lemma lookups_yield:
  assumes "foreign_errors P"
  shows "app_inv cfg (fst st) \<Longrightarrow> on_app cfg (get_database (lookup_identity_by_email (pf_postgres P) em) st)"
    and "app_inv cfg (fst st) \<Longrightarrow> on_app cfg (get_database (lookup_identity_by_external_id (pf_postgres P) ty i) st)"
    and "app_inv cfg (fst st) \<Longrightarrow> on_app cfg (get_database (db_ping (pf_postgres P)) st)"
  unfolding lookup_identity_by_email_def lookup_identity_by_external_id_def
  by (rule on_app_database;
      auto intro!: yields_and_then find_by_email_public intro: foreign_errorsD [OF assms] split: list.splits)+

lemma ready_yields:
  assumes "foreign_errors P" "app_inv cfg (fst st)"
  shows "on_app cfg (ready P st)"
proof -
  have ping: "on_app cfg (get_rate_limiter (\<lambda>(l, r). case lim_ping R l r of (ok, s) \<Rightarrow> (Inr ok, s)) st)"
    if "app_inv cfg (fst st)" for R st
    using that
    by (rule on_app_limiter) (metis (mono_tags) lim_ping_inv prod.case prod.collapse yields_simps(2))
  show ?thesis
    unfolding ready_def
    by (intro yields_and_then ping lookups_yield assms) (auto simp: Let_def)
qed

lemma internal_verify_yields:
  assumes "foreign_errors P" "app_inv cfg (fst st)"
  shows "on_app cfg (verify_internal_credentials P rq payload st)"
proof -
  have "on_app cfg (case auth_verify P payload st of
      (Inl InvalidCredentialsError, st1) \<Rightarrow> (Inl (HTTPException 403 credentials_detail []), st1)
    | (res, st1) \<Rightarrow> (res, st1))" if "app_inv cfg (fst st)" for st
  proof -
    obtain res st1 where v: "auth_verify P payload st = (res, st1)" by (rule prod.exhaust)
    have "app_inv cfg (fst st1) \<and> (\<forall>e. res = Inl e \<longrightarrow> public_exn e)"
      by (rule yieldsD [OF auth_yields [OF assms(1) that] v])
    then show ?thesis unfolding v by (auto split: sum.split exn.split)
  qed
  then show ?thesis
    unfolding verify_internal_credentials_def
    by (intro yields_and_then on_app_pure assms) (auto dest: guards_public)
qed

lemma run_call_yields:
  assumes "foreign_errors P" "app_inv cfg (fst st)"
  shows "on_app cfg (run_call P d rq c st)"
  using assms
  by (cases c)
    (auto simp: metrics_def verify_credentials_route_def start_native_login_def verify_native_login_def
      verify_web_login_def refresh_web_session_def logout_web_session_def issue_keycloak_token_def
      refresh_keycloak_token_def lookup_identity_by_email_route_def lookup_identity_by_external_id_route_def
      intro!: on_app_answer yields_and_then on_app_pure limit_yields auth_yields otp_check_yields broker_yields
        otp_start_route_yields reset_routes_yield lookups_yield ready_yields internal_verify_yields
      dest: guards_public requests_public)

lemma handled_answers:
  "(503, broker_detail) \<in> set public_answers" "(401, otp_detail) \<in> set public_answers"
  "(503, otp_unavailable_detail) \<in> set public_answers" "(401, credentials_detail) \<in> set public_answers"
  "(409, ambiguous_detail) \<in> set public_answers" "(429, rate_limit_detail) \<in> set public_answers"
  "(400, reset_otp_detail) \<in> set public_answers" "(429, reset_attempts_detail) \<in> set public_answers"
  "(503, reset_unavailable_detail) \<in> set public_answers" "(404, ''Not Found'') \<in> set public_answers"
  by (simp_all add: public_answers_def)

lemma exception_response_public:
  "exception_response e = Some response \<Longrightarrow> public_exn e \<Longrightarrow> hr_body response = Detail detail
    \<Longrightarrow> (hr_status response, detail) \<in> set public_answers"
  by (cases e) (auto simp: JSONResponse_def public_exn.simps handled_answers split: if_splits)

lemma run_call_body:
  "run_call P d rq c st = (Inr response, st') \<Longrightarrow> hr_body response \<noteq> Detail detail"
  by (cases c)
    (auto simp: answer_def answer_web_def and_then_def respond_def split: prod.splits sum.splits)

lemma serve_public:
  assumes "foreign_errors P" "app_inv cfg a"
    and serve: "serve P d m path t rq c (a, r) = (response, a', r')"
  shows "app_inv cfg a'"
    and "hr_body response = Detail detail \<Longrightarrow> (hr_status response, detail) \<in> set public_answers"
proof -
  obtain res a1 r1 where run: "run_call P d rq c (a, r) = (res, a1, r1)" by (rule prod_cases3)
  have inv: "app_inv cfg a1" and err: "\<And>e. res = Inl e \<Longrightarrow> public_exn e"
    using yieldsD [OF run_call_yields [OF assms(1), of cfg "(a, r)" d rq c] run] assms(2) by auto
  show "app_inv cfg a'"
    using serve assms(2) inv unfolding serve_def prometheus_request_metrics_def password_broker_cutover_guard_def
      handle_exceptions_def run
    by (auto split: if_splits sum.splits option.splits exn.splits)
  have ok: "res = Inr resp \<Longrightarrow> hr_body resp \<noteq> Detail detail" for resp using run_call_body run by blast
  assume body: "hr_body response = Detail detail"
  consider "response = JSONResponse 404 ''Not Found'' []" | "res = Inr response"
    | e where "res = Inl e" "exception_response e = Some response" | "response = respond 500 (Message ''Internal Server Error'') []"
    using serve unfolding serve_def prometheus_request_metrics_def password_broker_cutover_guard_def
      handle_exceptions_def run
    by (auto split: if_splits sum.splits option.splits)
  then show "(hr_status response, detail) \<in> set public_answers"
    using body err ok
    by cases (auto simp: handled_answers JSONResponse_def respond_def dest: exception_response_public)
qed

lemma app_shutdown_inv:
  assumes "foreign_errors P" "app_inv cfg (fst st)"
  shows "app_inv cfg (fst (snd (app_shutdown P st)))"
proof -
  obtain a r where st: "st = (a, r)" by (rule prod.exhaust)
  let ?send = "send_password_reset_email (ap_settings a) (pf_smtp P)"
  let ?s = "ps_close (ap_reset a)"
  have inv: "app_inv cfg a" using assms(2) by (simp add: st)
  then have s: "reset_inv cfg ?s" by (simp add: app_invD)
  obtain res o1 r1 where c: "otp_close (pf_redis P) ?send (ps_otp ?s, r) = (res, o1, r1)" by (rule prod_cases3)
  have "otp_inv cfg o1"
    using otp_close_inv [OF reset_invD(2) [OF s], of ?send "pf_redis P" r] mail_public(2) [of "pf_smtp P"]
      foreign_errorsD(2) [OF assms(1)] c by auto
  with inv s c show ?thesis
    by (cases res) (auto simp: app_shutdown_def st lim_close_inv app_invD)
qed

lemma app_step_inv:
  assumes "app_step foreign_errors st st'" "app_inv cfg (fst st)"
  shows "app_inv cfg (fst st')"
  using assms
proof cases
  case (request P d m path t rq c)
  obtain response a' r' where "serve P d m path t rq c st = (response, a', r')" by (rule prod_cases3)
  with serve_public(1) [OF request(2) assms(2), where r = "snd st"] request show ?thesis by auto
next
  case (delivery P a r)
  have "on_app cfg (get_email_otp_service
    (run_delivery (pf_redis P) (send_password_reset_email (ap_settings a) (pf_smtp P))) (a, r))"
    using assms(2) delivery
    by (intro on_app_otp) (auto intro!: run_delivery_yields intro: mail_public foreign_errorsD [OF delivery(3)])
  then show ?thesis unfolding delivery yields_def by simp
next
  case (shutdown P)
  with assms(2) app_shutdown_inv [OF shutdown(2)] show ?thesis by simp
qed simp

lemma app_start_inv: "create_app cfg = Inr a \<Longrightarrow> app_inv cfg a"
  by (auto simp: create_app_def Let_def app_inv_def limiter_inv_def limiter_ok_def init_limiter_def reset_inv_def
      init_reset_service_def used_invar_def otp_inv_def otp_invar_def init_otp_def MEMORY_CLEANUP_INTERVAL_def
      split: sum.splits)

lemma app_reachable_inv:
  "app_reachable foreign_errors cfg st \<Longrightarrow> app_inv cfg (fst st)"
  by (induction rule: app_reachable.induct) (auto simp: app_start_inv intro: app_step_inv)

section \<open>Properties\<close>

text \<open>C10: In every state the application reaches from its start, whatever requests arrive, with
  deliveries and shutdowns in any order, and whatever the servers do, a different one at every
  step (as long as the exceptions of libraries are not the application's own): settings, broker
  and the two verifiers are the ones of the start; the counter map holds at most 10000 entries; no
  store holds a key twice; every challenge in the process is a login challenge or a reset
  challenge under its prefix, with a count of wrong guesses below the limit; the reset service
  never holds an HTTP client to close; without a Redis URL no Redis client is ever opened, and with
  one no challenge and no used token is ever kept in the process.\<close>

theorem app_invariant:
  assumes "app_reachable foreign_errors cfg (a, r)"
  shows "ap_settings a = cfg \<and> ap_broker a = init_broker cfg \<and>
    init_verifier cfg None None = Inr (ap_service_verifier a) \<and>
    init_verifier cfg (Some (keycloak_metrics_audience cfg)) (Some (metrics_keycloak_authorized_party cfg))
      = Inr (ap_metrics_verifier a) \<and>
    length (lim_memory (ap_limiter a)) \<le> 10000 \<and> distinct (map fst (lim_memory (ap_limiter a))) \<and>
    distinct (map fst (otp_memory (ap_otp a))) \<and> distinct (map fst (ps_blacklist (ap_reset a))) \<and>
    (\<forall>(k, rec) \<in> set (otp_memory (ap_otp a)). challenge_record cfg k rec) \<and>
    ps_http (ap_reset a) = NoClient \<and>
    (if redis_url cfg = None
     then \<not> lim_redis (ap_limiter a) \<and> \<not> otp_redis (ap_otp a) \<and> \<not> ps_redis (ap_reset a)
     else otp_memory (ap_otp a) = [] \<and> ps_blacklist (ap_reset a) = [])"
  using app_reachable_inv [OF assms]
  by (auto simp: app_inv_def limiter_inv_def limiter_ok_def reset_inv_def otp_inv_def otp_invar_def used_invar_def
      MEMORY_MAX_ENTRIES_def)

lemma foreign_example: "foreign_errors example_platform"
  by (auto simp: foreign_errors_def example_platform_def example_checkpw_def example_postgres_def)

lemma example_start: "\<exists>a. create_app default_settings = Inr a"
proof -
  have "case create_app default_settings of Inl _ \<Rightarrow> False | Inr _ \<Rightarrow> True" by code_simp
  then show ?thesis by (cases "create_app default_settings") auto
qed

theorem app_invariant_witness:
  "\<exists>a0. create_app default_settings = Inr a0 \<and>
    (let a = fst (snd (serve example_platform example_draws ''POST'' ''/v1/auth/login/start'' 1 example_browser
        (Call_login_start \<lparr>tl_email = ''a@b.c'', tl_password = ''x''\<rparr>) (a0, [])))
     in length (lim_memory (ap_limiter a)) \<le> 10000 \<and> \<not> otp_redis (ap_otp a))"
proof -
  obtain a0 where a0: "create_app default_settings = Inr a0" using example_start by blast
  obtain response a r where run: "serve example_platform example_draws ''POST'' ''/v1/auth/login/start'' 1 example_browser
        (Call_login_start \<lparr>tl_email = ''a@b.c'', tl_password = ''x''\<rparr>) (a0, []) = (response, a, r)" by (rule prod_cases3)
  have "app_reachable (foreign_errors :: (_, pyval) platform \<Rightarrow> bool) default_settings (snd (serve example_platform example_draws ''POST''
      ''/v1/auth/login/start'' 1 example_browser (Call_login_start \<lparr>tl_email = ''a@b.c'', tl_password = ''x''\<rparr>) (a0, [])))"
    using app_reachable.start [OF a0] app_step.request [where ok = foreign_errors, OF foreign_example]
    by (rule app_reachable.step)
  from app_invariant [OF this [unfolded run snd_conv]] a0 run show ?thesis
    by (simp add: default_settings_def)
qed

text \<open>C20: The error answers of the application are a fixed table: whatever the state, the request and
  the behaviour of the servers, an answer with an error detail has a status and a detail of
  that table, apart from what the framework itself answers to a request it cannot parse. No
  message of a library, of Keycloak or of ms-spring-api, and nothing taken from a request or a
  stored record, reaches the client as an error detail.\<close>

theorem error_details_public:
  fixes P :: "('r, 'j) platform"
  assumes "foreign_errors P" and "app_reachable (foreign_errors :: ('r, 'j) platform \<Rightarrow> bool) cfg (a, r)"
    and "serve P d m path t rq c (a, r) = (response, a', r')" and "hr_body response = Detail detail"
  shows "(hr_status response, detail) \<in> set public_answers"
  using serve_public(2) [OF assms(1) _ assms(3,4)] app_reachable_inv [OF assms(2)] by simp

theorem error_details_public_witness:
  "\<exists>a0 response a r. create_app default_settings = Inr a0 \<and>
    serve example_platform example_draws ''POST'' ''/internal/v1/credentials/verify'' 1 example_browser
      (Call_internal_verify \<lparr>cr_email = ''a@b.c'', cr_password = ''x'', cr_account_type = None\<rparr>) (a0, [])
      = (response, a, r) \<and>
    (hr_status response, ''Invalid service credentials.'') \<in> set public_answers"
proof -
  let ?q = "\<lparr>cr_email = ''a@b.c'', cr_password = ''x'', cr_account_type = None\<rparr>"
  obtain a0 where a0: "create_app default_settings = Inr a0" using example_start by blast
  have header: "map_of (rq_headers example_browser) ''authorization'' = None" by (simp add: example_browser_def)
  obtain response a r where run: "serve example_platform example_draws ''POST'' ''/internal/v1/credentials/verify'' 1
      example_browser (Call_internal_verify ?q) (a0, []) = (response, a, r)" by (rule prod_cases3)
  then have "hr_body response = Detail ''Invalid service credentials.''"
    by (auto simp: serve_def prometheus_request_metrics_def password_broker_cutover_guard_def handle_exceptions_def
        verify_internal_credentials_def require_keycloak_service_def require_bearer_cases header
        verify_authorization_header_def answer_def JSONResponse_def)
  from error_details_public [OF foreign_example app_reachable.start [OF a0] run this] run a0 show ?thesis by blast
qed

end
