(* ===== verification/Spec2Isabelle.thy ===== *)
theory Spec2Isabelle
  imports RateLimitProps OtpReset OtpGuesses OtpRace ResetProps ResetRace ResetFlow AppProps AppInvariant
begin

text \<open>
  Verification library of ms-auth-service, the authentication service in front of Keycloak:
  logins with a password and a code sent by e-mail, password resets with a code and a signed
  token of a configured lifetime (by default ten minutes), the identity lookups Keycloak makes, and the forwarding of token requests.

  The program and its model.
  A request passes the request counter and the cutover guard, is validated into a request
  model, and is handled by a route, which calls the rate limiter, the credential check on the
  identity tables, the OTP service, the password-reset service or the token broker. These keep
  their state in the process or in Redis; the answer is a typed response, or an exception that
  a registered handler turns into one.

  \<^item> \<open>Auth_Prelude\<close>: Python strings as lists of code points, \<open>strip\<close>, \<open>lower\<close>, \<open>partition\<close>,
    decimal numbers, association lists as dictionaries, JSON values (\<open>pyval\<close>), and the outcome of
    stateful code (\<open>('e, 's, 'a) outcome\<close>, sequenced by \<open>and_then\<close>, reasoned about by \<open>yields\<close>).
  \<^item> \<open>Py_Regex\<close>: the matcher for the regular expressions of the source.
  \<^item> \<open>Errors\<close>: \<open>app/core/errors.py\<close>, the exceptions as one datatype.
  \<^item> \<open>Identity\<close>, \<open>Repository\<close>: \<open>app/models/identity.py\<close>, \<open>app/core/database.py\<close> and
    \<open>app/repositories/identity_repository.py\<close>: account types, the pool, the two queries over
    the three tables, the mapping of rows.
  \<^item> \<open>Config\<close>: \<open>app/core/config.py\<close>, every field of \<open>Settings\<close> with default and constraints.
  \<^item> \<open>Schemas\<close>: \<open>app/schemas/auth.py\<close>; a validated request is made by its \<open>mk_\<close> function, which
    raises \<open>ValidationError\<close> where the model does.
  \<^item> \<open>Redis\<close>: the interface of the Redis client.
  \<^item> \<open>RateLimit\<close>, \<open>RateLimitProps\<close>: \<open>app/core/rate_limit.py\<close>, the record \<open>limiter\<close> and its steps.
  \<^item> \<open>ExpiringMap\<close>, \<open>GuessLimit\<close>: two interfaces, a store whose entries expire and a challenge
    with a bounded number of guesses, with the laws the providers promise; a third, the
    reservation of a token, is in \<open>ResetRace\<close>, and the window counter in \<open>RateLimit\<close>.
  \<^item> \<open>EmailOtp\<close>: the challenges of \<open>app/services/email_otp.py\<close>, the record \<open>otp\<close>, both stores and
    the Lua script; \<open>EmailMessage\<close> and \<open>Smtp\<close>: the message with its HTML part and the SMTP
    dialogue; \<open>OtpStore\<close>, \<open>OtpLogin\<close>,
    \<open>OtpReset\<close>, \<open>OtpGuesses\<close>, \<open>OtpRace\<close>: its properties.
  \<^item> \<open>AuthService\<close>: \<open>app/services/auth_service.py\<close> and \<open>app/core/security.py\<close>.
  \<^item> \<open>PasswordReset\<close>: \<open>app/services/password_reset_service.py\<close>, the record \<open>reset_service\<close>;
    \<open>ResetProps\<close>, \<open>ResetRace\<close>, \<open>ResetFlow\<close>: its properties.
  \<^item> \<open>TokenBroker\<close>, \<open>ServiceAuth\<close>: \<open>app/services/keycloak_token_broker.py\<close> and
    \<open>app/core/service_auth.py\<close>.
  \<^item> \<open>Metrics\<close>: \<open>app/core/metrics.py\<close> and \<open>app/core/infisical.py\<close>.
  \<^item> \<open>Routes\<close>: \<open>app/api/routes.py\<close> and \<open>app/api/internal_routes.py\<close>, every handler, over one
    \<open>app_state\<close>; \<open>App\<close>: \<open>app/main.py\<close>, the wiring, the dispatch to the routes, the exception
    handlers, the two middlewares and the shutdown; \<open>RouteProps\<close>, \<open>AppProps\<close>: their properties;
    \<open>AppInvariant\<close>: the states the running application reaches and its error answers, where every
    request may meet other behaviour of the servers and libraries.

  Conventions.
  A method of a service is a function from the state of the service and of the outside world to
  a result and both states; an exception keeps the state reached so far. A clock or a random
  draw is an argument, one per reading, in the order of the readings. Seconds are rational
  numbers, \<open>int()\<close> of them truncates. What a library call returns or raises is a value of its reply
  type: the exceptions of the JWT library are \<open>jwt_error\<close>, so that the except clauses of the two token
  checks (\<open>local_validation_errors\<close>, \<open>service_token_errors\<close>) catch what they name and the others escape
  as \<open>JwtError\<close>, which no handler of the application knows; an exception of httpx outside its HTTP
  errors is \<open>TokenRaised\<close> and escapes as \<open>LibraryError\<close>. The outside world of a request is one record \<open>platform\<close>,
  the draws of a request one record \<open>draws\<close>.

  What the properties show.
  \<^item> Login challenges (\<open>OtpLogin\<close>, \<open>OtpGuesses\<close>, \<open>OtpRace\<close>): accepted once and only with their
    own email and code, an acceptance comes from a live record, the number of wrong guesses is
    bounded in the process and over Redis; overlapping verifications over Redis escape both.
  \<^item> Reset challenges (\<open>OtpReset\<close>, \<open>OtpGuesses\<close>): the in-process branch and the Redis script
    refine one abstract verification; at most one guess of a sequence is granted.
  \<^item> Reset tokens (\<open>ResetProps\<close>, \<open>ResetRace\<close>, \<open>ResetFlow\<close>): single use over any sequence and any
    interleaving of confirmations until the token expires, retry after a failed update, the
    conditions under which ms-spring-api is called, the uniform answer of the start, the flow from the first request to the update.
  \<^item> Rate limits (\<open>RateLimitProps\<close>): admission in one window, the bounded counter map in every
    reachable state, the fallback during an outage.
  \<^item> Credentials and tokens (\<open>AuthService\<close>, \<open>Repository\<close>, \<open>TokenBroker\<close>, \<open>ServiceAuth\<close>): exact
    outcomes of the queries, the credential check, the local checks of Keycloak's tokens.
  \<^item> Whole requests (\<open>RouteProps\<close>, \<open>AppProps\<close>): in the second step of a login, tokens only with the
    code and the password (the password-grant and refresh routes need no code), the login flow from
    start to tokens, no account enumeration by a login start, the cookies of the browser
    session, the guards of the service routes, request counting, the shutdown.
  \<^item> The running application (\<open>AppInvariant\<close>): every operation keeps one invariant of the whole
    state and raises only exceptions whose answer is in a fixed table, so every reachable state
    has bounded and well-formed stores and no error answer carries an internal message.

  Bounds. Every definition is total; there is no fuel. The regular-expression matcher recurses
  on the pattern and the rest of the string; the deliveries of a shutdown are the finite list
  of pending ones. Properties of the source's limits (attempts, counter map, windows) are for
  the settings' own values; the examples use small ones.

  Not modelled.
  The JWT library, bcrypt, SHA-256 and HMAC, PostgreSQL, Redis, Keycloak, ms-spring-api, the SMTP
  server and the Infisical SDK are parameters; what a property needs of them is a named
  hypothesis (\<open>bcrypt_total\<close>, \<open>ascii_hash\<close>, the laws of \<open>GuessLimit\<close>; \<open>expiring_keys\<close>, that a key stored
  with \<open>NX\<close> and \<open>EX\<close> is there until its deadline on the server's clock unless it is deleted;
  \<open>foreign_errors\<close>, that the libraries raise none of the service's own exceptions). FastAPI's routing,
  validation errors and CORS middleware and the exposition format of the metrics are library
  code. Encoding an e-mail and the bytes of its inline logo belong to the library. Strings hold code
  points below 256, so the case mapping and white space of other characters are outside. The
  asyncio lock and interleavings are modelled where two awaits of one request matter (\<open>OtpRace\<close>, \<open>ResetRace\<close>);
  elsewhere requests follow one another. Tests and deployment files hold no program logic.
\<close>

end
